(* ===== verification/Prelude.thy ===== *)
theory Prelude
  imports
    Complex_Main
    "HOL-Library.Multiset"
    "HOL-Library.List_Lexorder"
    "HOL-Library.Char_ord"
    "HOL-Library.Option_ord"
    "HOL-Library.State_Monad"
    "HOL-Library.Stream"
begin
text \<open>
  Shared vocabulary of the supply-chain development: SQL values with NULL, the
  SQL scalar and aggregate functions the queries of \<^verbatim>\<open>src/scripts/demo_sqlite.py\<close>
  use (CAST AS INTEGER, ROUND, AVG, COUNT, SUM, CASE), C integer division as
  SQLite's date code uses it, and the stable descending sort that models
  \<^verbatim>\<open>ORDER BY ... DESC\<close>. A NULL is \<open>None\<close>; SQLite orders NULL below every
  value, which is the order \<open>HOL-Library.Option_ord\<close> puts on \<open>'a option\<close>.
\<close>

named_theorems sql_simps "evaluation rules of the SQL fragment"

type_synonym sql_int = "int option"
type_synonym sql_text = "string option"

section \<open>Integer division as in C\<close>

definition c_div :: "int \<Rightarrow> int \<Rightarrow> int" where
  "c_div a b = sgn a * sgn b * (\<bar>a\<bar> div \<bar>b\<bar>)"

section \<open>SQL scalar functions\<close>

text \<open>\<^verbatim>\<open>CAST(x AS INTEGER)\<close> of a real value truncates towards zero.\<close>

definition sql_cast_int :: "rat \<Rightarrow> int" where
  "sql_cast_int x = (if 0 \<le> x then \<lfloor>x\<rfloor> else \<lceil>x\<rceil>)"

text \<open>\<^verbatim>\<open>ROUND(x, 2)\<close>: half away from zero, at two decimals.\<close>

definition sql_round2 :: "rat \<Rightarrow> rat" where
  "sql_round2 x =
     (if x < 0 then - of_int \<lfloor>- x * 100 + 1/2\<rfloor> / 100 else of_int \<lfloor>x * 100 + 1/2\<rfloor> / 100)"

text \<open>Three-valued comparison \<^verbatim>\<open>x > c\<close> with a NULL operand, and
  \<^verbatim>\<open>CASE WHEN cond THEN a ELSE b END\<close> (a missing ELSE is NULL).\<close>

definition sql_gt :: "sql_int \<Rightarrow> int \<Rightarrow> bool option" where
  "sql_gt x c = map_option (\<lambda>v. c < v) x"

definition sql_case :: "bool option \<Rightarrow> 'a option \<Rightarrow> 'a option \<Rightarrow> 'a option" where
  "sql_case cond a b = (if cond = Some True then a else b)"

section \<open>SQL aggregates\<close>

text \<open>Aggregates skip NULLs; \<^verbatim>\<open>AVG\<close> and \<^verbatim>\<open>SUM\<close> of no value are NULL.\<close>

fun nonnull :: "'a option list \<Rightarrow> 'a list" where
  "nonnull [] = []"
| "nonnull (None # xs) = nonnull xs"
| "nonnull (Some x # xs) = x # nonnull xs"

definition sql_count :: "'a option list \<Rightarrow> nat" where
  "sql_count xs = length (nonnull xs)"

definition sql_sum :: "sql_int list \<Rightarrow> sql_int" where
  "sql_sum xs = (if nonnull xs = [] then None else Some (sum_list (nonnull xs)))"

definition sql_avg :: "sql_int list \<Rightarrow> rat option" where
  "sql_avg xs =
     (if nonnull xs = [] then None
      else Some (of_int (sum_list (nonnull xs)) / of_nat (length (nonnull xs))))"

section \<open>ORDER BY ... DESC as a stable insertion sort\<close>

text \<open>
  \<open>sort_desc f xs\<close> orders by the key \<open>f\<close>, largest first, and keeps the input
  order among rows with equal keys. SQL leaves that order open; the lemma
  \<open>order_by_desc_keys\<close> shows the key column of every admissible result is the same.
\<close>

fun insort_desc :: "('a \<Rightarrow> 'k::linorder) \<Rightarrow> 'a \<Rightarrow> 'a list \<Rightarrow> 'a list" where
  "insort_desc f x [] = [x]"
| "insort_desc f x (y # ys) = (if f y \<le> f x then x # y # ys else y # insort_desc f x ys)"

fun sort_desc :: "('a \<Rightarrow> 'k::linorder) \<Rightarrow> 'a list \<Rightarrow> 'a list" where
  "sort_desc f [] = []"
| "sort_desc f (x # xs) = insort_desc f x (sort_desc f xs)"

definition sorted_desc :: "('a \<Rightarrow> 'k::linorder) \<Rightarrow> 'a list \<Rightarrow> bool" where
  "sorted_desc f ys = sorted_wrt (\<lambda>a b. f b \<le> f a) ys"

text \<open>The contract of \<^verbatim>\<open>ORDER BY f DESC\<close>: a permutation of the input, sorted.\<close>

definition order_by_desc :: "('a \<Rightarrow> 'k::linorder) \<Rightarrow> 'a list \<Rightarrow> 'a list \<Rightarrow> bool" where
  "order_by_desc f xs ys \<longleftrightarrow> mset ys = mset xs \<and> sorted_desc f ys"

section \<open>GROUP BY\<close>

text \<open>
  SQLite evaluates \<^verbatim>\<open>GROUP BY k\<close> by sorting on \<open>k\<close>; the groups come out in
  ascending key order. A group is the key with the rows that have it, in input order.
\<close>

definition group_keys :: "('a \<Rightarrow> 'k::linorder) \<Rightarrow> 'a list \<Rightarrow> 'k list" where
  "group_keys key rows = sort (remdups (map key rows))"

definition group_by :: "('a \<Rightarrow> 'k::linorder) \<Rightarrow> 'a list \<Rightarrow> ('k \<times> 'a list) list" where
  "group_by key rows = map (\<lambda>k. (k, filter (\<lambda>r. key r = k) rows)) (group_keys key rows)"


section \<open>Properties of the SQL fragment\<close>

lemma c_div_nonneg [simp]: "0 \<le> a \<Longrightarrow> 0 < b \<Longrightarrow> c_div a b = a div b"
  by (cases "a = 0") (simp_all add: c_div_def)

lemma sql_cast_int_of_int [simp, sql_simps]: "sql_cast_int (of_int k) = k"
  by (simp add: sql_cast_int_def)

lemma sql_round2_of_int [simp, sql_simps]: "sql_round2 (of_int k) = of_int k"
proof -
  have a: "\<lfloor>(of_int k :: rat) * 100 + 1/2\<rfloor> = k * 100"
    by (rule floor_unique) simp_all
  have b: "\<lfloor>1/2 - (of_int k :: rat) * 100\<rfloor> = - k * 100"
    by (rule floor_unique) simp_all
  show ?thesis by (simp add: sql_round2_def a b)
qed

lemma set_nonnull [simp]: "set (nonnull xs) = {x. Some x \<in> set xs}"
  by (induction xs rule: nonnull.induct) auto

lemma nonnull_append [simp]: "nonnull (xs @ ys) = nonnull xs @ nonnull ys"
  by (induction xs rule: nonnull.induct) auto

lemma nonnull_rev [simp]: "nonnull (rev xs) = rev (nonnull xs)"
  by (induction xs rule: nonnull.induct) auto

lemma nonnull_map_Some [simp]: "nonnull (map Some xs) = xs"
  by (induction xs) auto

lemma mset_nonnull: "mset (nonnull xs) = image_mset the (filter_mset (\<lambda>x. x \<noteq> None) (mset xs))"
  by (induction xs rule: nonnull.induct) auto

lemma mset_nonnull_perm: "mset xs = mset ys \<Longrightarrow> mset (nonnull xs) = mset (nonnull ys)"
  by (simp add: mset_nonnull)

lemma sql_avg_perm:
  assumes "mset xs = mset ys"
  shows "sql_avg xs = sql_avg ys"
proof -
  have m: "mset (nonnull xs) = mset (nonnull ys)"
    using assms by (rule mset_nonnull_perm)
  then have "sum_list (nonnull xs) = sum_list (nonnull ys)"
    by (metis sum_mset_sum_list)
  moreover have "length (nonnull xs) = length (nonnull ys)"
    using m by (metis size_mset)
  moreover have "nonnull xs = [] \<longleftrightarrow> nonnull ys = []"
    using m by auto
  ultimately show ?thesis by (simp add: sql_avg_def)
qed

lemma sql_avg_single [simp, sql_simps]: "sql_avg [Some d] = Some (of_int d)"
  by (simp add: sql_avg_def)

lemma sum_list_lower: "\<forall>v \<in> set ys. lo \<le> v \<Longrightarrow> of_nat (length ys) * lo \<le> sum_list (ys :: int list)"
  by (induction ys) (auto simp: algebra_simps)

lemma sum_list_upper: "\<forall>v \<in> set ys. v \<le> hi \<Longrightarrow> sum_list (ys :: int list) \<le> of_nat (length ys) * hi"
  by (induction ys) (auto simp: algebra_simps)

lemma sql_avg_bounds:
  assumes "sql_avg xs = Some a" and "\<forall>v \<in> set (nonnull xs). lo \<le> v \<and> v \<le> hi"
  shows "of_int lo \<le> a \<and> a \<le> of_int hi"
proof -
  let ?ys = "nonnull xs"
  let ?n = "length ?ys"
  have ne: "?ys \<noteq> []" and a: "a = of_int (sum_list ?ys) / of_nat ?n"
    using assms(1) by (auto simp: sql_avg_def split: if_splits)
  have "of_nat ?n * lo \<le> sum_list ?ys" and "sum_list ?ys \<le> of_nat ?n * hi"
    using assms(2) by (auto intro: sum_list_lower sum_list_upper)
  then have l: "of_nat ?n * (of_int lo :: rat) \<le> of_int (sum_list ?ys)"
    and u: "of_int (sum_list ?ys) \<le> of_nat ?n * (of_int hi :: rat)"
    by (metis of_int_le_iff of_int_mult of_int_of_nat_eq)+
  have pos: "(0::rat) < of_nat ?n"
    using ne by simp
  from l u pos show ?thesis
    unfolding a by (simp add: field_simps mult.commute)
qed

lemma mset_insort_desc [simp]: "mset (insort_desc f x xs) = add_mset x (mset xs)"
  by (induction xs) auto

lemma mset_sort_desc [simp]: "mset (sort_desc f xs) = mset xs"
  by (induction xs) auto

lemma set_sort_desc [simp]: "set (sort_desc f xs) = set xs"
  by (metis mset_sort_desc set_mset_mset)

lemma length_sort_desc [simp]: "length (sort_desc f xs) = length xs"
  by (metis mset_sort_desc size_mset)

lemma sorted_desc_insort:
  "sorted_desc f xs \<Longrightarrow> sorted_desc f (insort_desc f x xs)"
proof (induction xs)
  case Nil
  then show ?case by (simp add: sorted_desc_def)
next
  case (Cons y ys)
  have "set (insort_desc f x ys) = insert x (set ys)"
    by (metis mset_insort_desc set_mset_add_mset_insert set_mset_mset)
  with Cons show ?case
    by (auto simp: sorted_desc_def)
qed

lemma sorted_desc_sort_desc [simp]: "sorted_desc f (sort_desc f xs)"
  by (induction xs) (auto simp: sorted_desc_def intro: sorted_desc_insort [unfolded sorted_desc_def])

lemma order_by_desc_sort_desc [simp]: "order_by_desc f xs (sort_desc f xs)"
  by (simp add: order_by_desc_def)

lemma sort_desc_stable:
  "filter (\<lambda>y. f y = k) (sort_desc f xs) = filter (\<lambda>y. f y = k) xs"
proof (induction xs)
  case Nil
  then show ?case by simp
next
  case (Cons x xs)
  have ins: "filter (\<lambda>y. f y = k) (insort_desc f x ys) =
      (if f x = k then x # filter (\<lambda>y. f y = k) ys else filter (\<lambda>y. f y = k) ys)"
    if "sorted_desc f ys" for ys
    using that
  proof (induction ys)
    case Nil
    then show ?case by simp
  next
    case (Cons y ys)
    then have "sorted_desc f ys" and "\<forall>z \<in> set ys. f z \<le> f y"
      by (auto simp: sorted_desc_def)
    with Cons show ?case
      by (auto simp: filter_empty_conv)
  qed
  show ?case by (simp add: ins Cons.IH)
qed

text \<open>The keys of a descending sort are the reverse of the sorted keys.\<close>

lemma sorted_desc_keys: "sorted_desc f ys \<Longrightarrow> sorted (rev (map f ys))"
  by (simp add: sorted_desc_def sorted_wrt_rev sorted_wrt_map)

lemma order_by_desc_keys:
  assumes "order_by_desc f xs ys"
  shows "map f ys = rev (sort (map f xs))"
proof -
  have "sort (map f xs) = rev (map f ys)"
  proof (rule properties_for_sort)
    show "mset (rev (map f ys)) = mset (map f xs)"
      using assms by (simp add: order_by_desc_def)
    show "sorted (rev (map f ys))"
      using assms by (simp add: order_by_desc_def sorted_desc_keys)
  qed
  then show ?thesis by simp
qed

lemma order_by_desc_set: "order_by_desc f xs ys \<Longrightarrow> set ys = set xs"
  by (metis order_by_desc_def set_mset_mset)

lemma order_by_desc_length: "order_by_desc f xs ys \<Longrightarrow> length ys = length xs"
  by (metis order_by_desc_def size_mset)

lemma sorted_desc_take [simp]: "sorted_desc f ys \<Longrightarrow> sorted_desc f (take n ys)"
  by (simp add: sorted_desc_def)

lemmas order_by_facts = order_by_desc_set order_by_desc_length order_by_desc_keys

lemma set_group_keys [simp]: "set (group_keys key rows) = key ` set rows"
  by (simp add: group_keys_def)

lemma distinct_group_keys [simp]: "distinct (group_keys key rows)"
  by (simp add: group_keys_def)

lemma group_by_nonempty:
  "(k, g) \<in> set (group_by key rows) \<Longrightarrow> g \<noteq> [] \<and> (\<forall>r \<in> set g. key r = k)"
  by (auto simp: group_by_def filter_empty_conv)

lemma group_by_member:
  "(k, g) \<in> set (group_by key rows) \<longleftrightarrow> k \<in> key ` set rows \<and> g = filter (\<lambda>r. key r = k) rows"
  by (auto simp: group_by_def)

lemma length_group_by: "length (group_by key rows) = card (key ` set rows)"
  by (simp add: group_by_def group_keys_def length_remdups_card_conv)

lemma group_by_Nil [simp]: "group_by key [] = []"
  by (simp add: group_by_def group_keys_def)


section \<open>Counting with filter\<close>

lemma length_filter_weaker:
  "(\<And>z. P z \<Longrightarrow> Q z) \<Longrightarrow> length (filter P xs) \<le> length (filter Q xs)"
  by (induction xs) auto

lemma length_filter_weaker_strict:
  assumes "\<And>z. P z \<Longrightarrow> Q z" "y \<in> set xs" "Q y" "\<not> P y"
  shows "length (filter P xs) < length (filter Q xs)"
  using assms(2)
proof (induction xs)
  case Nil
  then show ?case by simp
next
  case (Cons x xs)
  show ?case
  proof (cases "x = y")
    case True
    with assms(3,4) show ?thesis
      using length_filter_weaker [of P Q xs] assms(1) by (simp add: less_Suc_eq_le)
  next
    case False
    with Cons have "length (filter P xs) < length (filter Q xs)" by simp
    with assms(1) show ?thesis by auto
  qed
qed

section \<open>Rounded averages\<close>

lemma sql_round2_mono: "x \<le> y \<Longrightarrow> sql_round2 x \<le> sql_round2 y"
proof -
  assume le: "x \<le> y"
  consider "x < 0" "y < 0" | "x < 0" "0 \<le> y" | "0 \<le> x" "0 \<le> y"
    using le by linarith
  then show ?thesis
  proof cases
    case 1
    then have "\<lfloor>- y * 100 + 1/2\<rfloor> \<le> \<lfloor>- x * 100 + 1/2\<rfloor>"
      using le by (intro floor_mono) simp
    with 1 show ?thesis by (simp add: sql_round2_def)
  next
    case 2
    have "0 \<le> \<lfloor>- x * 100 + 1/2\<rfloor>" using 2 by simp
    then have "sql_round2 x \<le> 0" using 2 by (simp add: sql_round2_def)
    moreover have "0 \<le> \<lfloor>y * 100 + 1/2\<rfloor>" using 2 by simp
    then have "0 \<le> sql_round2 y" using 2 by (simp add: sql_round2_def)
    ultimately show ?thesis by simp
  next
    case 3
    then have "\<lfloor>x * 100 + 1/2\<rfloor> \<le> \<lfloor>y * 100 + 1/2\<rfloor>"
      using le by (intro floor_mono) simp
    with 3 show ?thesis by (simp add: sql_round2_def)
  qed
qed

lemma sql_round2_bounds:
  "of_int lo \<le> a \<Longrightarrow> a \<le> of_int hi \<Longrightarrow> of_int lo \<le> sql_round2 a \<and> sql_round2 a \<le> of_int hi"
  using sql_round2_mono [of "of_int lo" a] sql_round2_mono [of a "of_int hi"] by simp

lemma rounded_avg_bounds:
  assumes "g \<noteq> []" "\<forall>r \<in> set g. \<exists>d. f r = Some d \<and> lo \<le> d \<and> d \<le> hi"
  shows "\<exists>a. map_option sql_round2 (sql_avg (map f g)) = Some a \<and> of_int lo \<le> a \<and> a \<le> of_int hi"
proof -
  have nn: "\<forall>v \<in> set (nonnull (map f g)). lo \<le> v \<and> v \<le> hi"
    using assms(2) by auto
  obtain r where r: "r \<in> set g" using assms(1) by (metis list.set_intros(1) neq_Nil_conv)
  then obtain d where "f r = Some d" using assms(2) by blast
  then have "d \<in> set (nonnull (map f g))" using r by force
  then have "nonnull (map f g) \<noteq> []" by (metis empty_iff list.set(1))
  then obtain b where b: "sql_avg (map f g) = Some b" by (simp add: sql_avg_def)
  show ?thesis
    using sql_avg_bounds [OF b nn] sql_round2_bounds [of lo b hi] b by simp
qed

end
