(* ===== verification/Store.thy ===== *)
theory Store
  imports Prelude
begin
text \<open>
  The four tables of \<^verbatim>\<open>setup_database\<close> (\<^verbatim>\<open>src/scripts/demo_sqlite.py\<close>,
  lines 16--47) and the \<^verbatim>\<open>INSERT\<close> statements that fill them. Each row is a
  record with the table's columns; a nullable column is an option. Every table
  has an \<^verbatim>\<open>INTEGER PRIMARY KEY AUTOINCREMENT\<close> key: SQLite gives a new row one
  more than the largest key the table has ever held, which it records in
  \<^verbatim>\<open>sqlite_sequence\<close> (the \<open>seq_*\<close> fields). The \<^verbatim>\<open>REFERENCES\<close> clauses are
  not enforced (SQLite's \<^verbatim>\<open>foreign_keys\<close> pragma is off by default), so an
  insert never checks them. The lemmas show that the keys are the 1-based
  positions of the rows, as \<^verbatim>\<open>generate_data.py\<close> and the shipment loop assume.
\<close>

record supplier_row =
  supplier_id :: int
  sup_name :: string
  sup_location :: sql_text
  lead_time_days :: sql_int

record product_row =
  product_id :: int
  prod_name :: string
  category :: sql_text

record warehouse_row =
  warehouse_id :: int
  wh_name :: string
  wh_location :: sql_text

record shipment_row =
  shipment_id :: int
  sh_product_id :: sql_int
  sh_supplier_id :: sql_int
  sh_warehouse_id :: sql_int
  quantity :: int
  order_date :: string
  delivery_date :: sql_text

record db =
  suppliers :: "supplier_row list"
  products :: "product_row list"
  warehouses :: "warehouse_row list"
  shipments :: "shipment_row list"
  seq_sup :: int
  seq_prod :: int
  seq_wh :: int
  seq_ship :: int

text \<open>The database right after the \<^verbatim>\<open>DROP TABLE\<close>/\<^verbatim>\<open>CREATE TABLE\<close> statements.\<close>

definition empty_db :: db where
  "empty_db = \<lparr>suppliers = [], products = [], warehouses = [], shipments = [],
     seq_sup = 0, seq_prod = 0, seq_wh = 0, seq_ship = 0\<rparr>"

text \<open>The key AUTOINCREMENT assigns: above the recorded sequence and every key present.\<close>

definition autoinc :: "int \<Rightarrow> int list \<Rightarrow> int" where
  "autoinc seq ids = fold max ids seq + 1"

definition insert_supplier :: "db \<Rightarrow> string \<times> string \<times> int \<Rightarrow> db" where
  "insert_supplier s r =
     (let (n, loc, lt) = r; k = autoinc (seq_sup s) (map supplier_id (suppliers s)) in
      s\<lparr>suppliers := suppliers s @ [\<lparr>supplier_id = k, sup_name = n, sup_location = Some loc,
                                      lead_time_days = Some lt\<rparr>],
        seq_sup := k\<rparr>)"

definition insert_product :: "db \<Rightarrow> string \<times> string \<Rightarrow> db" where
  "insert_product s r =
     (let (n, cat) = r; k = autoinc (seq_prod s) (map product_id (products s)) in
      s\<lparr>products := products s @ [\<lparr>product_id = k, prod_name = n, category = Some cat\<rparr>],
        seq_prod := k\<rparr>)"

definition insert_warehouse :: "db \<Rightarrow> string \<times> string \<Rightarrow> db" where
  "insert_warehouse s r =
     (let (n, loc) = r; k = autoinc (seq_wh s) (map warehouse_id (warehouses s)) in
      s\<lparr>warehouses := warehouses s @ [\<lparr>warehouse_id = k, wh_name = n, wh_location = Some loc\<rparr>],
        seq_wh := k\<rparr>)"

text \<open>The shipment \<^verbatim>\<open>INSERT\<close> of lines 89--92: product, supplier and warehouse
  keys, quantity, order date text and delivery date text.\<close>

type_synonym shipment_values = "int \<times> int \<times> int \<times> int \<times> string \<times> string"

definition insert_shipment :: "db \<Rightarrow> shipment_values \<Rightarrow> db" where
  "insert_shipment s r =
     (let (p, su, w, q, od, dd) = r; k = autoinc (seq_ship s) (map shipment_id (shipments s)) in
      s\<lparr>shipments := shipments s @ [\<lparr>shipment_id = k, sh_product_id = Some p,
          sh_supplier_id = Some su, sh_warehouse_id = Some w, quantity = q, order_date = od,
          delivery_date = Some dd\<rparr>],
        seq_ship := k\<rparr>)"

text \<open>\<^verbatim>\<open>cursor.executemany(sql, rows)\<close>: one insert per row, in order.\<close>

definition executemany :: "(db \<Rightarrow> 'r \<Rightarrow> db) \<Rightarrow> db \<Rightarrow> 'r list \<Rightarrow> db" where
  "executemany ins s rows = fold (\<lambda>r s. ins s r) rows s"

text \<open>The statements the scripts execute against the database, and their effect.
  A database is reachable when some sequence of them, run from the freshly
  created tables, produced it.\<close>

datatype sql_op =
  InsSupplier "string \<times> string \<times> int"
| InsProduct "string \<times> string"
| InsWarehouse "string \<times> string"
| InsShipment shipment_values

fun exec_op :: "db \<Rightarrow> sql_op \<Rightarrow> db" where
  "exec_op s (InsSupplier r) = insert_supplier s r"
| "exec_op s (InsProduct r) = insert_product s r"
| "exec_op s (InsWarehouse r) = insert_warehouse s r"
| "exec_op s (InsShipment r) = insert_shipment s r"

inductive reachable :: "db \<Rightarrow> bool" where
  created: "reachable empty_db"
| exec: "reachable s \<Longrightarrow> reachable (exec_op s op)"

section \<open>Keys are positions\<close>

text \<open>A table whose keys are \<open>1, \<dots>, n\<close> in order, with sequence \<open>n\<close>.\<close>

definition positional :: "int list \<Rightarrow> int \<Rightarrow> bool" where
  "positional ids seq \<longleftrightarrow> ids = map int [1..<Suc (length ids)] \<and> seq = int (length ids)"

definition keys_positional :: "db \<Rightarrow> bool" where
  "keys_positional s \<longleftrightarrow>
     positional (map supplier_id (suppliers s)) (seq_sup s) \<and>
     positional (map product_id (products s)) (seq_prod s) \<and>
     positional (map warehouse_id (warehouses s)) (seq_wh s) \<and>
     positional (map shipment_id (shipments s)) (seq_ship s)"


lemma fold_max_bounded: "\<forall>x \<in> set xs. x \<le> m \<Longrightarrow> fold max xs m = (m::int)"
  by (induction xs) (auto simp: max_def)

lemma fold_max_upto: "fold max (map int [1..<Suc n]) (int n) = int n"
  by (rule fold_max_bounded) auto

lemma autoinc_positional: "positional ids seq \<Longrightarrow> autoinc seq ids = int (length ids) + 1"
  unfolding positional_def autoinc_def
  by (metis fold_max_upto length_map length_upt diff_Suc_1)

lemma positional_snoc:
  "positional ids seq \<Longrightarrow> positional (ids @ [autoinc seq ids]) (autoinc seq ids)"
  by (simp add: autoinc_positional positional_def)

lemma positional_Nil [simp]: "positional [] 0"
  by (simp add: positional_def)

lemma keys_positional_empty [simp]: "keys_positional empty_db"
  by (simp add: keys_positional_def empty_db_def)

lemma keys_positional_insert_supplier:
  "keys_positional s \<Longrightarrow> keys_positional (insert_supplier s r)"
  by (auto simp: keys_positional_def insert_supplier_def positional_snoc Let_def split: prod.splits)

lemma keys_positional_insert_product:
  "keys_positional s \<Longrightarrow> keys_positional (insert_product s r)"
  by (auto simp: keys_positional_def insert_product_def positional_snoc Let_def split: prod.splits)

lemma keys_positional_insert_warehouse:
  "keys_positional s \<Longrightarrow> keys_positional (insert_warehouse s r)"
  by (auto simp: keys_positional_def insert_warehouse_def positional_snoc Let_def split: prod.splits)

lemma keys_positional_insert_shipment:
  "keys_positional s \<Longrightarrow> keys_positional (insert_shipment s r)"
  by (auto simp: keys_positional_def insert_shipment_def positional_snoc Let_def split: prod.splits)

lemmas keys_positional_inserts =
  keys_positional_insert_supplier keys_positional_insert_product
  keys_positional_insert_warehouse keys_positional_insert_shipment

lemma keys_positional_executemany:
  assumes "\<And>s r. keys_positional s \<Longrightarrow> keys_positional (ins s r)"
  shows "keys_positional s \<Longrightarrow> keys_positional (executemany ins s rows)"
  unfolding executemany_def using assms by (induction rows arbitrary: s) auto

lemma keys_positional_exec_op: "keys_positional s \<Longrightarrow> keys_positional (exec_op s op)"
  by (cases op) (simp_all add: keys_positional_inserts)

lemma reachable_executemany:
  assumes "\<And>s r. exec_op s (f r) = ins s r"
  shows "reachable s \<Longrightarrow> reachable (executemany ins s rows)"
  unfolding executemany_def
proof (induction rows arbitrary: s)
  case Nil
  then show ?case by simp
next
  case (Cons r rows)
  then show ?case using reachable.exec [of s "f r"] assms by simp
qed

text \<open>C16. In every database the statements can produce, each table's keys are
  \<open>1, ..., n\<close> in insertion order and the AUTOINCREMENT sequence is \<open>n\<close>: the
  positional ids that \<^verbatim>\<open>generate_data.py\<close> and the shipment loop draw from
  \<^verbatim>\<open>randint(1, len(...))\<close> are exactly the keys of the rows.\<close>

theorem reachable_keys_positional: "reachable s \<Longrightarrow> keys_positional s"
  by (induction rule: reachable.induct) (simp_all add: keys_positional_exec_op)

end
