(* ===== verification/Dates.thy ===== *)
theory Dates
  imports Prelude
begin

text \<open>
  Calendar dates as the program handles them. The Python side
  (\<^verbatim>\<open>datetime.date\<close>, \<^verbatim>\<open>+ timedelta(days=k)\<close>, \<^verbatim>\<open>strftime('%Y-%m-%d')\<close> and
  \<^verbatim>\<open>str(date)\<close>) writes dates into the database as \<^verbatim>\<open>YYYY-MM-DD\<close> text; the
  SQLite side reads that text back with \<^verbatim>\<open>julianday()\<close> (the date parser
  \<^verbatim>\<open>parseYyyyMmDd\<close>/\<^verbatim>\<open>getDigits\<close> and the day-number formula \<^verbatim>\<open>computeJD\<close>
  of SQLite's \<^verbatim>\<open>date.c\<close>). The theory proves that the two calendars agree:
  the Julian day SQLite computes is the Python ordinal shifted by a constant, so
  \<^verbatim>\<open>julianday(b) - julianday(a)\<close> is the whole number of days between the dates.
\<close>

section \<open>Python dates\<close>

record date =
  year :: int
  month :: int
  day :: int

definition is_leap :: "int \<Rightarrow> bool" where
  "is_leap y \<longleftrightarrow> y mod 4 = 0 \<and> (y mod 100 \<noteq> 0 \<or> y mod 400 = 0)"

definition days_in_month_tbl :: "int list" where
  "days_in_month_tbl = [-1, 31, 28, 31, 30, 31, 30, 31, 31, 30, 31, 30, 31]"

definition days_before_month_tbl :: "int list" where
  "days_before_month_tbl = [-1, 0, 31, 59, 90, 120, 151, 181, 212, 243, 273, 304, 334]"

definition days_in_month :: "int \<Rightarrow> int \<Rightarrow> int" where
  "days_in_month y m = (if m = 2 \<and> is_leap y then 29 else days_in_month_tbl ! nat m)"

definition days_before_year :: "int \<Rightarrow> int" where
  "days_before_year y = (let y' = y - 1 in y' * 365 + y' div 4 - y' div 100 + y' div 400)"

definition days_before_month :: "int \<Rightarrow> int \<Rightarrow> int" where
  "days_before_month y m =
     days_before_month_tbl ! nat m + (if 2 < m \<and> is_leap y then 1 else 0)"

text \<open>\<^verbatim>\<open>date.toordinal()\<close>: 0001-01-01 is day 1.\<close>

definition toordinal :: "date \<Rightarrow> int" where
  "toordinal d = days_before_year (year d) + days_before_month (year d) (month d) + day d"

text \<open>A well-formed \<^verbatim>\<open>date\<close> (the checks of the constructor), with and without
  the bound \<^verbatim>\<open>MAXYEAR = 9999\<close>.\<close>

definition valid_ymd :: "date \<Rightarrow> bool" where
  "valid_ymd d \<longleftrightarrow> 1 \<le> year d \<and> 1 \<le> month d \<and> month d \<le> 12 \<and>
     1 \<le> day d \<and> day d \<le> days_in_month (year d) (month d)"

definition valid_date :: "date \<Rightarrow> bool" where
  "valid_date d \<longleftrightarrow> valid_ymd d \<and> year d \<le> 9999"

text \<open>\<^verbatim>\<open>d + timedelta(days=k)\<close> for \<open>k \<ge> 0\<close>: the date \<open>k\<close> days later,
  computed one day at a time; past year 9999 Python raises \<^verbatim>\<open>OverflowError\<close>.\<close>

definition next_day :: "date \<Rightarrow> date" where
  "next_day d =
     (if day d < days_in_month (year d) (month d) then d\<lparr>day := day d + 1\<rparr>
      else if month d < 12 then d\<lparr>month := month d + 1, day := 1\<rparr>
      else \<lparr>year = year d + 1, month = 1, day = 1\<rparr>)"

primrec add_days :: "date \<Rightarrow> nat \<Rightarrow> date" where
  "add_days d 0 = d"
| "add_days d (Suc k) = add_days (next_day d) k"

datatype date_error = OverflowError

definition add_timedelta :: "date \<Rightarrow> nat \<Rightarrow> date_error + date" where
  "add_timedelta d k = (let d' = add_days d k in if year d' \<le> 9999 then Inr d' else Inl OverflowError)"

section \<open>Date text\<close>

text \<open>\<^verbatim>\<open>'%04d-%02d-%02d'\<close>: fixed-width zero-padded decimal fields.\<close>

definition digit_char :: "nat \<Rightarrow> char" where
  "digit_char k = char_of (48 + k)"

fun digits_fixed :: "nat \<Rightarrow> nat \<Rightarrow> string" where
  "digits_fixed 0 n = []"
| "digits_fixed (Suc w) n = digits_fixed w (n div 10) @ [digit_char (n mod 10)]"

definition iso_date :: "date \<Rightarrow> string" where
  "iso_date d = digits_fixed 4 (nat (year d)) @ ''-'' @ digits_fixed 2 (nat (month d)) @ ''-''
     @ digits_fixed 2 (nat (day d))"

section \<open>SQLite's date parser\<close>

definition is_digit :: "char \<Rightarrow> bool" where
  "is_digit c \<longleftrightarrow> CHR ''0'' \<le> c \<and> c \<le> CHR ''9''"

definition digit_val :: "char \<Rightarrow> int" where
  "digit_val c = int (of_char c) - 48"

definition digits_value :: "string \<Rightarrow> int" where
  "digits_value cs = foldl (\<lambda>v c. v * 10 + digit_val c) 0 cs"

text \<open>One field of \<^verbatim>\<open>getDigits\<close>: exactly \<open>n\<close> digits, a value in
  \<open>[lo, hi]\<close>, then the separator \<open>sep\<close> (none for the last field).\<close>

definition get_digits :: "nat \<Rightarrow> int \<Rightarrow> int \<Rightarrow> char option \<Rightarrow> string \<Rightarrow> (int \<times> string) option" where
  "get_digits n lo hi sep s =
     (let ds = take n s; rest = drop n s; v = digits_value ds in
      if length ds = n \<and> list_all is_digit ds \<and> lo \<le> v \<and> v \<le> hi then
        (case sep of
           None \<Rightarrow> Some (v, rest)
         | Some c \<Rightarrow> (case rest of c' # rest' \<Rightarrow> if c' = c then Some (v, rest') else None | [] \<Rightarrow> None))
      else None)"

definition is_space :: "char \<Rightarrow> bool" where
  "is_space c \<longleftrightarrow> c \<in> {CHR '' '', CHR 0x09, CHR 0x0A, CHR 0x0B, CHR 0x0C, CHR 0x0D}"

text \<open>\<^verbatim>\<open>parseYyyyMmDd\<close>: an optional sign, \<^verbatim>\<open>YYYY-MM-DD\<close>, then blanks or
  \<^verbatim>\<open>T\<close>. A time of day after the date is outside this model (the program
  never stores one) and gives \<open>None\<close> here.\<close>

definition parse_yyyy_mm_dd :: "string \<Rightarrow> (int \<times> int \<times> int) option" where
  "parse_yyyy_mm_dd s =
     (let (neg, t) = (case s of c # r \<Rightarrow> if c = CHR ''-'' then (True, r) else (False, s)
                              | [] \<Rightarrow> (False, s)) in
      case get_digits 4 0 9999 (Some CHR ''-'') t of None \<Rightarrow> None | Some (y, t1) \<Rightarrow>
      case get_digits 2 1 12 (Some CHR ''-'') t1 of None \<Rightarrow> None | Some (m, t2) \<Rightarrow>
      case get_digits 2 1 31 None t2 of None \<Rightarrow> None | Some (d, t3) \<Rightarrow>
        if list_all (\<lambda>c. is_space c \<or> c = CHR ''T'') t3
        then Some (if neg then - y else y, m, d) else None)"

text \<open>\<^verbatim>\<open>computeJD\<close>: the Julian day number (plus one half) of a year, month and
  day, with C's truncating division; years outside \<^verbatim>\<open>[-4713, 9999]\<close> are an error.\<close>

definition compute_jdn :: "int \<Rightarrow> int \<Rightarrow> int \<Rightarrow> int option" where
  "compute_jdn y0 m0 d =
     (if y0 < -4713 \<or> 9999 < y0 then None
      else
        let (y, m) = (if m0 \<le> 2 then (y0 - 1, m0 + 12) else (y0, m0));
            a = c_div (y + 4800) 100;
            b = 38 - a + c_div a 4;
            x1 = c_div (36525 * (y + 4716)) 100;
            x2 = c_div (306001 * (m + 1)) 10000
        in Some (x1 + x2 + d + b))"

text \<open>\<^verbatim>\<open>julianday(text)\<close>: NULL for NULL or unparsable text.\<close>

definition julianday :: "sql_text \<Rightarrow> rat option" where
  "julianday t =
     (case t of None \<Rightarrow> None
      | Some s \<Rightarrow> (case parse_yyyy_mm_dd s of None \<Rightarrow> None
          | Some (y, m, d) \<Rightarrow> map_option (\<lambda>n. of_int n - 3049 / 2) (compute_jdn y m d)))"

section \<open>Calendar arithmetic\<close>

lemma div_pred_step:
  assumes n: "0 < n"
  shows "(x::int) div n - (x - 1) div n = (if x mod n = 0 then 1 else 0)"
proof -
  define r where "r = (x - 1) mod n"
  have e: "x = (x - 1) + 1" by simp
  have d: "x div n = (x - 1) div n + 1 div n + (r + 1 mod n) div n"
    unfolding r_def by (subst e, rule div_add1_eq)
  have m: "x mod n = (r + 1 mod n) mod n"
    unfolding r_def by (subst e, rule mod_add_eq [symmetric])
  have r: "0 \<le> r" "r < n" using n by (simp_all add: r_def)
  show ?thesis
  proof (cases "n = 1")
    case True
    then show ?thesis by simp
  next
    case False
    with n have n1: "1 div n = 0" "1 mod n = 1" by simp_all
    show ?thesis
    proof (cases "r + 1 = n")
      case True
      then show ?thesis using d m n1 n by simp
    next
      case False
      with r have "r + 1 < n" by simp
      then have "(r + 1) div n = 0" "(r + 1) mod n = r + 1"
        using r by simp_all
      then show ?thesis using d m n1 r by simp
    qed
  qed
qed

lemma mod_0_dvd_step: "(y::int) mod (c * k) = 0 \<Longrightarrow> y mod c = 0"
  by (auto simp: mod_eq_0_iff_dvd intro: dvd_mult_left)

lemma leap_indicator:
  "(if y mod 4 = 0 then 1 else 0) - (if y mod 100 = 0 then 1 else 0)
      + (if y mod 400 = 0 then 1 else 0) = (if is_leap y then 1 else (0::int))"
proof -
  have a: "y mod 400 = 0 \<Longrightarrow> y mod 100 = 0"
    using mod_0_dvd_step [of y 100 4] by simp
  have b: "y mod 100 = 0 \<Longrightarrow> y mod 4 = 0"
    using mod_0_dvd_step [of y 4 25] by simp
  show ?thesis
    using a b
    by (cases "y mod 4 = 0"; cases "y mod 100 = 0"; cases "y mod 400 = 0") (simp_all add: is_leap_def)
qed

lemma days_before_year_succ:
  "days_before_year (y + 1) = days_before_year y + 365 + (if is_leap y then 1 else 0)"
proof -
  have "days_before_year (y + 1) - days_before_year y =
      365 + (y div 4 - (y - 1) div 4) - (y div 100 - (y - 1) div 100) + (y div 400 - (y - 1) div 400)"
    by (simp add: days_before_year_def Let_def algebra_simps)
  also have "\<dots> = 365 + ((if y mod 4 = 0 then 1 else 0) - (if y mod 100 = 0 then 1 else 0)
      + (if y mod 400 = 0 then 1 else 0))"
    by (simp only: div_pred_step [of 4] div_pred_step [of 100] div_pred_step [of 400] zero_less_numeral)
  also have "\<dots> = 365 + (if is_leap y then 1 else 0)"
    by (simp only: leap_indicator)
  finally show ?thesis by simp
qed

lemma month_cases:
  "1 \<le> m \<Longrightarrow> m \<le> 12 \<Longrightarrow>
     (m::int) = 1 \<or> m = 2 \<or> m = 3 \<or> m = 4 \<or> m = 5 \<or> m = 6 \<or> m = 7 \<or> m = 8 \<or> m = 9 \<or>
     m = 10 \<or> m = 11 \<or> m = 12"
  by arith

lemma days_before_month_succ:
  "1 \<le> m \<Longrightarrow> m < 12 \<Longrightarrow> days_before_month y (m + 1) = days_before_month y m + days_in_month y m"
  using month_cases [of m]
  by (auto simp: days_before_month_def days_in_month_def days_before_month_tbl_def
      days_in_month_tbl_def)

lemma days_before_month_dec:
  "days_before_month y 12 + days_in_month y 12 = 365 + (if is_leap y then 1 else 0)"
  by (simp add: days_before_month_def days_in_month_def days_before_month_tbl_def
      days_in_month_tbl_def)

lemma days_in_month_pos: "1 \<le> m \<Longrightarrow> m \<le> 12 \<Longrightarrow> 28 \<le> days_in_month y m"
  using month_cases [of m] by (auto simp: days_in_month_def days_in_month_tbl_def)

lemma days_in_month_le: "1 \<le> m \<Longrightarrow> m \<le> 12 \<Longrightarrow> days_in_month y m \<le> 31"
  using month_cases [of m] by (auto simp: days_in_month_def days_in_month_tbl_def)

lemma valid_next_day: "valid_ymd d \<Longrightarrow> valid_ymd (next_day d)"
  using days_in_month_pos [of 1 "year d + 1"] days_in_month_pos [of "month d + 1" "year d"]
  by (auto simp: valid_ymd_def next_day_def)

lemma toordinal_next_day: "valid_ymd d \<Longrightarrow> toordinal (next_day d) = toordinal d + 1"
proof -
  assume v: "valid_ymd d"
  show ?thesis
  proof (cases "day d < days_in_month (year d) (month d)")
    case True
    then show ?thesis by (simp add: next_day_def toordinal_def)
  next
    case not_last: False
    with v have last: "day d = days_in_month (year d) (month d)"
      by (simp add: valid_ymd_def)
    show ?thesis
    proof (cases "month d < 12")
      case True
      with v have "days_before_month (year d) (month d + 1) =
          days_before_month (year d) (month d) + days_in_month (year d) (month d)"
        by (simp add: valid_ymd_def days_before_month_succ)
      with True not_last last show ?thesis
        by (simp add: next_day_def toordinal_def)
    next
      case False
      with v have m12: "month d = 12" by (simp add: valid_ymd_def)
      have "toordinal (next_day d) = days_before_year (year d + 1) + 1"
        using False not_last
        by (simp add: next_day_def toordinal_def days_before_month_def days_before_month_tbl_def)
      moreover have "toordinal d =
          days_before_year (year d) + (days_before_month (year d) 12 + days_in_month (year d) 12)"
        by (simp add: toordinal_def last m12)
      ultimately show ?thesis
        by (simp only: days_before_month_dec days_before_year_succ)
    qed
  qed
qed

lemma year_next_day: "year d \<le> year (next_day d) \<and> year (next_day d) \<le> year d + 1"
  by (simp add: next_day_def)

lemma valid_add_days: "valid_ymd d \<Longrightarrow> valid_ymd (add_days d k)"
  by (induction k arbitrary: d) (simp_all add: valid_next_day)

lemma add_days_add: "add_days (add_days d k) m = add_days d (k + m)"
  by (induction k arbitrary: d) simp_all

lemma toordinal_add_days: "valid_ymd d \<Longrightarrow> toordinal (add_days d k) = toordinal d + int k"
  by (induction k arbitrary: d) (simp_all add: valid_next_day toordinal_next_day)

lemma year_add_days: "year d \<le> year (add_days d k) \<and> year (add_days d k) \<le> year d + int k"
proof (induction k arbitrary: d)
  case 0
  then show ?case by simp
next
  case (Suc k)
  have e: "add_days d (Suc k) = add_days (next_day d) k" "int (Suc k) = int k + 1"
    by simp_all
  show ?case
    unfolding e using Suc.IH [of "next_day d"] year_next_day [of d] by linarith
qed

section \<open>SQLite agrees with Python\<close>

lemma x1_div: "0 \<le> n \<Longrightarrow> c_div (36525 * n) 100 = 365 * n + n div (4::int)"
proof -
  assume n: "0 \<le> n"
  have "36525 * n = 25 * (n + 4 * (365 * n))" by simp
  then have "36525 * n div 100 = (25 * (n + 4 * (365 * n))) div (25 * 4)" by simp
  also have "\<dots> = (n + 4 * (365 * n)) div 4" by (rule div_mult_mult1) simp
  also have "\<dots> = 365 * n + n div 4" by simp
  finally show ?thesis using n by simp
qed

lemma century_div: "0 \<le> y \<Longrightarrow> c_div (y + 4800) 100 = y div 100 + (48::int)"
  by simp

lemma century_b: "0 \<le> y \<Longrightarrow> c_div (y div 100 + 48) 4 = y div 400 + (12::int)"
  by (simp add: zdiv_zmult2_eq [symmetric])

lemma x2_table:
  "1 \<le> m \<Longrightarrow> m \<le> 12 \<Longrightarrow>
   c_div (306001 * ((if m \<le> 2 then m + 12 else m) + 1)) 10000 =
     days_before_month_tbl ! nat m + (if m \<le> 2 then 428 else 63)"
  using month_cases [of m] by (auto simp: days_before_month_tbl_def)

lemma toordinal_late:
  "2 < month d \<Longrightarrow> toordinal d =
     year d * 365 + year d div 4 - year d div 100 + year d div 400 - 365
     + days_before_month_tbl ! nat (month d) + day d"
  using days_before_year_succ [of "year d"]
  by (simp add: toordinal_def days_before_month_def days_before_year_def Let_def algebra_simps)

lemma toordinal_early:
  "month d \<le> 2 \<Longrightarrow> toordinal d =
     (year d - 1) * 365 + (year d - 1) div 4 - (year d - 1) div 100 + (year d - 1) div 400
     + days_before_month_tbl ! nat (month d) + day d"
  by (simp add: toordinal_def days_before_month_def days_before_year_def Let_def)

lemma compute_jdn_shifted:
  assumes "-4713 \<le> y0" "y0 \<le> 9999"
    and "y = (if m0 \<le> 2 then y0 - 1 else y0)" "m = (if m0 \<le> 2 then m0 + 12 else m0)"
  shows "compute_jdn y0 m0 d =
    Some (c_div (36525 * (y + 4716)) 100 + c_div (306001 * (m + 1)) 10000 + d
      + (38 - c_div (y + 4800) 100 + c_div (c_div (y + 4800) 100) 4))"
  using assms by (simp add: compute_jdn_def Let_def)

lemma compute_jdn_toordinal:
  assumes "1 \<le> year d" "year d \<le> 9999" "1 \<le> month d" "month d \<le> 12"
  shows "compute_jdn (year d) (month d) (day d) = Some (toordinal d + 1722949)"
proof -
  let ?m = "month d"
  define y where "y = (if ?m \<le> 2 then year d - 1 else year d)"
  have y: "0 \<le> y" using assms by (simp add: y_def)
  have a: "c_div (y + 4800) 100 = y div 100 + 48" using y by (rule century_div)
  have b: "c_div (y div 100 + 48) 4 = y div 400 + 12" using y by (rule century_b)
  have x1: "c_div (36525 * (y + 4716)) 100 = 365 * (y + 4716) + (y div 4 + 1179)"
    using x1_div [of "y + 4716"] y by simp
  have x2: "c_div (306001 * ((if ?m \<le> 2 then ?m + 12 else ?m) + 1)) 10000 =
      days_before_month_tbl ! nat ?m + (if ?m \<le> 2 then 428 else 63)"
    using assms by (intro x2_table)
  have "compute_jdn (year d) ?m (day d) =
      Some (365 * (y + 4716) + (y div 4 + 1179)
        + (days_before_month_tbl ! nat ?m + (if ?m \<le> 2 then 428 else 63)) + day d
        + (38 - (y div 100 + 48) + (y div 400 + 12)))"
    using assms by (simp only: compute_jdn_shifted [OF _ _ y_def refl] a b x1 x2)
  also have "\<dots> = Some (toordinal d + 1722949)"
  proof (cases "?m \<le> 2")
    case True
    then show ?thesis using toordinal_early [of d] by (simp add: y_def)
  next
    case False
    then show ?thesis using toordinal_late [of d] by (simp add: y_def)
  qed
  finally show ?thesis .
qed

lemma length_digits_fixed [simp]: "length (digits_fixed w n) = w"
  by (induction w arbitrary: n) auto

lemma is_digit_digit_char: "k < 10 \<Longrightarrow> is_digit (digit_char k)"
  by (simp add: is_digit_def digit_char_def less_eq_char_def of_char_of)

lemma digit_val_digit_char: "k < 10 \<Longrightarrow> digit_val (digit_char k) = int k"
  by (simp add: digit_val_def digit_char_def of_char_of)

lemma digits_fixed_digits: "list_all is_digit (digits_fixed w n)"
  by (induction w arbitrary: n) (auto simp: is_digit_digit_char)

lemma digits_value_append: "digits_value (xs @ [c]) = digits_value xs * 10 + digit_val c"
  by (simp add: digits_value_def)

lemma digits_value_fixed: "digits_value (digits_fixed w n) = int (n mod 10 ^ w)"
proof (induction w arbitrary: n)
  case 0
  then show ?case by (simp add: digits_value_def)
next
  case (Suc w)
  have "n mod 10 ^ Suc w = 10 * (n div 10 mod 10 ^ w) + n mod 10"
    by (simp add: mod_mult2_eq)
  then show ?case
    by (simp add: digits_value_append Suc.IH digit_val_digit_char)
qed


lemma get_digits_fixed_sep:
  assumes "lo \<le> int n" "int n \<le> hi" "n < 10 ^ w"
  shows "get_digits w lo hi (Some c) (digits_fixed w n @ c # rest) = Some (int n, rest)"
  using assms by (simp add: get_digits_def digits_value_fixed digits_fixed_digits)

lemma get_digits_fixed_last:
  assumes "lo \<le> int n" "int n \<le> hi" "n < 10 ^ w"
  shows "get_digits w lo hi None (digits_fixed w n @ rest) = Some (int n, rest)"
  using assms by (simp add: get_digits_def digits_value_fixed digits_fixed_digits)


lemma digits_fixed_hd:
  "digits_fixed w n = c # cs \<Longrightarrow> is_digit c"
  using digits_fixed_digits [of w n] by simp

lemma is_digit_not_minus: "is_digit c \<Longrightarrow> c \<noteq> CHR ''-''"
  by (auto simp: is_digit_def)

lemma iso_first:
  "\<exists>c cs. digits_fixed 4 n = c # cs \<and> c \<noteq> CHR ''-''"
proof -
  obtain c cs where c: "digits_fixed 4 n = c # cs"
    using length_digits_fixed [of 4 n] by (cases "digits_fixed 4 n") auto
  then have "c \<noteq> CHR ''-''"
    by (intro is_digit_not_minus digits_fixed_hd)
  with c show ?thesis by blast
qed
lemma parse_iso_date:
  assumes "valid_date d"
  shows "parse_yyyy_mm_dd (iso_date d) = Some (year d, month d, day d)"
proof -
  have v: "1 \<le> year d" "year d \<le> 9999" "1 \<le> month d" "month d \<le> 12" "1 \<le> day d" "day d \<le> 31"
    using assms days_in_month_le [of "month d" "year d"] by (auto simp: valid_date_def valid_ymd_def)
  obtain c cs where c: "digits_fixed 4 (nat (year d)) = c # cs" and nc: "c \<noteq> CHR ''-''"
    using iso_first by blast
  have neg: "(case iso_date d of c # r \<Rightarrow> if c = CHR ''-'' then (True, r) else (False, iso_date d)
      | [] \<Rightarrow> (False, iso_date d)) = (False, iso_date d)"
    unfolding iso_date_def c using nc by simp
  have y: "get_digits 4 0 9999 (Some CHR ''-'') (iso_date d) =
      Some (year d, digits_fixed 2 (nat (month d)) @ CHR ''-'' # digits_fixed 2 (nat (day d)))"
  proof -
    have "get_digits 4 0 9999 (Some CHR ''-'') (digits_fixed 4 (nat (year d)) @ CHR ''-'' #
        (digits_fixed 2 (nat (month d)) @ CHR ''-'' # digits_fixed 2 (nat (day d)))) =
      Some (int (nat (year d)), digits_fixed 2 (nat (month d)) @ CHR ''-'' # digits_fixed 2 (nat (day d)))"
      by (rule get_digits_fixed_sep) (use v in simp_all)
    then show ?thesis using v by (simp add: iso_date_def)
  qed
  have m: "get_digits 2 1 12 (Some CHR ''-'') (digits_fixed 2 (nat (month d)) @ CHR ''-'' # digits_fixed 2 (nat (day d)))
      = Some (month d, digits_fixed 2 (nat (day d)))"
  proof -
    have "get_digits 2 1 12 (Some CHR ''-'') (digits_fixed 2 (nat (month d)) @ CHR ''-'' # digits_fixed 2 (nat (day d)))
      = Some (int (nat (month d)), digits_fixed 2 (nat (day d)))"
      by (rule get_digits_fixed_sep) (use v in simp_all)
    then show ?thesis using v by simp
  qed
  have dd: "get_digits 2 1 31 None (digits_fixed 2 (nat (day d))) = Some (day d, [])"
  proof -
    have "get_digits 2 1 31 None (digits_fixed 2 (nat (day d)) @ []) = Some (int (nat (day d)), [])"
      by (rule get_digits_fixed_last) (use v in simp_all)
    then show ?thesis using v by simp
  qed
  show ?thesis
    unfolding parse_yyyy_mm_dd_def neg by (simp add: y m dd)
qed

text \<open>SQLite's Julian day of a date written by Python is the Python ordinal
  shifted by 1721424.5.\<close>

lemma julianday_iso_date:
  assumes "valid_date d"
  shows "julianday (Some (iso_date d)) = Some (of_int (toordinal d) + 3442849 / 2)"
proof -
  have "1 \<le> year d" "year d \<le> 9999" "1 \<le> month d" "month d \<le> 12"
    using assms by (auto simp: valid_date_def valid_ymd_def)
  then have "compute_jdn (year d) (month d) (day d) = Some (toordinal d + 1722949)"
    by (rule compute_jdn_toordinal)
  then show ?thesis
    using assms by (simp add: julianday_def parse_iso_date)
qed

text \<open>C15. Differences of \<^verbatim>\<open>julianday\<close> agree with Python: for two dates
  written by \<^verbatim>\<open>strftime('%Y-%m-%d')\<close>, SQLite's difference of Julian days is
  exactly the difference of the Python ordinals, the number of days between them.\<close>

theorem julianday_diff:
  assumes "valid_date a" "valid_date b"
  shows "the (julianday (Some (iso_date b))) - the (julianday (Some (iso_date a))) =
    of_int (toordinal b - toordinal a)"
  using assms by (simp add: julianday_iso_date)

section \<open>Every date text the parser accepts is Python's\<close>

lemma digit_char_val: "is_digit c \<Longrightarrow> digit_char (nat (digit_val c)) = c"
proof -
  assume "is_digit c"
  then have "48 \<le> (of_char c :: nat)" by (simp add: is_digit_def less_eq_char_def)
  then have "48 + nat (int (of_char c) - 48) = (of_char c :: nat)" by linarith
  then show ?thesis by (simp add: digit_val_def digit_char_def)
qed

lemma digit_val_range: "is_digit c \<Longrightarrow> 0 \<le> digit_val c \<and> digit_val c < 10"
  by (auto simp: is_digit_def digit_val_def less_eq_char_def)

lemma digits_value_nonneg: "list_all is_digit ds \<Longrightarrow> 0 \<le> digits_value ds"
proof (induction ds rule: rev_induct)
  case Nil
  then show ?case by (simp add: digits_value_def)
next
  case (snoc c ds)
  then show ?case using digit_val_range [of c] by (simp add: digits_value_append)
qed

lemma digits_fixed_value:
  "list_all is_digit ds \<Longrightarrow> digits_fixed (length ds) (nat (digits_value ds)) = ds"
proof (induction ds rule: rev_induct)
  case Nil
  then show ?case by simp
next
  case (snoc c ds)
  let ?v = "digits_value ds"
  have c: "is_digit c" and ds: "list_all is_digit ds" using snoc.prems by simp_all
  have r: "0 \<le> digit_val c" "digit_val c < 10" using digit_val_range [OF c] by simp_all
  have v: "0 \<le> ?v" using digits_value_nonneg [OF ds] .
  have n: "nat (digits_value (ds @ [c])) = nat ?v * 10 + nat (digit_val c)"
    using r v by (simp add: digits_value_append nat_add_distrib nat_mult_distrib)
  have "(nat ?v * 10 + nat (digit_val c)) div 10 = nat ?v"
    "(nat ?v * 10 + nat (digit_val c)) mod 10 = nat (digit_val c)"
    using r by simp_all
  then show ?case
    using snoc.IH [OF ds] digit_char_val [OF c] by (simp add: n)
qed

lemma get_digits_Some:
  assumes "get_digits n lo hi sep s = Some (v, rest)"
  shows "length (take n s) = n \<and> list_all is_digit (take n s) \<and> v = digits_value (take n s) \<and>
    s = take n s @ (case sep of None \<Rightarrow> [] | Some c \<Rightarrow> [c]) @ rest"
proof (cases sep)
  case None
  then show ?thesis using assms by (auto simp: get_digits_def Let_def split: if_splits)
next
  case (Some c)
  then show ?thesis
    using assms
    by (auto simp: get_digits_def Let_def split: if_splits list.splits) (metis append_take_drop_id)
qed

end
