(* ===== verification/Delays.thy ===== *)
theory Delays
  imports Store Dates
begin

text \<open>
  The common table expression \<^verbatim>\<open>Shipment_Delays\<close> of \<^verbatim>\<open>run_analysis\<close>
  (\<^verbatim>\<open>src/scripts/demo_sqlite.py\<close>, lines 106--123): every shipment joined with
  its product, supplier and warehouse by inner joins on the keys, with
  \<^verbatim>\<open>actual_lead_time = CAST(julianday(delivery) - julianday(order) AS INTEGER)\<close> and
  \<^verbatim>\<open>delay_days = CAST((julianday(delivery) - julianday(order)) - lead_time_days AS INTEGER)\<close>.
  Arithmetic on a NULL operand is NULL. The lemmas show which shipments produce a
  row (those whose three keys resolve: a dangling key silently drops the shipment),
  and that for dates written by Python the delay is exactly the number of days
  between the dates minus the supplier's lead time.
\<close>

record delay_row =
  dr_shipment_id :: int
  product_name :: string
  supplier_name :: string
  warehouse_name :: string
  dr_order_date :: string
  dr_delivery_date :: sql_text
  promised_lead_time :: sql_int
  actual_lead_time :: sql_int
  delay_days :: sql_int

text \<open>Real subtraction with NULL propagation.\<close>

definition sql_sub :: "rat option \<Rightarrow> rat option \<Rightarrow> rat option" where
  "sql_sub a b = (case (a, b) of (Some x, Some y) \<Rightarrow> Some (x - y) | _ \<Rightarrow> None)"

definition sql_cast :: "rat option \<Rightarrow> sql_int" where
  "sql_cast a = map_option sql_cast_int a"

text \<open>The select list of the CTE for one joined tuple.\<close>

definition mk_delay_row ::
  "shipment_row \<Rightarrow> product_row \<Rightarrow> supplier_row \<Rightarrow> warehouse_row \<Rightarrow> delay_row" where
  "mk_delay_row s p u w =
     (let elapsed = sql_sub (julianday (delivery_date s)) (julianday (Some (order_date s))) in
      \<lparr>dr_shipment_id = shipment_id s,
       product_name = prod_name p,
       supplier_name = sup_name u,
       warehouse_name = wh_name w,
       dr_order_date = order_date s,
       dr_delivery_date = delivery_date s,
       promised_lead_time = lead_time_days u,
       actual_lead_time = sql_cast elapsed,
       delay_days = sql_cast (sql_sub elapsed (map_option of_int (lead_time_days u)))\<rparr>)"

text \<open>\<^verbatim>\<open>FROM Shipments s JOIN Products p ON ... JOIN Suppliers sup ON ... JOIN
  Warehouses w ON ...\<close>: a nested loop with the shipments outermost. A NULL key
  equals nothing.\<close>

definition join_shipment :: "db \<Rightarrow> shipment_row \<Rightarrow> delay_row list" where
  "join_shipment s sh =
     concat (map (\<lambda>p.
       concat (map (\<lambda>u.
         map (\<lambda>w. mk_delay_row sh p u w)
           (filter (\<lambda>w. sh_warehouse_id sh = Some (warehouse_id w)) (warehouses s)))
         (filter (\<lambda>u. sh_supplier_id sh = Some (supplier_id u)) (suppliers s))))
       (filter (\<lambda>p. sh_product_id sh = Some (product_id p)) (products s)))"

definition shipment_delays :: "db \<Rightarrow> delay_row list" where
  "shipment_delays s = concat (map (join_shipment s) (shipments s))"

section \<open>Which shipments produce a row\<close>

text \<open>Primary-key lookups, and the referential invariant the spec asks for.\<close>

definition key_unique :: "('a \<Rightarrow> int) \<Rightarrow> 'a list \<Rightarrow> bool" where
  "key_unique f xs \<longleftrightarrow> distinct (map f xs)"

definition resolves :: "('a \<Rightarrow> int) \<Rightarrow> 'a list \<Rightarrow> sql_int \<Rightarrow> bool" where
  "resolves f xs k \<longleftrightarrow> (\<exists>x \<in> set xs. k = Some (f x))"

definition refs_ok :: "db \<Rightarrow> shipment_row \<Rightarrow> bool" where
  "refs_ok s sh \<longleftrightarrow> resolves product_id (products s) (sh_product_id sh) \<and>
     resolves supplier_id (suppliers s) (sh_supplier_id sh) \<and>
     resolves warehouse_id (warehouses s) (sh_warehouse_id sh)"

definition keys_unique :: "db \<Rightarrow> bool" where
  "keys_unique s \<longleftrightarrow> key_unique product_id (products s) \<and>
     key_unique supplier_id (suppliers s) \<and> key_unique warehouse_id (warehouses s)"

lemma filter_key_unique:
  "key_unique f xs \<Longrightarrow> x \<in> set xs \<Longrightarrow> filter (\<lambda>y. Some (f x) = Some (f y)) xs = [x]"
  unfolding key_unique_def
proof (induction xs)
  case Nil
  then show ?case by simp
next
  case (Cons y ys)
  then show ?case by (auto simp: filter_empty_conv image_iff)
qed

lemma filter_unresolved:
  "\<not> resolves f xs k \<Longrightarrow> filter (\<lambda>y. k = Some (f y)) xs = []"
  by (auto simp: resolves_def filter_empty_conv)

lemma resolves_obtain:
  assumes "resolves f xs k" "key_unique f xs"
  obtains x where "x \<in> set xs" "k = Some (f x)" "filter (\<lambda>y. k = Some (f y)) xs = [x]"
  using assms filter_key_unique [of f xs] by (auto simp: resolves_def)

text \<open>A shipment whose keys resolve yields exactly one row, built from the rows it refers to.\<close>

lemma join_shipment_resolved:
  assumes "keys_unique s" "refs_ok s sh"
  shows "\<exists>p u w. p \<in> set (products s) \<and> u \<in> set (suppliers s) \<and> w \<in> set (warehouses s) \<and>
    sh_product_id sh = Some (product_id p) \<and> sh_supplier_id sh = Some (supplier_id u) \<and>
    sh_warehouse_id sh = Some (warehouse_id w) \<and> join_shipment s sh = [mk_delay_row sh p u w]"
proof -
  from assms obtain p where p: "p \<in> set (products s)" "sh_product_id sh = Some (product_id p)"
      "filter (\<lambda>y. sh_product_id sh = Some (product_id y)) (products s) = [p]"
    by (auto simp: keys_unique_def refs_ok_def elim: resolves_obtain)
  from assms obtain u where u: "u \<in> set (suppliers s)" "sh_supplier_id sh = Some (supplier_id u)"
      "filter (\<lambda>y. sh_supplier_id sh = Some (supplier_id y)) (suppliers s) = [u]"
    by (auto simp: keys_unique_def refs_ok_def elim: resolves_obtain)
  from assms obtain w where w: "w \<in> set (warehouses s)" "sh_warehouse_id sh = Some (warehouse_id w)"
      "filter (\<lambda>y. sh_warehouse_id sh = Some (warehouse_id y)) (warehouses s) = [w]"
    by (auto simp: keys_unique_def refs_ok_def elim: resolves_obtain)
  from p u w show ?thesis by (auto simp: join_shipment_def)
qed

text \<open>A shipment with a key that resolves to no row produces no row at all.\<close>

lemma join_shipment_dangling:
  assumes "\<not> refs_ok s sh"
  shows "join_shipment s sh = []"
proof -
  consider "\<not> resolves product_id (products s) (sh_product_id sh)"
    | "\<not> resolves supplier_id (suppliers s) (sh_supplier_id sh)"
    | "\<not> resolves warehouse_id (warehouses s) (sh_warehouse_id sh)"
    using assms by (auto simp: refs_ok_def)
  then show ?thesis
    by cases (simp_all add: join_shipment_def filter_unresolved)
qed

lemma length_join_shipment:
  "keys_unique s \<Longrightarrow> length (join_shipment s sh) = (if refs_ok s sh then 1 else 0)"
  using join_shipment_resolved [of s sh] join_shipment_dangling [of s sh] by auto

lemma length_concat_join:
  "keys_unique s \<Longrightarrow> length (concat (map (join_shipment s) xs)) = length (filter (refs_ok s) xs)"
  by (induction xs) (simp_all add: length_join_shipment)

lemma length_shipment_delays:
  "keys_unique s \<Longrightarrow> length (shipment_delays s) = length (filter (refs_ok s) (shipments s))"
  by (simp add: shipment_delays_def length_concat_join)


section \<open>The delay of a shipment\<close>

lemma mk_delay_row_dates:
  assumes "valid_date od" "valid_date dd"
    and "order_date sh = iso_date od" "delivery_date sh = Some (iso_date dd)"
  shows "actual_lead_time (mk_delay_row sh p u w) = Some (toordinal dd - toordinal od)"
    and "delay_days (mk_delay_row sh p u w) =
           map_option (\<lambda>lt. toordinal dd - toordinal od - lt) (lead_time_days u)"
proof -
  have e: "sql_sub (julianday (delivery_date sh)) (julianday (Some (order_date sh))) =
      Some (of_int (toordinal dd - toordinal od))"
    using assms by (simp add: julianday_iso_date sql_sub_def)
  show "actual_lead_time (mk_delay_row sh p u w) = Some (toordinal dd - toordinal od)"
    by (simp add: mk_delay_row_def e sql_cast_def del: of_int_diff)
  show "delay_days (mk_delay_row sh p u w) =
           map_option (\<lambda>lt. toordinal dd - toordinal od - lt) (lead_time_days u)"
    unfolding mk_delay_row_def Let_def e
    by (cases "lead_time_days u") (simp_all add: sql_cast_def sql_sub_def flip: of_int_diff)
qed

lemma key_unique_eq:
  "key_unique f xs \<Longrightarrow> x \<in> set xs \<Longrightarrow> y \<in> set xs \<Longrightarrow> f x = f y \<Longrightarrow> x = y"
  by (auto simp: key_unique_def distinct_map dest: inj_onD)

lemma join_row_in_delays:
  "sh \<in> set (shipments s) \<Longrightarrow> r \<in> set (join_shipment s sh) \<Longrightarrow> r \<in> set (shipment_delays s)"
  by (auto simp: shipment_delays_def)

lemma join_row_id: "r \<in> set (join_shipment s sh) \<Longrightarrow> dr_shipment_id r = shipment_id sh"
  by (auto simp: join_shipment_def mk_delay_row_def Let_def)

lemma join_row_refs_ok: "r \<in> set (join_shipment s sh) \<Longrightarrow> refs_ok s sh"
  using join_shipment_dangling [of s sh] by (cases "refs_ok s sh") simp_all

text \<open>C1: for a shipment whose keys resolve and whose dates were written by Python,
  the CTE has a row for it whose \<^verbatim>\<open>actual_lead_time\<close> is the number of days from
  order to delivery and whose \<^verbatim>\<open>delay_days\<close> is that number minus the supplier's
  lead time, in exact integer arithmetic.\<close>

theorem delay_days_exact:
  assumes "keys_unique s" "sh \<in> set (shipments s)" "refs_ok s sh"
    and "u \<in> set (suppliers s)" "sh_supplier_id sh = Some (supplier_id u)"
    and "lead_time_days u = Some lt"
    and "valid_date od" "valid_date dd"
    and "order_date sh = iso_date od" "delivery_date sh = Some (iso_date dd)"
  shows "\<exists>r \<in> set (shipment_delays s). dr_shipment_id r = shipment_id sh \<and>
    supplier_name r = sup_name u \<and>
    actual_lead_time r = Some (toordinal dd - toordinal od) \<and>
    delay_days r = Some (toordinal dd - toordinal od - lt)"
proof -
  obtain p u' w where u': "u' \<in> set (suppliers s)" "sh_supplier_id sh = Some (supplier_id u')"
      and j: "join_shipment s sh = [mk_delay_row sh p u' w]"
    using join_shipment_resolved [OF assms(1,3)] by blast
  have "u' = u"
    using assms(1,4,5) u' by (auto simp: keys_unique_def intro: key_unique_eq)
  then have "mk_delay_row sh p u w \<in> set (shipment_delays s)"
    using j assms(2) by (auto intro: join_row_in_delays)
  moreover have "dr_shipment_id (mk_delay_row sh p u w) = shipment_id sh"
    and "supplier_name (mk_delay_row sh p u w) = sup_name u"
    by (simp_all add: mk_delay_row_def Let_def)
  ultimately show ?thesis
    using mk_delay_row_dates [OF assms(7-10), of p u w] assms(6) by auto
qed

text \<open>C14. The join does not report a shipment whose product, supplier or warehouse
  key names no row (SQLite does not enforce the \<^verbatim>\<open>REFERENCES\<close> clauses): the
  CTE silently has fewer rows than there are shipments, and none for that
  shipment.\<close>

theorem dangling_shipment_dropped:
  assumes "keys_unique s" "distinct (map shipment_id (shipments s))"
    and "sh \<in> set (shipments s)" "\<not> refs_ok s sh"
  shows "length (shipment_delays s) < length (shipments s) \<and>
    (\<forall>r \<in> set (shipment_delays s). dr_shipment_id r \<noteq> shipment_id sh)"
proof
  show "length (shipment_delays s) < length (shipments s)"
    using length_shipment_delays [OF assms(1)] length_filter_less [of sh "shipments s" "refs_ok s"] assms(3,4)
    by simp
next
  show "\<forall>r \<in> set (shipment_delays s). dr_shipment_id r \<noteq> shipment_id sh"
  proof
    fix r
    assume "r \<in> set (shipment_delays s)"
    then obtain sh' where sh': "sh' \<in> set (shipments s)" "r \<in> set (join_shipment s sh')"
      by (auto simp: shipment_delays_def)
    then have "sh' \<noteq> sh" using join_row_refs_ok assms(4) by blast
    then have "shipment_id sh' \<noteq> shipment_id sh"
      using assms(2,3) sh'(1) by (auto simp: distinct_map dest: inj_onD)
    then show "dr_shipment_id r \<noteq> shipment_id sh" using join_row_id [OF sh'(2)] by simp
  qed
qed

text \<open>C18. With unique primary keys, the CTE has exactly one row per shipment whose
  three keys resolve, in the order of the Shipments table, and no other row.\<close>

theorem shipment_delays_ids:
  assumes "keys_unique s"
  shows "map dr_shipment_id (shipment_delays s) = map shipment_id (filter (refs_ok s) (shipments s))"
proof -
  have "map dr_shipment_id (concat (map (join_shipment s) shs)) = map shipment_id (filter (refs_ok s) shs)"
    for shs
  proof (induction shs)
    case Nil
    then show ?case by simp
  next
    case (Cons sh shs)
    show ?case
    proof (cases "refs_ok s sh")
      case True
      then obtain p u w where "join_shipment s sh = [mk_delay_row sh p u w]"
        using join_shipment_resolved [OF assms] by blast
      with True Cons.IH show ?thesis by (simp add: mk_delay_row_def Let_def)
    next
      case False
      with Cons.IH show ?thesis by (simp add: join_shipment_dangling)
    qed
  qed
  then show ?thesis by (simp add: shipment_delays_def)
qed

end
