(* ===== verification/Generator.thy ===== *)
theory Generator
  imports Delays "HOL-Library.State_Monad" "HOL-Library.Stream"
begin

text \<open>
  The data \<^verbatim>\<open>setup_database\<close> writes (\<^verbatim>\<open>src/scripts/demo_sqlite.py\<close>, lines
  50--92): the fixed suppliers, products and warehouses, inserted with
  \<^verbatim>\<open>executemany\<close>, then 50 shipments drawn from Python's \<^verbatim>\<open>random\<close>.
  The generator is a state monad (HOL-Library's \<open>State_Monad\<close>) over an infinite
  stream of raw draws, so that a property proved for every stream holds for every
  run of the script. \<^verbatim>\<open>random.randint(a, b)\<close> consumes one draw \<open>r\<close> and returns
  \<open>a + r mod (b - a + 1)\<close>, which takes every value of \<open>[a, b]\<close> (CPython's
  rejection loop in \<^verbatim>\<open>_randbelow\<close> only changes which stream gives which value);
  \<^verbatim>\<open>random.random()\<close> consumes one draw and returns the 53-bit fraction
  \<open>(r mod 2^53) / 2^53\<close>, compared exactly with the double nearest to 0.3.
\<close>

type_synonym rng = "nat stream"
type_synonym 'a rand = "(rng, 'a) state"

definition draw :: "nat rand" where
  "draw = State (\<lambda>\<rho>. (shd \<rho>, stl \<rho>))"

definition randint :: "int \<Rightarrow> int \<Rightarrow> int rand" where
  "randint a b = do { r \<leftarrow> draw; State_Monad.return (a + int r mod (b - a + 1)) }"

definition random_float :: "rat rand" where
  "random_float = do { r \<leftarrow> draw; State_Monad.return (of_nat (r mod 2 ^ 53) / 2 ^ 53) }"

text \<open>The literal \<^verbatim>\<open>0.3\<close> as the double Python reads it.\<close>

definition py_0_3 :: rat where
  "py_0_3 = 5404319552844595 / 2 ^ 54"

section \<open>The fixed rows\<close>

definition demo_suppliers :: "(string \<times> string \<times> int) list" where
  "demo_suppliers =
     [(''Global Tech Parts'', ''San Jose, CA'', 5),
      (''Precision Manufacturing'', ''Detroit, MI'', 10),
      (''Asia Logistics Hub'', ''Singapore'', 15),
      (''Euro Component Co'', ''Berlin, Germany'', 12),
      (''Coastal Supplies'', ''Seattle, WA'', 7)]"

definition demo_products :: "(string \<times> string) list" where
  "demo_products =
     [(''Microprocessor X1'', ''Electronics''),
      (''Industrial Grade Steel'', ''Raw Materials''),
      (''LCD Display Panel'', ''Electronics''),
      (''Aluminum Casing'', ''Components''),
      (''Lithium Battery Pack'', ''Components'')]"

definition demo_warehouses :: "(string \<times> string) list" where
  "demo_warehouses =
     [(''East Coast Distribution Center'', ''Newark, NJ''),
      (''West Coast Hub'', ''Long Beach, CA''),
      (''Central Logistics Base'', ''Memphis, TN'')]"

text \<open>\<^verbatim>\<open>suppliers[s_id-1][2]\<close>.\<close>

definition lead_of :: "int \<Rightarrow> int" where
  "lead_of s_id = snd (snd (demo_suppliers ! nat (s_id - 1)))"

definition start_date :: date where
  "start_date = \<lparr>year = 2023, month = 1, day = 1\<rparr>"

section \<open>One shipment and the loop\<close>

text \<open>The body of \<^verbatim>\<open>for _ in range(50)\<close>, draws in the order Python makes
  them: in \<^verbatim>\<open>lead_time + (randint(5, 15) if random() < 0.3 else randint(-1, 2))\<close>
  the condition is drawn first.\<close>

definition gen_shipment :: "shipment_values rand" where
  "gen_shipment = do {
     p_id \<leftarrow> randint 1 5;
     s_id \<leftarrow> randint 1 5;
     w_id \<leftarrow> randint 1 3;
     qty \<leftarrow> randint 100 2000;
     off \<leftarrow> randint 0 180;
     let order_dt = add_days start_date (nat off);
     let lead_time = lead_of s_id;
     x \<leftarrow> random_float;
     extra \<leftarrow> (if x < py_0_3 then randint 5 15 else randint (-1) 2);
     let actual_days = lead_time + extra;
     let delivery_dt = add_days order_dt (nat (max 1 actual_days));
     State_Monad.return (p_id, s_id, w_id, qty, iso_date order_dt, iso_date delivery_dt)
   }"

primrec gen_loop :: "nat \<Rightarrow> db \<Rightarrow> db rand" where
  "gen_loop 0 s = State_Monad.return s"
| "gen_loop (Suc n) s = do { v \<leftarrow> gen_shipment; gen_loop n (insert_shipment s v) }"

text \<open>The tables after the three \<^verbatim>\<open>executemany\<close> calls.\<close>

definition base_db :: db where
  "base_db =
     executemany insert_warehouse
       (executemany insert_product (executemany insert_supplier empty_db demo_suppliers) demo_products)
       demo_warehouses"

definition setup_database :: "db rand" where
  "setup_database = gen_loop 50 base_db"

text \<open>What one iteration may insert: keys in the ranges drawn, an order date up
  to 180 days after the start, and a delivery \<open>lead + e\<close> days later with \<open>e\<close>
  from the delayed branch (5 to 15) or the on-time branch (-1 to 2). Both dates
  are valid, so \<^verbatim>\<open>+ timedelta\<close> never raises \<^verbatim>\<open>OverflowError\<close>.\<close>

definition demo_values_ok :: "shipment_values \<Rightarrow> bool" where
  "demo_values_ok v =
     (case v of (p, su, w, q, od, dd) \<Rightarrow>
        1 \<le> p \<and> p \<le> 5 \<and> 1 \<le> su \<and> su \<le> 5 \<and> 1 \<le> w \<and> w \<le> 3 \<and> 100 \<le> q \<and> q \<le> 2000 \<and>
        (\<exists>off e. off \<le> 180 \<and> (5 \<le> e \<and> e \<le> 15 \<or> -1 \<le> e \<and> e \<le> 2) \<and>
           valid_date (add_days start_date off) \<and>
           valid_date (add_days (add_days start_date off) (nat (lead_of su + e))) \<and>
           od = iso_date (add_days start_date off) \<and>
           dd = iso_date (add_days (add_days start_date off) (nat (lead_of su + e)))))"

section \<open>Reasoning about draws\<close>

text \<open>What every draw of the generator may return, in the style of a Hoare triple:
  \<open>pred_state P m\<close> says that every result of \<open>m\<close> satisfies \<open>P\<close>.\<close>

lemma pred_state_return [simp]: "pred_state P (State_Monad.return x) \<longleftrightarrow> P x"
proof
  assume "pred_state P (State_Monad.return x)"
  then show "P x" using pred_state_run_state [of P "State_Monad.return x" undefined] by simp
next
  assume "P x"
  then show "pred_state P (State_Monad.return x)" by (intro pred_stateI) simp
qed

lemma pred_state_bind_conseq:
  assumes "pred_state Q m" "\<And>x. Q x \<Longrightarrow> pred_state P (f x)"
  shows "pred_state P (m \<bind> f)"
proof (rule pred_stateI)
  fix v \<rho> \<rho>'
  assume r: "run_state (m \<bind> f) \<rho> = (v, \<rho>')"
  obtain x \<rho>1 where x: "run_state m \<rho> = (x, \<rho>1)" by fastforce
  with r have "run_state (f x) \<rho>1 = (v, \<rho>')" by simp
  with x assms show "P v" by blast
qed

lemma randint_range: "a \<le> b \<Longrightarrow> pred_state (\<lambda>x. a \<le> x \<and> x \<le> b) (randint a b)"
proof (rule pred_stateI)
  fix x \<rho> \<rho>'
  assume "a \<le> b" and r: "run_state (randint a b) \<rho> = (x, \<rho>')"
  then have n: "0 < b - a + 1" by simp
  have "0 \<le> int (shd \<rho>) mod (b - a + 1)" "int (shd \<rho>) mod (b - a + 1) < b - a + 1"
    using pos_mod_sign [OF n] pos_mod_bound [OF n] by simp_all
  moreover have "x = a + int (shd \<rho>) mod (b - a + 1)"
    using r by (simp add: randint_def draw_def)
  ultimately show "a \<le> x \<and> x \<le> b" by linarith
qed

lemma randint_bind_pred:
  "a \<le> b \<Longrightarrow> (\<And>x. a \<le> x \<Longrightarrow> x \<le> b \<Longrightarrow> pred_state P (f x)) \<Longrightarrow> pred_state P (randint a b \<bind> f)"
  by (rule pred_state_bind_conseq [OF randint_range]) auto

lemma random_bind_pred:
  "(\<And>x. pred_state P (f x)) \<Longrightarrow> pred_state P (random_float \<bind> f)"
  by (rule pred_state_bind_conseq [of "\<lambda>_. True"]) (auto intro: pred_stateI)

lemma if_bind_pred:
  "(c \<Longrightarrow> pred_state P (m1 \<bind> f)) \<Longrightarrow> (\<not> c \<Longrightarrow> pred_state P (m2 \<bind> f)) \<Longrightarrow>
     pred_state P ((if c then m1 else m2) \<bind> f)"
  by (cases c) simp_all

section \<open>One iteration\<close>

lemma lead_of_range: "1 \<le> su \<Longrightarrow> su \<le> 5 \<Longrightarrow> 5 \<le> lead_of su \<and> lead_of su \<le> 15"
proof -
  assume "1 \<le> su" "su \<le> 5"
  then consider "su = 1" | "su = 2" | "su = 3" | "su = 4" | "su = 5" by linarith
  then show ?thesis by cases (simp_all add: lead_of_def demo_suppliers_def)
qed

lemma valid_start: "valid_ymd start_date"
  by (simp add: start_date_def valid_ymd_def days_in_month_def days_in_month_tbl_def)

lemma valid_from_start: "k \<le> 1000 \<Longrightarrow> valid_date (add_days start_date k)"
  using valid_add_days [OF valid_start, of k] year_add_days [of start_date k]
  by (simp add: valid_date_def start_date_def)

lemma valid_from_start2: "k \<le> 500 \<Longrightarrow> m \<le> 500 \<Longrightarrow> valid_date (add_days (add_days start_date k) m)"
  using valid_from_start [of "k + m"] by (simp add: add_days_add)

lemma gen_leaf:
  assumes "1 \<le> p" "p \<le> 5" "1 \<le> su" "su \<le> 5" "1 \<le> w" "w \<le> 3" "100 \<le> q" "q \<le> 2000"
    and "0 \<le> off" "off \<le> 180" "5 \<le> e \<and> e \<le> 15 \<or> -1 \<le> e \<and> e \<le> 2"
  shows "demo_values_ok (p, su, w, q, iso_date (add_days start_date (nat off)),
           iso_date (add_days (add_days start_date (nat off)) (nat (max 1 (lead_of su + e)))))"
proof -
  have l: "5 \<le> lead_of su" "lead_of su \<le> 15" using lead_of_range assms(3,4) by auto
  then have m: "max 1 (lead_of su + e) = lead_of su + e" using assms(11) by linarith
  have "nat (lead_of su + e) \<le> 500" using l assms(11) by linarith
  then have "valid_date (add_days start_date (nat off))"
      "valid_date (add_days (add_days start_date (nat off)) (nat (lead_of su + e)))"
    using assms(10) valid_from_start valid_from_start2 by simp_all
  then show ?thesis
    using assms unfolding demo_values_ok_def m prod.case by (intro conjI exI [of _ "nat off"] exI [of _ e]) simp_all
qed

lemma gen_shipment_ok: "pred_state demo_values_ok gen_shipment"
  unfolding gen_shipment_def Let_def
  by (intro randint_bind_pred random_bind_pred if_bind_pred) (simp_all add: gen_leaf)

section \<open>The loop\<close>

lemma pred_state_mono: "pred_state P m \<Longrightarrow> (\<And>x. P x \<Longrightarrow> Q x) \<Longrightarrow> pred_state Q m"
  by (blast intro: pred_stateI dest: pred_stateD)

lemma gen_loop_ok:
  "pred_state (\<lambda>s'. \<exists>vs. length vs = n \<and> list_all demo_values_ok vs \<and>
      s' = fold (\<lambda>v s. insert_shipment s v) vs s) (gen_loop n s)"
proof (induction n arbitrary: s)
  case 0
  then show ?case by simp
next
  case (Suc n)
  show ?case
    unfolding gen_loop.simps
  proof (rule pred_state_bind_conseq [OF gen_shipment_ok])
    fix v
    assume v: "demo_values_ok v"
    show "pred_state (\<lambda>s'. \<exists>vs. length vs = Suc n \<and> list_all demo_values_ok vs \<and>
        s' = fold (\<lambda>v s. insert_shipment s v) vs s) (gen_loop n (insert_shipment s v))"
      by (rule pred_state_mono [OF Suc.IH]) (use v in \<open>fastforce intro: exI [of _ "v # _"]\<close>)
  qed
qed

lemma insert_shipment_frame [simp]:
  "suppliers (insert_shipment s v) = suppliers s" "products (insert_shipment s v) = products s"
  "warehouses (insert_shipment s v) = warehouses s"
  "shipments (insert_shipment s v) =
     shipments s @ [case v of (p, su, w, q, od, dd) \<Rightarrow>
       \<lparr>shipment_id = autoinc (seq_ship s) (map shipment_id (shipments s)), sh_product_id = Some p,
        sh_supplier_id = Some su, sh_warehouse_id = Some w, quantity = q, order_date = od,
        delivery_date = Some dd\<rparr>]"
  by (simp_all add: insert_shipment_def Let_def split: prod.splits)

lemma fold_insert_frame [simp]:
  "suppliers (fold (\<lambda>v s. insert_shipment s v) vs s) = suppliers s"
  "products (fold (\<lambda>v s. insert_shipment s v) vs s) = products s"
  "warehouses (fold (\<lambda>v s. insert_shipment s v) vs s) = warehouses s"
  "length (shipments (fold (\<lambda>v s. insert_shipment s v) vs s)) = length (shipments s) + length vs"
  by (induction vs arbitrary: s) simp_all

lemma fold_insert_member:
  "sh \<in> set (shipments (fold (\<lambda>v s. insert_shipment s v) vs s)) \<Longrightarrow>
     sh \<in> set (shipments s) \<or> (\<exists>k p su w q od dd. (p, su, w, q, od, dd) \<in> set vs \<and>
       sh = \<lparr>shipment_id = k, sh_product_id = Some p, sh_supplier_id = Some su,
         sh_warehouse_id = Some w, quantity = q, order_date = od, delivery_date = Some dd\<rparr>)"
proof (induction vs arbitrary: s)
  case Nil
  then show ?case by simp
next
  case (Cons v vs)
  then show ?case by (cases v) (fastforce split: prod.splits)
qed

lemma keys_positional_fold_insert:
  "keys_positional s \<Longrightarrow> keys_positional (fold (\<lambda>v s. insert_shipment s v) vs s)"
  by (induction vs arbitrary: s) (simp_all add: keys_positional_insert_shipment)

section \<open>The fixed tables\<close>

lemma base_db_tables:
  "suppliers base_db =
     [\<lparr>supplier_id = 1, sup_name = ''Global Tech Parts'', sup_location = Some ''San Jose, CA'', lead_time_days = Some 5\<rparr>,
      \<lparr>supplier_id = 2, sup_name = ''Precision Manufacturing'', sup_location = Some ''Detroit, MI'', lead_time_days = Some 10\<rparr>,
      \<lparr>supplier_id = 3, sup_name = ''Asia Logistics Hub'', sup_location = Some ''Singapore'', lead_time_days = Some 15\<rparr>,
      \<lparr>supplier_id = 4, sup_name = ''Euro Component Co'', sup_location = Some ''Berlin, Germany'', lead_time_days = Some 12\<rparr>,
      \<lparr>supplier_id = 5, sup_name = ''Coastal Supplies'', sup_location = Some ''Seattle, WA'', lead_time_days = Some 7\<rparr>]"
  "map product_id (products base_db) = [1, 2, 3, 4, 5]"
  "map warehouse_id (warehouses base_db) = [1, 2, 3]"
  "shipments base_db = []"
  by (simp_all add: base_db_def executemany_def insert_supplier_def insert_product_def
      insert_warehouse_def autoinc_def empty_db_def demo_suppliers_def demo_products_def
      demo_warehouses_def)

lemma keys_positional_base: "keys_positional base_db"
  unfolding base_db_def
  by (intro keys_positional_executemany keys_positional_inserts keys_positional_empty)

lemma base_lead_time:
  "u \<in> set (suppliers base_db) \<Longrightarrow> lead_time_days u = Some (lead_of (supplier_id u))"
  by (auto simp: base_db_tables lead_of_def demo_suppliers_def)

lemma positional_distinct: "positional ids seq \<Longrightarrow> distinct ids"
  unfolding positional_def by (metis distinct_map distinct_upt inj_on_of_nat)

lemma keys_unique_positional: "keys_positional s \<Longrightarrow> keys_unique s"
  unfolding keys_positional_def keys_unique_def key_unique_def by (blast dest: positional_distinct)

lemma positional_resolves:
  assumes "positional (map f xs) seq" "1 \<le> k" "k \<le> int (length xs)"
  shows "resolves f xs (Some k)"
proof -
  have "k \<in> set (map int [1..<Suc (length xs)])"
    using assms(2,3) by (auto simp: image_iff intro!: bexI [of _ "nat k"])
  then have "k \<in> f ` set xs"
    using assms(1) by (metis length_map list.set_map positional_def)
  then show ?thesis by (auto simp: resolves_def)
qed

section \<open>The database the script builds\<close>

lemma setup_database_run:
  "\<exists>vs. length vs = 50 \<and> list_all demo_values_ok vs \<and>
     fst (run_state setup_database \<rho>) = fold (\<lambda>v s. insert_shipment s v) vs base_db"
  using pred_state_run_state [OF gen_loop_ok [of 50 base_db], of \<rho>] by (simp add: setup_database_def)

lemma demo_values_member:
  "list_all demo_values_ok vs \<Longrightarrow> sh \<in> set (shipments (fold (\<lambda>v s. insert_shipment s v) vs base_db)) \<Longrightarrow>
     \<exists>k p su w q od dd. demo_values_ok (p, su, w, q, od, dd) \<and>
       sh = \<lparr>shipment_id = k, sh_product_id = Some p, sh_supplier_id = Some su,
         sh_warehouse_id = Some w, quantity = q, order_date = od, delivery_date = Some dd\<rparr>"
  by (drule fold_insert_member) (fastforce simp: base_db_tables list_all_iff)

lemma demo_refs_ok:
  assumes "keys_positional s" "products s = products base_db" "suppliers s = suppliers base_db"
    and "warehouses s = warehouses base_db" "demo_values_ok (p, su, w, q, od, dd)"
  shows "refs_ok s \<lparr>shipment_id = k, sh_product_id = Some p, sh_supplier_id = Some su,
      sh_warehouse_id = Some w, quantity = q, order_date = od, delivery_date = Some dd\<rparr>"
proof -
  have n: "length (products s) = 5" "length (suppliers s) = 5" "length (warehouses s) = 3"
    using assms(2-4) arg_cong [OF base_db_tables(2), of length] arg_cong [OF base_db_tables(3), of length]
    by (simp_all add: base_db_tables(1))
  have pos: "positional (map product_id (products s)) (seq_prod s)"
      "positional (map supplier_id (suppliers s)) (seq_sup s)"
      "positional (map warehouse_id (warehouses s)) (seq_wh s)"
    using assms(1) unfolding keys_positional_def by simp_all
  have r: "1 \<le> p" "p \<le> 5" "1 \<le> su" "su \<le> 5" "1 \<le> w" "w \<le> 3"
    using assms(5) by (simp_all add: demo_values_ok_def)
  show ?thesis
    unfolding refs_ok_def using positional_resolves [OF pos(1)] positional_resolves [OF pos(2)]
      positional_resolves [OF pos(3)] n r by simp
qed

lemma demo_delay_row:
  assumes "keys_unique s" "suppliers s = suppliers base_db" "refs_ok s sh"
    and "sh = \<lparr>shipment_id = k, sh_product_id = Some p, sh_supplier_id = Some su,
      sh_warehouse_id = Some w, quantity = q, order_date = od, delivery_date = Some dd\<rparr>"
    and "demo_values_ok (p, su, w, q, od, dd)"
  shows "\<exists>r e. join_shipment s sh = [r] \<and> promised_lead_time r = Some (lead_of su) \<and>
    actual_lead_time r = Some (lead_of su + e) \<and> delay_days r = Some e \<and>
    (5 \<le> e \<and> e \<le> 15 \<or> -1 \<le> e \<and> e \<le> 2)"
proof -
  obtain p' u w' where u: "u \<in> set (suppliers s)" "sh_supplier_id sh = Some (supplier_id u)"
      and j: "join_shipment s sh = [mk_delay_row sh p' u w']"
    using join_shipment_resolved [OF assms(1,3)] by blast
  have lt: "lead_time_days u = Some (lead_of su)"
    using base_lead_time u assms(2,4) by auto
  obtain off e where e: "5 \<le> e \<and> e \<le> 15 \<or> -1 \<le> e \<and> e \<le> 2"
      and v: "valid_date (add_days start_date off)"
        "valid_date (add_days (add_days start_date off) (nat (lead_of su + e)))"
      and d: "od = iso_date (add_days start_date off)"
        "dd = iso_date (add_days (add_days start_date off) (nat (lead_of su + e)))"
      and su: "1 \<le> su" "su \<le> 5"
    using assms(5) unfolding demo_values_ok_def by auto
  have "5 \<le> lead_of su" using lead_of_range [OF su] by simp
  then have "0 \<le> lead_of su + e" using e by linarith
  then have days: "toordinal (add_days (add_days start_date off) (nat (lead_of su + e))) -
      toordinal (add_days start_date off) = lead_of su + e"
    using toordinal_add_days [OF valid_add_days [OF valid_start], of off] by simp
  have "actual_lead_time (mk_delay_row sh p' u w') = Some (lead_of su + e)"
    and "delay_days (mk_delay_row sh p' u w') = Some e"
    using mk_delay_row_dates [OF v, of sh p' u w'] assms(4) d days lt by simp_all
  moreover have "promised_lead_time (mk_delay_row sh p' u w') = Some (lead_of su)"
    using lt by (simp add: mk_delay_row_def Let_def)
  ultimately show ?thesis using j e by blast
qed

lemma demo_db_frame:
  "keys_positional (fold (\<lambda>v s. insert_shipment s v) vs base_db) \<and>
   keys_unique (fold (\<lambda>v s. insert_shipment s v) vs base_db)"
  using keys_positional_fold_insert [OF keys_positional_base] keys_unique_positional by blast

lemma demo_shipments_ok:
  assumes "list_all demo_values_ok vs" "sh \<in> set (shipments (fold (\<lambda>v s. insert_shipment s v) vs base_db))"
  shows "refs_ok (fold (\<lambda>v s. insert_shipment s v) vs base_db) sh \<and>
    (\<exists>k p su w q od dd. demo_values_ok (p, su, w, q, od, dd) \<and>
       sh = \<lparr>shipment_id = k, sh_product_id = Some p, sh_supplier_id = Some su,
         sh_warehouse_id = Some w, quantity = q, order_date = od, delivery_date = Some dd\<rparr>)"
  using demo_values_member [OF assms] demo_refs_ok demo_db_frame fold_insert_frame by blast

lemma demo_delay_rows:
  "length (shipment_delays (fst (run_state setup_database \<rho>))) = 50 \<and>
   (\<forall>r \<in> set (shipment_delays (fst (run_state setup_database \<rho>))).
      \<exists>lt e. promised_lead_time r = Some lt \<and> actual_lead_time r = Some (lt + e) \<and>
        delay_days r = Some e \<and> (5 \<le> e \<and> e \<le> 15 \<or> -1 \<le> e \<and> e \<le> 2))"
proof -
  obtain vs where vs: "length vs = 50" "list_all demo_values_ok vs"
      "fst (run_state setup_database \<rho>) = fold (\<lambda>v s. insert_shipment s v) vs base_db"
    using setup_database_run by blast
  let ?s = "fold (\<lambda>v s. insert_shipment s v) vs base_db"
  have ok: "\<forall>sh \<in> set (shipments ?s). refs_ok ?s sh"
    using demo_shipments_ok [OF vs(2)] by blast
  have len: "length (shipment_delays ?s) = 50"
    using length_shipment_delays [of ?s] demo_db_frame ok vs(1)
    by (simp add: base_db_tables filter_True)
  have "\<exists>lt e. promised_lead_time r = Some lt \<and> actual_lead_time r = Some (lt + e) \<and>
      delay_days r = Some e \<and> (5 \<le> e \<and> e \<le> 15 \<or> -1 \<le> e \<and> e \<le> 2)"
    if r: "r \<in> set (shipment_delays ?s)" for r
  proof -
    obtain sh where sh: "sh \<in> set (shipments ?s)" "r \<in> set (join_shipment ?s sh)"
      using r by (auto simp: shipment_delays_def)
    then obtain k p su w q od dd where v: "demo_values_ok (p, su, w, q, od, dd)"
      and sh_eq: "sh = \<lparr>shipment_id = k, sh_product_id = Some p, sh_supplier_id = Some su,
         sh_warehouse_id = Some w, quantity = q, order_date = od, delivery_date = Some dd\<rparr>"
      using demo_shipments_ok [OF vs(2)] by blast
    show ?thesis
      using demo_delay_row [OF _ _ _ sh_eq v] demo_db_frame ok sh by fastforce
  qed
  then show ?thesis
    unfolding vs(3) using len by blast
qed

section \<open>Properties of the demo data\<close>

text \<open>C11. Whatever the random draws, \<^verbatim>\<open>setup_database\<close> leaves the five
  suppliers of the script, keys equal to row positions, and 50 shipments each of
  whose product, supplier and warehouse keys names an existing row: the data
  satisfies the referential integrity the schema declares but SQLite does not
  enforce.\<close>

theorem demo_database_integrity:
  "let s = fst (run_state setup_database \<rho>) in
     keys_positional s \<and> keys_unique s \<and> length (shipments s) = 50 \<and>
     suppliers s = suppliers base_db \<and> list_all (refs_ok s) (shipments s)"
proof -
  obtain vs where vs: "length vs = 50" "list_all demo_values_ok vs"
      "fst (run_state setup_database \<rho>) = fold (\<lambda>v s. insert_shipment s v) vs base_db"
    using setup_database_run by blast
  show ?thesis
    unfolding Let_def vs(3)
    using demo_db_frame demo_shipments_ok [OF vs(2)] vs(1)
    by (simp add: list_all_iff base_db_tables)
qed

text \<open>C12. Whatever the random draws, every one of the 50 shipments has its row in
  \<^verbatim>\<open>Shipment_Delays\<close>, and its delay is the random offset the loop added to
  the supplier's lead time: 5 to 15 days in the delayed branch, -1 to 2 otherwise
  (the \<^verbatim>\<open>max(1, ...)\<close> never applies, as every lead time is at least 5).\<close>

theorem demo_delays_range:
  "let s = fst (run_state setup_database \<rho>) in
     length (shipment_delays s) = 50 \<and>
     list_all (\<lambda>r. \<exists>lt e. promised_lead_time r = Some lt \<and> actual_lead_time r = Some (lt + e) \<and>
        delay_days r = Some e \<and> (5 \<le> e \<and> e \<le> 15 \<or> -1 \<le> e \<and> e \<le> 2)) (shipment_delays s)"
  using demo_delay_rows [of \<rho>] by (simp add: list_all_iff)

text \<open>C22. The TEXT columns \<^verbatim>\<open>order_date\<close> and \<^verbatim>\<open>delivery_date\<close> are
  well typed in every database the script builds: each holds the 10-character
  \<^verbatim>\<open>YYYY-MM-DD\<close> text of a valid date, never NULL, which SQLite's date parser
  reads back as that same date, with delivery after order.\<close>

theorem demo_dates_typed:
  "list_all (\<lambda>sh. \<exists>od dd. valid_date od \<and> valid_date dd \<and> toordinal od < toordinal dd \<and>
       order_date sh = iso_date od \<and> delivery_date sh = Some (iso_date dd) \<and>
       length (order_date sh) = 10 \<and>
       parse_yyyy_mm_dd (order_date sh) = Some (year od, month od, day od) \<and>
       parse_yyyy_mm_dd (iso_date dd) = Some (year dd, month dd, day dd))
     (shipments (fst (run_state setup_database \<rho>)))"
  unfolding list_all_iff
proof
  fix sh
  assume sh: "sh \<in> set (shipments (fst (run_state setup_database \<rho>)))"
  obtain vs where vs: "list_all demo_values_ok vs"
      "fst (run_state setup_database \<rho>) = fold (\<lambda>v s. insert_shipment s v) vs base_db"
    using setup_database_run by blast
  obtain k p su w q od dd where v: "demo_values_ok (p, su, w, q, od, dd)"
      and sh_eq: "sh = \<lparr>shipment_id = k, sh_product_id = Some p, sh_supplier_id = Some su,
         sh_warehouse_id = Some w, quantity = q, order_date = od, delivery_date = Some dd\<rparr>"
  proof -
    have "sh \<in> set (shipments (fold (\<lambda>v s. insert_shipment s v) vs base_db))" using sh vs(2) by simp
    then show ?thesis using demo_shipments_ok [OF vs(1)] that by blast
  qed
  obtain off e where e: "5 \<le> e \<and> e \<le> 15 \<or> -1 \<le> e \<and> e \<le> 2"
      and vd: "valid_date (add_days start_date off)"
        "valid_date (add_days (add_days start_date off) (nat (lead_of su + e)))"
      and d: "od = iso_date (add_days start_date off)"
        "dd = iso_date (add_days (add_days start_date off) (nat (lead_of su + e)))"
      and su: "1 \<le> su" "su \<le> 5"
    using v unfolding demo_values_ok_def by auto
  have "5 \<le> lead_of su" using lead_of_range [OF su] by simp
  then have pos: "0 < nat (lead_of su + e)" using e by linarith
  have "toordinal (add_days start_date off) < toordinal (add_days (add_days start_date off) (nat (lead_of su + e)))"
    using toordinal_add_days [OF valid_add_days [OF valid_start], of off] pos by simp
  then show "\<exists>od dd. valid_date od \<and> valid_date dd \<and> toordinal od < toordinal dd \<and>
       order_date sh = iso_date od \<and> delivery_date sh = Some (iso_date dd) \<and>
       length (order_date sh) = 10 \<and>
       parse_yyyy_mm_dd (order_date sh) = Some (year od, month od, day od) \<and>
       parse_yyyy_mm_dd (iso_date dd) = Some (year dd, month dd, day dd)"
    using vd d sh_eq parse_iso_date [OF vd(1)] parse_iso_date [OF vd(2)]
    by (intro exI [of _ "add_days start_date off"] exI [of _ "add_days (add_days start_date off) (nat (lead_of su + e))"])
      (simp add: iso_date_def)
qed

end
