(* ===== verification/PyRandom.thy ===== *)
theory PyRandom
  imports Generator "HOL-Library.Word"
begin

text \<open>
  The primitives of Python's \<^verbatim>\<open>random\<close> module that the scripts call, as CPython
  implements them on top of the Mersenne Twister. The twister itself is an
  arbitrary stream of its 32-bit outputs (\<open>mt_stream\<close>), so that the results hold
  whatever the seed.
  \<^item> \<^verbatim>\<open>getrandbits(k)\<close>, \<open>0 < k \<le> 32\<close>: the top \<open>k\<close> bits of one output;
  \<^item> \<^verbatim>\<open>_randbelow_with_getrandbits(n)\<close>: draw \<open>k = n.bit_length()\<close> bits until
    the value is below \<open>n\<close>, a loop that returns only when some output is
    acceptable, so it is a \<^theory_text>\<open>partial_function (option)\<close>;
  \<^item> \<^verbatim>\<open>randrange(start, stop)\<close> and \<^verbatim>\<open>randint(a, b) = randrange(a, b + 1)\<close>,
    which raise \<^verbatim>\<open>ValueError\<close> on an empty range;
  \<^item> \<^verbatim>\<open>random()\<close>: two outputs shifted right by 5 and 6 bits, combined into a
    53-bit fraction. Both steps of the double arithmetic are exact, so the value is
    the rational \<open>(a * 2^26 + b) / 2^53\<close>.
  The abstract generator of \<open>Generator\<close> lets each call take any value of its range;
  \<open>DemoPy\<close> shows (\<open>py_refines\<close>) that every value CPython returns is one of
  those, so every property proved there for all streams holds for the real generator.
\<close>

type_synonym mt_stream = "32 word stream"

datatype random_error = EmptyRange

definition bits_of :: "nat \<Rightarrow> 32 word \<Rightarrow> nat" where
  "bits_of k w = unat (drop_bit (32 - k) w)"

definition getrandbits :: "nat \<Rightarrow> mt_stream \<Rightarrow> nat \<times> mt_stream" where
  "getrandbits k \<rho> = (bits_of k (shd \<rho>), stl \<rho>)"

text \<open>\<^verbatim>\<open>int.bit_length\<close>.\<close>

fun bit_length :: "nat \<Rightarrow> nat" where
  "bit_length n = (if n = 0 then 0 else Suc (bit_length (n div 2)))"

declare bit_length.simps [simp del]

partial_function (option) randbelow_loop :: "nat \<Rightarrow> nat \<Rightarrow> mt_stream \<Rightarrow> (nat \<times> mt_stream) option" where
  "randbelow_loop n k \<rho> =
     (case getrandbits k \<rho> of (r, \<rho>') \<Rightarrow> if r < n then Some (r, \<rho>') else randbelow_loop n k \<rho>')"

definition randbelow :: "nat \<Rightarrow> mt_stream \<Rightarrow> (nat \<times> mt_stream) option" where
  "randbelow n \<rho> = randbelow_loop n (bit_length n) \<rho>"

definition randrange_py :: "int \<Rightarrow> int \<Rightarrow> mt_stream \<Rightarrow> (random_error + int \<times> mt_stream) option" where
  "randrange_py start stop \<rho> =
     (let width = stop - start in
      if width \<le> 0 then Some (Inl EmptyRange)
      else map_option (\<lambda>(r, \<rho>'). Inr (start + int r, \<rho>')) (randbelow (nat width) \<rho>))"

definition randint_py :: "int \<Rightarrow> int \<Rightarrow> mt_stream \<Rightarrow> (random_error + int \<times> mt_stream) option" where
  "randint_py a b \<rho> = randrange_py a (b + 1) \<rho>"

definition random_py :: "mt_stream \<Rightarrow> rat \<times> mt_stream" where
  "random_py \<rho> =
     (let a = drop_bit 5 (shd \<rho>); b = drop_bit 6 (shd (stl \<rho>)) in
      ((of_nat (unat a) * 67108864 + of_nat (unat b)) / 9007199254740992, stl (stl \<rho>)))"

section \<open>The rejection loop\<close>

lemma randbelow_loop_unfold:
  "randbelow_loop n k \<rho> =
     (if bits_of k (shd \<rho>) < n then Some (bits_of k (shd \<rho>), stl \<rho>) else randbelow_loop n k (stl \<rho>))"
  by (subst randbelow_loop.simps) (simp add: getrandbits_def)

lemma randbelow_loop_returns:
  "bits_of k (\<rho> !! i) < n \<Longrightarrow> \<exists>r \<rho>'. randbelow_loop n k \<rho> = Some (r, \<rho>')"
proof (induction i arbitrary: \<rho>)
  case 0
  then show ?case by (subst randbelow_loop_unfold) simp
next
  case (Suc i)
  then show ?case by (subst randbelow_loop_unfold) simp
qed

text \<open>What the loop returns: the first acceptable output, after consuming it.\<close>

lemma randbelow_loop_Some:
  assumes "randbelow_loop n k \<rho> = Some res"
  shows "\<exists>i. (\<forall>j < i. n \<le> bits_of k (\<rho> !! j)) \<and> bits_of k (\<rho> !! i) < n \<and>
    res = (bits_of k (\<rho> !! i), sdrop (Suc i) \<rho>)"
proof (rule randbelow_loop.raw_induct [where P = "\<lambda>n k \<rho> res. \<exists>i. (\<forall>j < i. n \<le> bits_of k (\<rho> !! j)) \<and>
    bits_of k (\<rho> !! i) < n \<and> res = (bits_of k (\<rho> !! i), sdrop (Suc i) \<rho>)", OF _ assms])
  fix f n k \<rho> res
  assume IH: "\<And>n k \<rho> res. f n k \<rho> = Some res \<Longrightarrow> \<exists>i. (\<forall>j < i. n \<le> bits_of k (\<rho> !! j)) \<and>
      bits_of k (\<rho> !! i) < n \<and> res = (bits_of k (\<rho> !! i), sdrop (Suc i) \<rho>)"
    and eq: "(case getrandbits k \<rho> of (r, \<rho>') \<Rightarrow> if r < n then Some (r, \<rho>') else f n k \<rho>') = Some res"
  show "\<exists>i. (\<forall>j < i. n \<le> bits_of k (\<rho> !! j)) \<and> bits_of k (\<rho> !! i) < n \<and>
      res = (bits_of k (\<rho> !! i), sdrop (Suc i) \<rho>)"
  proof (cases "bits_of k (shd \<rho>) < n")
    case True
    with eq show ?thesis by (intro exI [of _ 0]) (simp add: getrandbits_def)
  next
    case False
    with eq have "f n k (stl \<rho>) = Some res" by (simp add: getrandbits_def)
    then obtain i where i: "\<forall>j < i. n \<le> bits_of k (stl \<rho> !! j)" "bits_of k (stl \<rho> !! i) < n"
        "res = (bits_of k (stl \<rho> !! i), sdrop (Suc i) (stl \<rho>))"
      using IH by blast
    have "\<forall>j < Suc i. n \<le> bits_of k (\<rho> !! j)"
      using i(1) False by (auto simp: less_Suc_eq_0_disj)
    with i(2,3) show ?thesis by (intro exI [of _ "Suc i"]) simp
  qed
qed

lemma bit_length_bounds: "0 < n \<Longrightarrow> 2 ^ bit_length n \<le> 2 * n \<and> n < 2 ^ bit_length n"
proof (induction n rule: bit_length.induct)
  case (1 n)
  show ?case
  proof (cases "n = 1")
    case True
    then show ?thesis by (simp add: bit_length.simps)
  next
    case False
    then have "0 < n div 2" using "1.prems" by simp
    then have "2 ^ bit_length (n div 2) \<le> 2 * (n div 2) \<and> n div 2 < 2 ^ bit_length (n div 2)"
      using "1.IH" "1.prems" by simp
    moreover have "bit_length n = Suc (bit_length (n div 2))"
      using "1.prems" by (subst bit_length.simps) simp
    moreover have "n \<le> 2 * (n div 2) + 1" "2 * (n div 2) \<le> n" by linarith+
    ultimately show ?thesis by (simp only: power_Suc) linarith
  qed
qed

lemma unat_drop_bit_less: "m \<le> 32 \<Longrightarrow> unat (drop_bit m (w :: 32 word)) < 2 ^ (32 - m)"
proof -
  assume m: "m \<le> 32"
  have e: "unat (drop_bit m w) = unat w div 2 ^ m"
    by (simp only: unat_drop_bit_eq) (simp add: drop_bit_eq_div)
  have "unat w < 2 ^ (32 - m) * 2 ^ m"
    using unsigned_less [of w] m by (simp flip: power_add)
  then show ?thesis unfolding e by (simp add: less_mult_imp_div_less)
qed

lemma random_py_fraction:
  "\<exists>k. k < 9007199254740992 \<and> fst (random_py \<rho>) = of_nat k / 9007199254740992"
proof -
  let ?a = "unat (drop_bit 5 (shd \<rho>))" and ?b = "unat (drop_bit 6 (shd (stl \<rho>)))"
  have a: "?a < 2 ^ 27" using unat_drop_bit_less [of 5 "shd \<rho>"] by simp
  have b: "?b < 2 ^ 26" using unat_drop_bit_less [of 6 "shd (stl \<rho>)"] by simp
  have "?a \<le> 134217727" "?b \<le> 67108863" using a b by simp_all
  then have k: "?a * 67108864 + ?b < 9007199254740992" by linarith
  have "fst (random_py \<rho>) = of_nat (?a * 67108864 + ?b) / 9007199254740992"
    by (simp add: random_py_def Let_def)
  with k show ?thesis by blast
qed

lemma random_float_value:
  "k < 9007199254740992 \<Longrightarrow> run_state random_float (k ## \<sigma>) = (of_nat k / 9007199254740992, \<sigma>)"
  by (simp add: random_float_def draw_def)

section \<open>Termination and result of the rejection loop\<close>

lemma randbelow_Some:
  "randbelow n \<rho> = Some (r, \<rho>') \<Longrightarrow> r < n \<and> (\<exists>k. \<rho>' = sdrop k \<rho>)"
  using randbelow_loop_Some [of n "bit_length n" \<rho> "(r, \<rho>')"]
  by (auto simp: randbelow_def simp del: sdrop.simps intro: exI [of _ "Suc _"])

text \<open>Termination of the rejection loop exactly characterised: it runs forever
  if and only if no output is acceptable (for instance \<open>n = 0\<close>, which the callers
  exclude).\<close>

lemma randbelow_diverges_iff:
  "randbelow n \<rho> = None \<longleftrightarrow> (\<forall>i. n \<le> bits_of (bit_length n) (\<rho> !! i))"
proof
  assume none: "randbelow n \<rho> = None"
  show "\<forall>i. n \<le> bits_of (bit_length n) (\<rho> !! i)"
  proof (rule ccontr)
    assume "\<not> (\<forall>i. n \<le> bits_of (bit_length n) (\<rho> !! i))"
    then obtain i where "bits_of (bit_length n) (\<rho> !! i) < n" by (auto simp: not_le)
    then show False using randbelow_loop_returns none by (fastforce simp: randbelow_def)
  qed
next
  assume all: "\<forall>i. n \<le> bits_of (bit_length n) (\<rho> !! i)"
  show "randbelow n \<rho> = None"
  proof (cases "randbelow n \<rho>")
    case (Some res)
    then obtain i where "bits_of (bit_length n) (\<rho> !! i) < n"
      using randbelow_loop_Some [of n "bit_length n" \<rho> res] by (auto simp: randbelow_def)
    with all show ?thesis by (simp add: not_le [symmetric])
  qed
qed

end
