(* ===== verification/DemoPy.thy ===== *)
theory DemoPy
  imports PyRandom
begin

text \<open>
  The shipment loop of \<^verbatim>\<open>setup_database\<close> (\<^verbatim>\<open>src/scripts/demo_sqlite.py\<close>,
  lines 76--92) run on CPython's generator of \<open>PyRandom\<close> instead of the abstract
  one of \<open>Generator\<close>. A computation \<open>'a py_rand\<close> takes the twister's output
  stream and either never returns (\<open>None\<close>: a rejection loop that never accepts),
  raises (\<open>Inl\<close>: \<^verbatim>\<open>ValueError\<close>), or returns a value and the rest of the stream;
  \<open>py_bind\<close> is Python's sequencing of statements, an exception ending the run.
  Four judgements on such computations, each closed under \<open>py_bind\<close>:
  \<open>py_refines\<close> (every result is a result of the abstract model, for the draws
  consumed), \<open>py_live\<close> (it returns on every stream whose top bit is clear
  infinitely often), \<open>py_stuck_only\<close> (it fails to return only when from some
  point every output is rejected by one of the ranges drawn from) and
  \<open>py_never_raises\<close>.
\<close>

type_synonym 'a py_rand = "mt_stream \<Rightarrow> (random_error + 'a \<times> mt_stream) option"

definition py_return :: "'a \<Rightarrow> 'a py_rand" where
  "py_return x \<rho> = Some (Inr (x, \<rho>))"

definition py_bind :: "'a py_rand \<Rightarrow> ('a \<Rightarrow> 'b py_rand) \<Rightarrow> 'b py_rand" where
  "py_bind m f \<rho> =
     (case m \<rho> of None \<Rightarrow> None | Some (Inl e) \<Rightarrow> Some (Inl e) | Some (Inr (x, \<rho>')) \<Rightarrow> f x \<rho>')"

definition random_call :: "rat py_rand" where
  "random_call \<rho> = Some (Inr (random_py \<rho>))"

text \<open>The loop body, call for call as \<open>gen_shipment\<close>.\<close>

definition gen_shipment_py :: "shipment_values py_rand" where
  "gen_shipment_py =
     py_bind (randint_py 1 5) (\<lambda>p_id.
     py_bind (randint_py 1 5) (\<lambda>s_id.
     py_bind (randint_py 1 3) (\<lambda>w_id.
     py_bind (randint_py 100 2000) (\<lambda>qty.
     py_bind (randint_py 0 180) (\<lambda>off.
     let order_dt = add_days start_date (nat off);
         lead_time = lead_of s_id in
     py_bind random_call (\<lambda>x.
     py_bind (if x < py_0_3 then randint_py 5 15 else randint_py (-1) 2) (\<lambda>extra.
     let actual_days = lead_time + extra;
         delivery_dt = add_days order_dt (nat (max 1 actual_days)) in
     py_return (p_id, s_id, w_id, qty, iso_date order_dt, iso_date delivery_dt))))))))"

primrec gen_loop_py :: "nat \<Rightarrow> db \<Rightarrow> db py_rand" where
  "gen_loop_py 0 s = py_return s"
| "gen_loop_py (Suc n) s = py_bind gen_shipment_py (\<lambda>v. gen_loop_py n (insert_shipment s v))"

definition setup_database_py :: "db py_rand" where
  "setup_database_py = gen_loop_py 50 base_db"

section \<open>Judgements on computations\<close>

definition py_refines :: "'a py_rand \<Rightarrow> 'a rand \<Rightarrow> bool" where
  "py_refines m a \<longleftrightarrow>
     (\<forall>\<rho> x \<rho>'. m \<rho> = Some (Inr (x, \<rho>')) \<longrightarrow> (\<exists>ds. \<forall>\<sigma>. run_state a (ds @- \<sigma>) = (x, \<sigma>)))"

definition msb_clear_often :: "mt_stream \<Rightarrow> bool" where
  "msb_clear_often \<rho> \<longleftrightarrow> (\<forall>j. \<exists>i \<ge> j. \<rho> !! i < 2 ^ 31)"

definition py_live :: "'a py_rand \<Rightarrow> bool" where
  "py_live m \<longleftrightarrow>
     (\<forall>\<rho>. msb_clear_often \<rho> \<longrightarrow> (\<exists>x \<rho>'. m \<rho> = Some (Inr (x, \<rho>')) \<and> msb_clear_often \<rho>'))"

definition stuck_at :: "nat set \<Rightarrow> mt_stream \<Rightarrow> bool" where
  "stuck_at N \<rho> \<longleftrightarrow> (\<exists>i. \<exists>n \<in> N. \<forall>j \<ge> i. n \<le> bits_of (bit_length n) (\<rho> !! j))"

definition py_stuck_only :: "nat set \<Rightarrow> 'a py_rand \<Rightarrow> bool" where
  "py_stuck_only N m \<longleftrightarrow>
     (\<forall>\<rho>. (m \<rho> = None \<longrightarrow> stuck_at N \<rho>) \<and>
        (\<forall>x \<rho>'. m \<rho> = Some (Inr (x, \<rho>')) \<longrightarrow> (\<exists>k. \<rho>' = sdrop k \<rho>)))"

definition py_never_raises :: "'a py_rand \<Rightarrow> bool" where
  "py_never_raises m \<longleftrightarrow> (\<forall>\<rho> e. m \<rho> \<noteq> Some (Inl e))"

text \<open>The sizes of the ranges the loop body draws from.\<close>

definition demo_widths :: "nat set" where
  "demo_widths = {5, 3, 1901, 181, 11, 4}"


section \<open>Refinement\<close>


lemma py_refines_return: "py_refines (py_return x) (State_Monad.return x)"
  unfolding py_refines_def py_return_def by (auto intro: exI [of _ "[]"])

lemma py_refines_bind:
  assumes m: "py_refines m a" and f: "\<And>x. py_refines (f x) (g x)"
  shows "py_refines (py_bind m f) (a \<bind> g)"
  unfolding py_refines_def
proof (intro allI impI)
  fix \<rho> y \<rho>''
  assume r: "py_bind m f \<rho> = Some (Inr (y, \<rho>''))"
  then obtain x \<rho>' where x: "m \<rho> = Some (Inr (x, \<rho>'))" and fx: "f x \<rho>' = Some (Inr (y, \<rho>''))"
    by (auto simp: py_bind_def split: option.splits sum.splits)
  obtain ds1 where d1: "\<forall>\<sigma>. run_state a (ds1 @- \<sigma>) = (x, \<sigma>)"
    using m x unfolding py_refines_def by blast
  obtain ds2 where d2: "\<forall>\<sigma>. run_state (g x) (ds2 @- \<sigma>) = (y, \<sigma>)"
    using f [of x] fx unfolding py_refines_def by blast
  have "\<forall>\<sigma>. run_state (a \<bind> g) ((ds1 @ ds2) @- \<sigma>) = (y, \<sigma>)"
    using d1 d2 by (simp add: shift_append)
  then show "\<exists>ds. \<forall>\<sigma>. run_state (a \<bind> g) (ds @- \<sigma>) = (y, \<sigma>)" by blast
qed

lemma py_refines_if:
  "py_refines m1 a1 \<Longrightarrow> py_refines m2 a2 \<Longrightarrow> py_refines (if c then m1 else m2) (if c then a1 else a2)"
  by simp

lemma py_refines_randint: "py_refines (randint_py a b) (randint a b)"
  unfolding py_refines_def
proof (intro allI impI)
  fix \<rho> x \<rho>'
  assume "randint_py a b \<rho> = Some (Inr (x, \<rho>'))"
  then obtain r where w: "0 < b + 1 - a" and r: "randbelow (nat (b + 1 - a)) \<rho> = Some (r, \<rho>')"
    and x: "x = a + int r"
    by (auto simp: randint_py_def randrange_py_def Let_def split: if_splits)
  have "r < nat (b + 1 - a)" using randbelow_Some [OF r] by blast
  then have "int r mod (b - a + 1) = int r" using w by simp
  then have "\<forall>\<sigma>. run_state (randint a b) ([r] @- \<sigma>) = (x, \<sigma>)"
    using x by (simp add: randint_def draw_def)
  then show "\<exists>ds. \<forall>\<sigma>. run_state (randint a b) (ds @- \<sigma>) = (x, \<sigma>)" by blast
qed

lemma py_refines_random: "py_refines random_call random_float"
  unfolding py_refines_def
proof (intro allI impI)
  fix \<rho> x \<rho>'
  assume "random_call \<rho> = Some (Inr (x, \<rho>'))"
  then have x: "x = fst (random_py \<rho>)" by (simp add: random_call_def prod_eq_iff)
  obtain k where "k < 9007199254740992" "fst (random_py \<rho>) = of_nat k / 9007199254740992"
    using random_py_fraction by blast
  then have "\<forall>\<sigma>. run_state random_float ([k] @- \<sigma>) = (x, \<sigma>)"
    using x random_float_value by simp
  then show "\<exists>ds. \<forall>\<sigma>. run_state random_float (ds @- \<sigma>) = (x, \<sigma>)" by blast
qed

lemmas py_refines_rules = py_refines_return py_refines_bind py_refines_if py_refines_randint py_refines_random

lemma gen_shipment_py_refines: "py_refines gen_shipment_py gen_shipment"
  unfolding gen_shipment_py_def gen_shipment_def Let_def
  by (intro py_refines_rules)

lemma gen_loop_py_refines: "py_refines (gen_loop_py n s) (gen_loop n s)"
  by (induction n arbitrary: s) (simp_all add: py_refines_rules gen_shipment_py_refines)

lemma bits_of_msb_clear:
  assumes n: "0 < n" "n \<le> 2 ^ 31" and w: "w < (2 ^ 31 :: 32 word)"
  shows "bits_of (bit_length n) w < n"
proof -
  let ?k = "bit_length n"
  have b: "2 ^ ?k \<le> 2 * n" "n < 2 ^ ?k" using bit_length_bounds [OF n(1)] by auto
  have "(2::nat) ^ ?k \<le> 2 ^ 32" using b(1) n(2) by simp
  then have k32: "?k \<le> 32" by (rule power_le_imp_le_exp [rotated]) simp
  have k1: "1 \<le> ?k" using b(2) n(1) by (cases ?k) auto
  have pow: "(2::nat) ^ 31 = 2 ^ (?k - 1) * 2 ^ (32 - ?k)"
    using k1 k32 by (simp flip: power_add)
  have "unat w < 2 ^ 31" using w by (simp add: word_less_nat_alt)
  then have "unat w div 2 ^ (32 - ?k) < 2 ^ (?k - 1)"
    unfolding pow by (simp add: less_mult_imp_div_less)
  moreover have "(2::nat) ^ (?k - 1) \<le> n"
    using b(1) k1 by (cases ?k) auto
  moreover have "bits_of ?k w = unat w div 2 ^ (32 - ?k)"
    by (simp only: bits_of_def unat_drop_bit_eq) (simp add: drop_bit_eq_div)
  ultimately show ?thesis by linarith
qed

lemma msb_clear_often_sdrop: "msb_clear_often \<rho> \<Longrightarrow> msb_clear_often (sdrop k \<rho>)"
  unfolding msb_clear_often_def
proof (intro allI)
  fix j
  assume "\<forall>j. \<exists>i \<ge> j. \<rho> !! i < 2 ^ 31"
  then obtain i where "k + j \<le> i" "\<rho> !! i < 2 ^ 31" by blast
  then show "\<exists>i \<ge> j. sdrop k \<rho> !! i < 2 ^ 31"
    by (intro exI [of _ "i - k"]) (simp add: sdrop_snth)
qed

section \<open>Liveness\<close>

lemma py_live_return: "py_live (py_return x)"
  by (simp add: py_live_def py_return_def)

lemma py_live_bind: "py_live m \<Longrightarrow> (\<And>x. py_live (f x)) \<Longrightarrow> py_live (py_bind m f)"
  unfolding py_live_def py_bind_def by (metis (no_types, lifting) option.simps(5) sum.simps(6) case_prod_conv)

lemma py_live_if: "py_live m1 \<Longrightarrow> py_live m2 \<Longrightarrow> py_live (if c then m1 else m2)"
  by simp

lemma py_live_randint:
  assumes "a \<le> b" "b - a < 2 ^ 31"
  shows "py_live (randint_py a b)"
  unfolding py_live_def
proof (intro allI impI)
  fix \<rho>
  assume often: "msb_clear_often \<rho>"
  let ?n = "nat (b + 1 - a)"
  obtain i where "\<rho> !! i < 2 ^ 31" using often unfolding msb_clear_often_def by blast
  moreover have "0 < ?n" "?n \<le> 2 ^ 31" using assms by auto
  ultimately have "bits_of (bit_length ?n) (\<rho> !! i) < ?n" by (simp add: bits_of_msb_clear)
  then obtain r \<rho>' where r: "randbelow ?n \<rho> = Some (r, \<rho>')"
    using randbelow_loop_returns unfolding randbelow_def by blast
  then obtain k where "\<rho>' = sdrop k \<rho>" using randbelow_Some by blast
  then have "msb_clear_often \<rho>'" using often msb_clear_often_sdrop by blast
  moreover have "randint_py a b \<rho> = Some (Inr (a + int r, \<rho>'))"
    using r assms(1) by (simp add: randint_py_def randrange_py_def)
  ultimately show "\<exists>x \<rho>'. randint_py a b \<rho> = Some (Inr (x, \<rho>')) \<and> msb_clear_often \<rho>'" by blast
qed

lemma random_call_sdrop: "random_call \<rho> = Some (Inr (x, \<rho>')) \<Longrightarrow> \<rho>' = sdrop 2 \<rho>"
  by (auto simp: random_call_def random_py_def Let_def numeral_2_eq_2)

lemma py_live_random: "py_live random_call"
  unfolding py_live_def
  by (metis msb_clear_often_sdrop prod.collapse random_call_def random_call_sdrop)

lemmas py_live_rules = py_live_return py_live_bind py_live_if py_live_random

lemma gen_shipment_py_live: "py_live gen_shipment_py"
  unfolding gen_shipment_py_def Let_def
  by (intro py_live_rules py_live_randint) simp_all

lemma gen_loop_py_live: "py_live (gen_loop_py n s)"
  by (induction n arbitrary: s) (simp_all add: py_live_rules gen_shipment_py_live)

section \<open>Divergence only in a rejection loop\<close>

lemma stuck_at_sdrop: "stuck_at N (sdrop k \<rho>) \<Longrightarrow> stuck_at N \<rho>"
  unfolding stuck_at_def
proof (elim exE bexE)
  fix i n
  assume n: "n \<in> N" and all: "\<forall>j \<ge> i. n \<le> bits_of (bit_length n) (sdrop k \<rho> !! j)"
  have "\<forall>j \<ge> k + i. n \<le> bits_of (bit_length n) (\<rho> !! j)"
  proof (intro allI impI)
    fix j
    assume "k + i \<le> j"
    then show "n \<le> bits_of (bit_length n) (\<rho> !! j)"
      using all [rule_format, of "j - k"] by (simp add: sdrop_snth)
  qed
  with n show "\<exists>i. \<exists>n \<in> N. \<forall>j \<ge> i. n \<le> bits_of (bit_length n) (\<rho> !! j)" by blast
qed

lemma py_stuck_only_return: "py_stuck_only N (py_return x)"
  by (auto simp: py_stuck_only_def py_return_def intro: exI [of _ 0])

lemma py_stuck_only_bind:
  assumes m: "py_stuck_only N m" and f: "\<And>x. py_stuck_only N (f x)"
  shows "py_stuck_only N (py_bind m f)"
  unfolding py_stuck_only_def
proof (intro allI conjI impI)
  fix \<rho>
  show "py_bind m f \<rho> = None \<Longrightarrow> stuck_at N \<rho>"
  proof (cases "m \<rho>")
    case None
    then show ?thesis using m unfolding py_stuck_only_def by blast
  next
    case (Some r)
    assume none: "py_bind m f \<rho> = None"
    then obtain x \<rho>' where x: "m \<rho> = Some (Inr (x, \<rho>'))" "f x \<rho>' = None"
      using Some by (auto simp: py_bind_def split: sum.splits)
    then obtain k where "\<rho>' = sdrop k \<rho>" using m unfolding py_stuck_only_def by blast
    with x(2) f [of x] show ?thesis unfolding py_stuck_only_def by (metis stuck_at_sdrop)
  qed
next
  fix \<rho> y \<rho>''
  assume "py_bind m f \<rho> = Some (Inr (y, \<rho>''))"
  then obtain x \<rho>' where x: "m \<rho> = Some (Inr (x, \<rho>'))" "f x \<rho>' = Some (Inr (y, \<rho>''))"
    by (auto simp: py_bind_def split: option.splits sum.splits)
  obtain k1 where "\<rho>' = sdrop k1 \<rho>" using m x(1) unfolding py_stuck_only_def by blast
  moreover obtain k2 where "\<rho>'' = sdrop k2 \<rho>'" using f [of x] x(2) unfolding py_stuck_only_def by blast
  ultimately show "\<exists>k. \<rho>'' = sdrop k \<rho>" by (auto simp: sdrop_add)
qed

lemma py_stuck_only_if:
  "py_stuck_only N m1 \<Longrightarrow> py_stuck_only N m2 \<Longrightarrow> py_stuck_only N (if c then m1 else m2)"
  by simp

lemma py_stuck_only_randint:
  assumes "nat (b + 1 - a) \<in> N"
  shows "py_stuck_only N (randint_py a b)"
  unfolding py_stuck_only_def
proof (intro allI conjI impI)
  fix \<rho>
  assume none: "randint_py a b \<rho> = None"
  let ?n = "nat (b + 1 - a)"
  have "randbelow ?n \<rho> = None"
    using none by (auto simp: randint_py_def randrange_py_def Let_def split: if_splits)
  then have "\<forall>j \<ge> 0. ?n \<le> bits_of (bit_length ?n) (\<rho> !! j)" by (simp add: randbelow_diverges_iff)
  with assms show "stuck_at N \<rho>" unfolding stuck_at_def by blast
next
  fix \<rho> x \<rho>'
  assume "randint_py a b \<rho> = Some (Inr (x, \<rho>'))"
  then obtain r where "randbelow (nat (b + 1 - a)) \<rho> = Some (r, \<rho>')"
    by (auto simp: randint_py_def randrange_py_def Let_def split: if_splits)
  then show "\<exists>k. \<rho>' = sdrop k \<rho>" using randbelow_Some by blast
qed

lemma py_stuck_only_random: "py_stuck_only N random_call"
  unfolding py_stuck_only_def by (metis option.distinct(1) random_call_def random_call_sdrop)

lemmas py_stuck_only_rules = py_stuck_only_return py_stuck_only_bind py_stuck_only_if py_stuck_only_random

lemma gen_shipment_py_stuck_only: "py_stuck_only demo_widths gen_shipment_py"
  unfolding gen_shipment_py_def Let_def
  by (intro py_stuck_only_rules py_stuck_only_randint) (simp_all add: demo_widths_def)

lemma gen_loop_py_stuck_only: "py_stuck_only demo_widths (gen_loop_py n s)"
  by (induction n arbitrary: s) (simp_all add: py_stuck_only_rules gen_shipment_py_stuck_only)

section \<open>No \<^verbatim>\<open>ValueError\<close>\<close>

lemma py_never_raises_return: "py_never_raises (py_return x)"
  by (simp add: py_never_raises_def py_return_def)

lemma py_never_raises_bind:
  "py_never_raises m \<Longrightarrow> (\<And>x. py_never_raises (f x)) \<Longrightarrow> py_never_raises (py_bind m f)"
  unfolding py_never_raises_def py_bind_def by (auto split: option.splits sum.splits)

lemma py_never_raises_if:
  "py_never_raises m1 \<Longrightarrow> py_never_raises m2 \<Longrightarrow> py_never_raises (if c then m1 else m2)"
  by simp

lemma py_never_raises_randint: "a \<le> b \<Longrightarrow> py_never_raises (randint_py a b)"
  by (auto simp: py_never_raises_def randint_py_def randrange_py_def)

lemma py_never_raises_random: "py_never_raises random_call"
  by (simp add: py_never_raises_def random_call_def)

lemmas py_never_raises_rules =
  py_never_raises_return py_never_raises_bind py_never_raises_if py_never_raises_random

lemma gen_shipment_py_never_raises: "py_never_raises gen_shipment_py"
  unfolding gen_shipment_py_def Let_def
  by (intro py_never_raises_rules py_never_raises_randint) simp_all

lemma gen_loop_py_never_raises: "py_never_raises (gen_loop_py n s)"
  by (induction n arbitrary: s) (simp_all add: py_never_raises_rules gen_shipment_py_never_raises)

section \<open>Properties of the script run on CPython's generator\<close>

text \<open>C19. Liveness: on every stream of twister outputs whose top bit is clear
  infinitely often, the 50 iterations of the shipment loop return (each rejection
  loop accepts any output below \<open>2^31\<close>, since every range is at most
  \<open>2^31\<close> wide).\<close>

theorem setup_database_py_returns:
  "msb_clear_often \<rho> \<Longrightarrow> \<exists>d \<rho>'. setup_database_py \<rho> = Some (Inr (d, \<rho>'))"
  using gen_loop_py_live [of 50 base_db] unfolding setup_database_py_def py_live_def by blast

text \<open>C20. Termination: the loop fails to finish only if, from some output on,
  every output is rejected by the rejection loop of one of the ranges it draws from
  (sizes 5, 3, 1901, 181, 11 and 4).\<close>

theorem setup_database_py_diverges:
  "setup_database_py \<rho> = None \<Longrightarrow>
     \<exists>i. \<exists>n \<in> {5, 3, 1901, 181, 11, 4}. \<forall>j \<ge> i. n \<le> bits_of (bit_length n) (\<rho> !! j)"
  using gen_loop_py_stuck_only [of 50 base_db]
  unfolding setup_database_py_def py_stuck_only_def stuck_at_def demo_widths_def by blast

text \<open>C21. No run of the loop raises \<^verbatim>\<open>ValueError\<close>: every range passed to
  \<^verbatim>\<open>randint\<close> is non-empty.\<close>

theorem setup_database_py_never_raises: "setup_database_py \<rho> \<noteq> Some (Inl e)"
  using gen_loop_py_never_raises [of 50 base_db] unfolding setup_database_py_def py_never_raises_def by blast

end
