(* ===== verification/Reports.thy ===== *)
theory Reports
  imports Delays
begin

text \<open>
  Analyses 1--3 of \<^verbatim>\<open>run_analysis\<close> (\<^verbatim>\<open>src/scripts/demo_sqlite.py\<close>, lines
  125--174), each a \<^verbatim>\<open>GROUP BY\<close> over the rows of \<^verbatim>\<open>Shipment_Delays\<close>:
  \<^item> suppliers: \<^verbatim>\<open>COUNT(*)\<close>, \<^verbatim>\<open>COUNT(CASE WHEN delay_days > 0 THEN 1 END)\<close>,
    \<^verbatim>\<open>ROUND(AVG(delay_days), 2)\<close>, \<^verbatim>\<open>ORDER BY avg_delay DESC LIMIT 5\<close>;
  \<^item> warehouses: \<^verbatim>\<open>COUNT(*)\<close>, \<^verbatim>\<open>ROUND(AVG(delay_days), 2)\<close> and
    \<^verbatim>\<open>RANK() OVER (ORDER BY AVG(delay_days) DESC)\<close>, no LIMIT;
  \<^item> products: \<^verbatim>\<open>ROUND(AVG(delay_days), 2)\<close>,
    \<^verbatim>\<open>SUM(CASE WHEN delay_days > 5 THEN 1 ELSE 0 END)\<close>, \<^verbatim>\<open>ORDER BY avg_delay DESC LIMIT 3\<close>.
  \<^verbatim>\<open>ORDER BY avg_delay\<close> names the result column, so the supplier and product
  reports sort on the rounded average; the warehouse RANK orders by the unrounded
  \<^verbatim>\<open>AVG(delay_days)\<close>. SQL fixes no order among equal keys; the model sorts
  stably from the group order (ascending name), and the lemmas that matter are
  proved for every order SQL admits.
\<close>

section \<open>Supplier ranking\<close>

record supplier_stat =
  ss_name :: string
  total_shipments :: nat
  delayed_count :: nat
  ss_avg_delay :: "rat option"

definition supplier_agg :: "string \<times> delay_row list \<Rightarrow> supplier_stat" where
  "supplier_agg kg =
     (let (k, g) = kg in
      \<lparr>ss_name = k,
       total_shipments = length g,
       delayed_count = sql_count (map (\<lambda>r. sql_case (sql_gt (delay_days r) 0) (Some (1::int)) None) g),
       ss_avg_delay = map_option sql_round2 (sql_avg (map delay_days g))\<rparr>)"

definition supplier_groups :: "delay_row list \<Rightarrow> supplier_stat list" where
  "supplier_groups rows = map supplier_agg (group_by supplier_name rows)"

definition top_suppliers :: "delay_row list \<Rightarrow> supplier_stat list" where
  "top_suppliers rows = take 5 (sort_desc ss_avg_delay (supplier_groups rows))"

section \<open>Warehouse ranking\<close>

record warehouse_stat =
  ws_name :: string
  volume :: nat
  ws_avg_raw :: "rat option"
  ws_avg_delay :: "rat option"

record warehouse_rank_row =
  wr_name :: string
  wr_volume :: nat
  wr_avg_delay :: "rat option"
  wr_rank :: nat

definition warehouse_agg :: "string \<times> delay_row list \<Rightarrow> warehouse_stat" where
  "warehouse_agg kg =
     (let (k, g) = kg; a = sql_avg (map delay_days g) in
      \<lparr>ws_name = k, volume = length g, ws_avg_raw = a, ws_avg_delay = map_option sql_round2 a\<rparr>)"

text \<open>\<^verbatim>\<open>RANK() OVER (ORDER BY f DESC)\<close>: one more than the number of rows of the
  partition whose key is strictly larger.\<close>

definition sql_rank :: "('a \<Rightarrow> 'k::linorder) \<Rightarrow> 'a list \<Rightarrow> 'a \<Rightarrow> nat" where
  "sql_rank f xs x = Suc (length (filter (\<lambda>y. f x < f y) xs))"

definition warehouse_groups :: "delay_row list \<Rightarrow> warehouse_stat list" where
  "warehouse_groups rows = map warehouse_agg (group_by warehouse_name rows)"

text \<open>The window is evaluated over the rows sorted by its ORDER BY, and they come
  out in that order.\<close>

definition rank_warehouses :: "warehouse_stat list \<Rightarrow> warehouse_rank_row list" where
  "rank_warehouses gs =
     map (\<lambda>g. \<lparr>wr_name = ws_name g, wr_volume = volume g, wr_avg_delay = ws_avg_delay g,
               wr_rank = sql_rank ws_avg_raw gs g\<rparr>)
       (sort_desc ws_avg_raw gs)"

definition warehouse_ranking :: "delay_row list \<Rightarrow> warehouse_rank_row list" where
  "warehouse_ranking rows = rank_warehouses (warehouse_groups rows)"

section \<open>Product impact\<close>

record product_stat =
  ps_name :: string
  ps_avg_delay :: "rat option"
  severe_delays :: sql_int

definition product_agg :: "string \<times> delay_row list \<Rightarrow> product_stat" where
  "product_agg kg =
     (let (k, g) = kg in
      \<lparr>ps_name = k,
       ps_avg_delay = map_option sql_round2 (sql_avg (map delay_days g)),
       severe_delays = sql_sum (map (\<lambda>r. sql_case (sql_gt (delay_days r) 5) (Some 1) (Some 0)) g)\<rparr>)"

definition product_groups :: "delay_row list \<Rightarrow> product_stat list" where
  "product_groups rows = map product_agg (group_by product_name rows)"

definition top_products :: "delay_row list \<Rightarrow> product_stat list" where
  "top_products rows = take 3 (sort_desc ps_avg_delay (product_groups rows))"

section \<open>Shared facts\<close>

lemma sorted_desc_take_drop:
  assumes "sorted_desc f ys" "x \<in> set (take n ys)" "y \<in> set (drop n ys)"
  shows "f y \<le> f x"
proof -
  have "sorted_wrt (\<lambda>a b. f b \<le> f a) (take n ys @ drop n ys)"
    using assms(1) by (simp only: append_take_drop_id sorted_desc_def)
  then have "\<forall>a \<in> set (take n ys). \<forall>b \<in> set (drop n ys). f b \<le> f a"
    unfolding sorted_wrt_append by blast
  with assms(2,3) show ?thesis by blast
qed

lemma sql_count_case_gt:
  "sql_count (map (\<lambda>r. sql_case (sql_gt (delay_days r) c) (Some (1::int)) None) g) =
     length (filter (\<lambda>r. \<exists>d. delay_days r = Some d \<and> c < d) g)"
  by (induction g) (auto simp: sql_count_def sql_case_def sql_gt_def)

lemma sum_list_indicator: "sum_list (map (\<lambda>x. if P x then 1 else 0) xs) = int (length (filter P xs))"
  by (induction xs) auto

lemma sql_sum_case_gt:
  "g \<noteq> [] \<Longrightarrow> sql_sum (map (\<lambda>r. sql_case (sql_gt (delay_days r) c) (Some 1) (Some 0)) g) =
     Some (int (length (filter (\<lambda>r. \<exists>d. delay_days r = Some d \<and> c < d) g)))"
proof -
  assume g: "g \<noteq> []"
  have eq: "map (\<lambda>r. sql_case (sql_gt (delay_days r) c) (Some 1) (Some 0)) g =
      map Some (map (\<lambda>r. if \<exists>d. delay_days r = Some d \<and> c < d then 1 else 0) g)"
    by (auto simp: sql_case_def sql_gt_def)
  show ?thesis
    unfolding sql_sum_def eq nonnull_map_Some using g by (simp add: sum_list_indicator)
qed

lemmas report_defs = supplier_groups_def warehouse_groups_def product_groups_def
  supplier_agg_def warehouse_agg_def product_agg_def


lemma sql_rank_mono: "f x \<le> f y \<Longrightarrow> sql_rank f xs y \<le> sql_rank f xs x"
  unfolding sql_rank_def by (auto intro: length_filter_weaker)

lemma sql_rank_strict:
  assumes "f x < f y" "y \<in> set xs"
  shows "sql_rank f xs y < sql_rank f xs x"
proof -
  have "length (filter (\<lambda>z. f y < f z) xs) < length (filter (\<lambda>z. f x < f z) xs)"
    by (rule length_filter_weaker_strict [OF _ assms(2)]) (use assms(1) in auto)
  then show ?thesis by (simp add: sql_rank_def)
qed

lemma sql_rank_max: "\<forall>z \<in> set xs. f z \<le> f x \<Longrightarrow> sql_rank f xs x = 1"
  by (auto simp: sql_rank_def filter_empty_conv not_less)

lemma sorted_rank_of_sorted_desc:
  "sorted_desc f ys \<Longrightarrow> sorted (map (sql_rank f xs) ys)"
  by (induction ys) (auto simp: sorted_desc_def intro: sql_rank_mono)

lemma supplier_groups_member:
  "x \<in> set (supplier_groups rows) \<longleftrightarrow>
     (\<exists>k \<in> supplier_name ` set rows. x = supplier_agg (k, filter (\<lambda>r. supplier_name r = k) rows))"
  by (auto simp: supplier_groups_def group_by_def)

text \<open>Every average a report shows is the rounded average of a non-empty group of
  its input rows.\<close>

lemma group_by_subset:
  assumes "(k, g) \<in> set (group_by key rows)"
  shows "g \<noteq> [] \<and> set g \<subseteq> set rows"
proof -
  have "g = filter (\<lambda>r. key r = k) rows" using assms unfolding group_by_member by blast
  then show ?thesis using group_by_nonempty [OF assms] by simp
qed

lemma top_suppliers_avg:
  assumes "x \<in> set (top_suppliers rows)"
  shows "\<exists>g. g \<noteq> [] \<and> set g \<subseteq> set rows \<and> ss_avg_delay x = map_option sql_round2 (sql_avg (map delay_days g))"
proof -
  have "x \<in> set (supplier_groups rows)"
    using assms by (auto simp: top_suppliers_def dest: in_set_takeD)
  then obtain k g where kg: "(k, g) \<in> set (group_by supplier_name rows)" and x: "x = supplier_agg (k, g)"
    by (auto simp: supplier_groups_def)
  show ?thesis using group_by_subset [OF kg] by (intro exI [of _ g]) (simp add: x supplier_agg_def)
qed

lemma warehouse_ranking_avg:
  assumes "w \<in> set (warehouse_ranking rows)"
  shows "\<exists>g. g \<noteq> [] \<and> set g \<subseteq> set rows \<and> wr_avg_delay w = map_option sql_round2 (sql_avg (map delay_days g))"
proof -
  obtain v where v: "v \<in> set (warehouse_groups rows)" and w: "wr_avg_delay w = ws_avg_delay v"
    using assms by (auto simp: warehouse_ranking_def rank_warehouses_def)
  then obtain k g where kg: "(k, g) \<in> set (group_by warehouse_name rows)" and "v = warehouse_agg (k, g)"
    by (auto simp: warehouse_groups_def)
  then show ?thesis
    using group_by_subset [OF kg] w by (intro exI [of _ g]) (simp add: warehouse_agg_def Let_def)
qed

lemma top_products_avg:
  assumes "p \<in> set (top_products rows)"
  shows "\<exists>g. g \<noteq> [] \<and> set g \<subseteq> set rows \<and> ps_avg_delay p = map_option sql_round2 (sql_avg (map delay_days g))"
proof -
  have "p \<in> set (product_groups rows)"
    using assms by (auto simp: top_products_def dest: in_set_takeD)
  then obtain k g where kg: "(k, g) \<in> set (group_by product_name rows)" and x: "p = product_agg (k, g)"
    by (auto simp: product_groups_def)
  show ?thesis using group_by_subset [OF kg] by (intro exI [of _ g]) (simp add: x product_agg_def)
qed

lemmas report_avg_groups = top_suppliers_avg warehouse_ranking_avg top_products_avg

section \<open>Properties of the supplier ranking\<close>

text \<open>C2: the supplier report has at most five rows, is sorted by average delay,
  largest first, and lists only suppliers with at least one shipment.\<close>

theorem top_suppliers_shape:
  "length (top_suppliers rows) \<le> 5 \<and> sorted_desc ss_avg_delay (top_suppliers rows) \<and>
   (\<forall>x \<in> set (top_suppliers rows). 1 \<le> total_shipments x)"
proof -
  have "\<forall>x \<in> set (supplier_groups rows). 1 \<le> total_shipments x"
    by (auto simp: supplier_groups_def group_by_def supplier_agg_def filter_empty_conv
        Suc_le_eq length_pos_if_in_set)
  moreover have "set (top_suppliers rows) \<subseteq> set (supplier_groups rows)"
    by (auto simp: top_suppliers_def dest: in_set_takeD)
  ultimately show ?thesis
    by (auto simp: top_suppliers_def)
qed

text \<open>C3: the report does not depend on how SQL breaks ties: every result the
  \<^verbatim>\<open>ORDER BY avg_delay DESC\<close> admits has the same average column in its first
  five rows.\<close>

theorem top_suppliers_order_independent:
  assumes "order_by_desc ss_avg_delay (supplier_groups rows) ys"
  shows "map ss_avg_delay (take 5 ys) = map ss_avg_delay (top_suppliers rows)"
proof -
  have "map ss_avg_delay ys = map ss_avg_delay (sort_desc ss_avg_delay (supplier_groups rows))"
    using order_by_desc_keys [OF assms]
      order_by_desc_keys [OF order_by_desc_sort_desc [of ss_avg_delay "supplier_groups rows"]]
    by simp
  then show ?thesis
    by (simp add: top_suppliers_def flip: take_map)
qed

text \<open>C4: the five listed suppliers are the worst: a supplier group that is left
  out has an average delay no larger than that of any listed supplier.\<close>

theorem top_suppliers_dominate:
  assumes "y \<in> set (supplier_groups rows)" "y \<notin> set (top_suppliers rows)"
    and "x \<in> set (top_suppliers rows)"
  shows "ss_avg_delay y \<le> ss_avg_delay x"
proof -
  let ?ys = "sort_desc ss_avg_delay (supplier_groups rows)"
  have "y \<in> set (take 5 ?ys) \<union> set (drop 5 ?ys)"
    using assms(1) by (metis append_take_drop_id set_append set_sort_desc)
  with assms(2) have "y \<in> set (drop 5 ?ys)"
    by (auto simp: top_suppliers_def)
  moreover have "x \<in> set (take 5 ?ys)"
    using assms(3) by (simp add: top_suppliers_def)
  ultimately show ?thesis
    by (intro sorted_desc_take_drop [of ss_avg_delay ?ys]) simp_all
qed

text \<open>C5: each supplier row counts that supplier's shipments, counts those with a
  positive delay (a NULL delay is not counted), and averages their non-NULL delays.\<close>

theorem supplier_stat_values:
  assumes "x \<in> set (top_suppliers rows)"
  shows "ss_name x \<in> supplier_name ` set rows \<and>
    total_shipments x = length (filter (\<lambda>r. supplier_name r = ss_name x) rows) \<and>
    delayed_count x =
      length (filter (\<lambda>r. supplier_name r = ss_name x \<and> (\<exists>d. delay_days r = Some d \<and> 0 < d)) rows) \<and>
    ss_avg_delay x =
      map_option sql_round2 (sql_avg (map delay_days (filter (\<lambda>r. supplier_name r = ss_name x) rows)))"
proof -
  have "x \<in> set (supplier_groups rows)"
    using assms by (auto simp: top_suppliers_def dest: in_set_takeD)
  then obtain k where k: "k \<in> supplier_name ` set rows"
      and x: "x = supplier_agg (k, filter (\<lambda>r. supplier_name r = k) rows)"
    by (auto simp: supplier_groups_member)
  show ?thesis
    using k by (simp add: x supplier_agg_def sql_count_case_gt filter_filter conj_commute)
qed

section \<open>Properties of the warehouse ranking\<close>

text \<open>C6: the ranks in the warehouse report start at 1 and never decrease down the
  report.\<close>

theorem warehouse_ranks_sorted:
  "sorted (map wr_rank (warehouse_ranking rows)) \<and>
   (warehouse_ranking rows \<noteq> [] \<longrightarrow> wr_rank (hd (warehouse_ranking rows)) = 1)"
proof -
  let ?gs = "warehouse_groups rows"
  let ?ys = "sort_desc ws_avg_raw ?gs"
  have m: "map wr_rank (warehouse_ranking rows) = map (sql_rank ws_avg_raw ?gs) ?ys"
    by (simp add: warehouse_ranking_def rank_warehouses_def)
  have "sorted (map (sql_rank ws_avg_raw ?gs) ?ys)"
    by (rule sorted_rank_of_sorted_desc) simp
  moreover have "sql_rank ws_avg_raw ?gs (hd ?ys) = 1" if "?ys \<noteq> []"
  proof (rule sql_rank_max)
    have "sorted_wrt (\<lambda>a b. ws_avg_raw b \<le> ws_avg_raw a) (hd ?ys # tl ?ys)"
      using that sorted_desc_sort_desc [of ws_avg_raw ?gs] by (simp add: sorted_desc_def)
    then have "\<forall>z \<in> set ?ys. ws_avg_raw z \<le> ws_avg_raw (hd ?ys)"
      using that by (metis list.collapse order_refl set_ConsD sorted_wrt.simps(2))
    then show "\<forall>z \<in> set ?gs. ws_avg_raw z \<le> ws_avg_raw (hd ?ys)" by simp
  qed
  moreover have "warehouse_ranking rows \<noteq> [] \<Longrightarrow>
      wr_rank (hd (warehouse_ranking rows)) = sql_rank ws_avg_raw ?gs (hd ?ys) \<and> ?ys \<noteq> []"
    by (auto simp: warehouse_ranking_def rank_warehouses_def hd_map)
  ultimately show ?thesis
    using m by auto
qed

lemma warehouse_agg_fields:
  "ws_name (warehouse_agg (k, g)) = k" "volume (warehouse_agg (k, g)) = length g"
  "ws_avg_raw (warehouse_agg (k, g)) = sql_avg (map delay_days g)"
  "ws_avg_delay (warehouse_agg (k, g)) = map_option sql_round2 (sql_avg (map delay_days g))"
  by (simp_all add: warehouse_agg_def Let_def)

text \<open>C7: each row of the warehouse report is one warehouse of the CTE with its
  number of rows, its rounded average delay, and the rank \<^verbatim>\<open>RANK()\<close> gives it:
  one more than the number of warehouses whose unrounded average is strictly
  larger. So two warehouses that both show the same rounded average can get
  different ranks.\<close>

theorem warehouse_row_values:
  assumes "w \<in> set (warehouse_ranking rows)"
  shows "let avg = (\<lambda>k. sql_avg (map delay_days (filter (\<lambda>r. warehouse_name r = k) rows))) in
    wr_name w \<in> warehouse_name ` set rows \<and>
    wr_volume w = length (filter (\<lambda>r. warehouse_name r = wr_name w) rows) \<and>
    wr_avg_delay w = map_option sql_round2 (avg (wr_name w)) \<and>
    wr_rank w = Suc (card {k \<in> warehouse_name ` set rows. avg (wr_name w) < avg k})"
proof -
  let ?avg = "\<lambda>k. sql_avg (map delay_days (filter (\<lambda>r. warehouse_name r = k) rows))"
  let ?ks = "group_keys warehouse_name rows"
  let ?gs = "warehouse_groups rows"
  have gs: "?gs = map (\<lambda>k. warehouse_agg (k, filter (\<lambda>r. warehouse_name r = k) rows)) ?ks"
    by (simp add: warehouse_groups_def group_by_def)
  obtain g where g: "g \<in> set ?gs" and w: "w = \<lparr>wr_name = ws_name g, wr_volume = volume g,
      wr_avg_delay = ws_avg_delay g, wr_rank = sql_rank ws_avg_raw ?gs g\<rparr>"
    using assms by (auto simp: warehouse_ranking_def rank_warehouses_def)
  then obtain k where k: "k \<in> warehouse_name ` set rows"
      and gk: "g = warehouse_agg (k, filter (\<lambda>r. warehouse_name r = k) rows)"
    using gs by auto
  have "length (filter (\<lambda>y. ws_avg_raw g < ws_avg_raw y) ?gs) =
      length (filter (\<lambda>k'. ?avg k < ?avg k') ?ks)"
    by (simp add: gs gk warehouse_agg_fields filter_map comp_def)
  also have "\<dots> = card {k' \<in> warehouse_name ` set rows. ?avg k < ?avg k'}"
    by (simp add: distinct_length_filter Int_def conj_commute)
  finally have "sql_rank ws_avg_raw ?gs g = Suc (card {k' \<in> warehouse_name ` set rows. ?avg k < ?avg k'})"
    by (simp add: sql_rank_def)
  then show ?thesis using k by (simp add: w gk warehouse_agg_fields Let_def)
qed

section \<open>Properties of the product report\<close>

text \<open>C8: the product report has at most three rows, sorted by average delay, and
  each row's severe count is the number of that product's shipments delayed by
  more than five days.\<close>

theorem top_products_values:
  "length (top_products rows) \<le> 3 \<and> sorted_desc ps_avg_delay (top_products rows) \<and>
   (\<forall>x \<in> set (top_products rows).
      severe_delays x =
        Some (int (length (filter (\<lambda>r. product_name r = ps_name x \<and> (\<exists>d. delay_days r = Some d \<and> 5 < d)) rows))))"
proof -
  have "\<forall>x \<in> set (product_groups rows).
      severe_delays x =
        Some (int (length (filter (\<lambda>r. product_name r = ps_name x \<and> (\<exists>d. delay_days r = Some d \<and> 5 < d)) rows)))"
  proof
    fix x assume "x \<in> set (product_groups rows)"
    then obtain k where k: "k \<in> product_name ` set rows"
        and x: "x = product_agg (k, filter (\<lambda>r. product_name r = k) rows)"
      by (auto simp: product_groups_def group_by_def)
    have ne: "filter (\<lambda>r. product_name r = k) rows \<noteq> []"
      using k by (auto simp: filter_empty_conv)
    show "severe_delays x =
        Some (int (length (filter (\<lambda>r. product_name r = ps_name x \<and> (\<exists>d. delay_days r = Some d \<and> 5 < d)) rows)))"
      using ne by (simp add: x product_agg_def sql_sum_case_gt filter_filter conj_commute)
  qed
  moreover have "set (top_products rows) \<subseteq> set (product_groups rows)"
    by (auto simp: top_products_def dest: in_set_takeD)
  ultimately show ?thesis
    by (auto simp: top_products_def)
qed

text \<open>C24. A supplier whose rows all have a NULL delay (shipments still in transit)
  is not left out: it forms a group of the report with at least one shipment and
  a NULL average delay.\<close>

theorem null_group_kept:
  assumes "r \<in> set rows"
    and "\<forall>r' \<in> set rows. supplier_name r' = supplier_name r \<longrightarrow> delay_days r' = None"
  shows "\<exists>x \<in> set (supplier_groups rows). ss_name x = supplier_name r \<and> 1 \<le> total_shipments x \<and>
    ss_avg_delay x = None"
proof -
  let ?g = "filter (\<lambda>r'. supplier_name r' = supplier_name r) rows"
  have m: "supplier_agg (supplier_name r, ?g) \<in> set (supplier_groups rows)"
    using assms(1) by (auto simp: supplier_groups_member)
  have "set (nonnull (map delay_days ?g)) = {}"
    using assms(2) by auto
  then have n: "nonnull (map delay_days ?g) = []" by (simp only: set_empty)
  have "r \<in> set ?g" using assms(1) by (metis (mono_tags) mem_Collect_eq set_filter)
  then have l: "1 \<le> length ?g" by (metis One_nat_def Suc_leI length_pos_if_in_set)
  show ?thesis
    using m n l by (intro bexI [of _ "supplier_agg (supplier_name r, ?g)"]) (simp_all add: supplier_agg_def sql_avg_def)
qed

end
