(* ===== verification/Trend.thy ===== *)
theory Trend
  imports Reports
begin

text \<open>
  Analysis 4 of \<^verbatim>\<open>run_analysis\<close> (\<^verbatim>\<open>src/scripts/demo_sqlite.py\<close>, lines
  176--186): over the rows of \<^verbatim>\<open>Shipment_Delays\<close> ordered by
  \<^verbatim>\<open>order_date\<close>, the window average
  \<^verbatim>\<open>AVG(delay_days) OVER (ORDER BY order_date ROWS BETWEEN 4 PRECEDING AND CURRENT ROW)\<close>,
  rounded to two decimals; then \<^verbatim>\<open>ORDER BY order_date DESC LIMIT 10\<close>.
  The order date is text, so both orders compare strings. The window is
  computed here as SQLite computes it, by one scan that keeps the delays of the
  last four rows (\<open>rolling_scan\<close>); \<open>rolling_ref\<close> states the frame of the SQL
  standard by position, and the two are proved equal. Rows with equal order dates
  keep the order of the CTE (SQL leaves it open).
\<close>

record trend_row =
  tr_order_date :: string
  tr_delay :: sql_int
  tr_rolling :: "rat option"

text \<open>The scan: \<open>win\<close> holds the delays of up to four preceding rows, latest first.\<close>

fun rolling_scan :: "sql_int list \<Rightarrow> delay_row list \<Rightarrow> trend_row list" where
  "rolling_scan win [] = []"
| "rolling_scan win (r # rs) =
     (let w = delay_days r # win in
      \<lparr>tr_order_date = dr_order_date r, tr_delay = delay_days r,
       tr_rolling = map_option sql_round2 (sql_avg w)\<rparr> # rolling_scan (take 4 w) rs)"

text \<open>The frame \<^verbatim>\<open>ROWS BETWEEN 4 PRECEDING AND CURRENT ROW\<close> of the row at
  position \<open>i\<close>: positions \<open>max 0 (i - 4)\<close> to \<open>i\<close>.\<close>

definition frame :: "'a list \<Rightarrow> nat \<Rightarrow> 'a list" where
  "frame xs i = take (Suc i - (i - 4)) (drop (i - 4) xs)"

definition rolling_row :: "delay_row list \<Rightarrow> nat \<Rightarrow> trend_row" where
  "rolling_row xs i =
     \<lparr>tr_order_date = dr_order_date (xs ! i), tr_delay = delay_days (xs ! i),
      tr_rolling = map_option sql_round2 (sql_avg (map delay_days (frame xs i)))\<rparr>"

definition rolling_ref :: "delay_row list \<Rightarrow> trend_row list" where
  "rolling_ref xs = map (rolling_row xs) [0..<length xs]"

text \<open>The window's \<^verbatim>\<open>ORDER BY order_date\<close>, a stable sort of the CTE rows.\<close>

definition window_order :: "delay_row list \<Rightarrow> delay_row list" where
  "window_order rows = sort_key dr_order_date rows"

definition delay_trend :: "delay_row list \<Rightarrow> trend_row list" where
  "delay_trend rows = take 10 (sort_desc tr_order_date (rolling_scan [] (window_order rows)))"

section \<open>The scan computes the frame\<close>

lemma take4_cons_take4: "take 4 (x # take 4 xs) = take 4 (x # xs)"
  by (simp add: numeral_eq_Suc)

lemma frame_at_end:
  "frame (pre @ r # rs) (length pre) = drop (length pre - 4) pre @ [r]"
  by (simp add: frame_def)

lemma rolling_scan_frame:
  "rolling_scan (take 4 (rev (map delay_days pre))) rs =
     map (\<lambda>i. rolling_row (pre @ rs) (length pre + i)) [0..<length rs]"
proof (induction rs arbitrary: pre)
  case Nil
  then show ?case by simp
next
  case (Cons r rs)
  let ?n = "length pre"
  have win: "take 4 (delay_days r # take 4 (rev (map delay_days pre))) =
      take 4 (rev (map delay_days (pre @ [r])))"
    by (simp add: take4_cons_take4)
  have perm: "mset (delay_days r # take 4 (rev (map delay_days pre))) =
      mset (map delay_days (frame (pre @ r # rs) ?n))"
    by (simp add: frame_at_end take_rev drop_map)
  have hd: "rolling_row (pre @ r # rs) ?n =
      \<lparr>tr_order_date = dr_order_date r, tr_delay = delay_days r,
       tr_rolling = map_option sql_round2 (sql_avg (delay_days r # take 4 (rev (map delay_days pre))))\<rparr>"
    using sql_avg_perm [OF perm] by (simp add: rolling_row_def)
  have tl: "map (\<lambda>i. rolling_row ((pre @ [r]) @ rs) (length (pre @ [r]) + i)) [0..<length rs] =
      map (\<lambda>i. rolling_row (pre @ r # rs) (?n + Suc i)) [0..<length rs]"
    by simp
  show ?case
    using Cons.IH [of "pre @ [r]"]
    by (simp only: rolling_scan.simps Let_def win hd tl length_Cons map_upt_Suc add_0_right)
qed

section \<open>Facts the properties share\<close>

lemma rolling_scan_bounds:
  assumes "\<forall>v \<in> set (nonnull win). lo \<le> v \<and> v \<le> hi"
    and "\<forall>r \<in> set rs. \<forall>d. delay_days r = Some d \<longrightarrow> lo \<le> d \<and> d \<le> hi"
    and "t \<in> set (rolling_scan win rs)" "tr_rolling t = Some a"
  shows "of_int lo \<le> a \<and> a \<le> of_int hi"
  using assms
proof (induction win rs rule: rolling_scan.induct)
  case (1 win)
  then show ?case by simp
next
  case (2 win r rs)
  let ?w = "delay_days r # win"
  have w: "\<forall>v \<in> set (nonnull ?w). lo \<le> v \<and> v \<le> hi"
    using "2.prems"(1,2) by (cases "delay_days r") auto
  have wt: "\<forall>v \<in> set (nonnull (take 4 ?w)). lo \<le> v \<and> v \<le> hi"
  proof -
    have "set (nonnull (take 4 ?w)) \<subseteq> set (nonnull ?w)"
      by (metis append_take_drop_id nonnull_append set_append sup_ge1)
    with w show ?thesis by blast
  qed
  have "t = \<lparr>tr_order_date = dr_order_date r, tr_delay = delay_days r,
        tr_rolling = map_option sql_round2 (sql_avg ?w)\<rparr> \<or> t \<in> set (rolling_scan (take 4 ?w) rs)"
    using "2.prems"(3) by (simp add: Let_def)
  then show ?case
  proof
    assume t: "t = \<lparr>tr_order_date = dr_order_date r, tr_delay = delay_days r,
        tr_rolling = map_option sql_round2 (sql_avg ?w)\<rparr>"
    then obtain b where "sql_avg ?w = Some b" "a = sql_round2 b"
      using "2.prems"(4) by auto
    with w show ?thesis
      using sql_avg_bounds [of ?w b lo hi] sql_round2_bounds [of lo b hi] by simp
  next
    assume "t \<in> set (rolling_scan (take 4 ?w) rs)"
    with "2.IH" [OF refl wt] "2.prems"(2,4) show ?thesis by simp
  qed
qed

lemma rolling_scan_Some:
  "\<forall>r \<in> set rs. delay_days r \<noteq> None \<Longrightarrow> t \<in> set (rolling_scan win rs) \<Longrightarrow> tr_rolling t \<noteq> None"
proof (induction win rs rule: rolling_scan.induct)
  case (1 win)
  then show ?case by simp
next
  case (2 win r rs)
  then obtain d where "delay_days r = Some d" by auto
  then have "sql_avg (delay_days r # win) \<noteq> None"
    by (simp add: sql_avg_def)
  with 2 show ?case by (auto simp: Let_def)
qed

lemma hd_sort_key_least:
  assumes "xs \<noteq> []"
  shows "hd (sort_key f xs) \<in> set xs \<and> (\<forall>y \<in> set xs. f (hd (sort_key f xs)) \<le> f y)"
proof -
  obtain h t where ht: "sort_key f xs = h # t"
    using assms length_sort [of f xs] by (cases "sort_key f xs") auto
  have "sorted (f h # map f t)" using sorted_sort_key [of f xs] ht by simp
  then have le: "\<forall>y \<in> set t. f h \<le> f y" by simp
  have "set xs = insert h (set t)" using set_sort [of f xs] ht by simp
  with le ht show ?thesis by auto
qed

lemma length_rolling_scan [simp]: "length (rolling_scan win rs) = length rs"
  by (induction win rs rule: rolling_scan.induct) (simp_all add: Let_def)

lemma rolling_scan_member:
  "t \<in> set (rolling_scan win rs) \<Longrightarrow>
     \<exists>r \<in> set rs. tr_order_date t = dr_order_date r \<and> tr_delay t = delay_days r"
  by (induction win rs rule: rolling_scan.induct) (auto simp: Let_def)

lemma set_window_order [simp]: "set (window_order rows) = set rows"
  by (simp add: window_order_def)

lemma delay_trend_member: "t \<in> set (delay_trend rows) \<Longrightarrow> t \<in> set (rolling_scan [] (window_order rows))"
  by (metis delay_trend_def in_set_takeD set_sort_desc)

lemma length_delay_trend [simp]: "length (delay_trend rows) = min 10 (length rows)"
  by (simp add: delay_trend_def window_order_def)

section \<open>Properties of the trend report\<close>

text \<open>The single scan SQLite performs computes, at every position of the
  window order, the rounded average of the delays in the frame
  \<^verbatim>\<open>ROWS BETWEEN 4 PRECEDING AND CURRENT ROW\<close>.\<close>

lemma rolling_scan_refines: "rolling_scan [] xs = rolling_ref xs"
  using rolling_scan_frame [of "[]" xs] by (simp add: rolling_ref_def)

text \<open>C9. The shipment ordered strictly first has no preceding rows in its
  frame: its rolling average is its own delay.\<close>

theorem trend_first_row:
  assumes "r \<in> set rows"
    and "\<forall>r' \<in> set rows. dr_order_date r \<le> dr_order_date r' \<and> (dr_order_date r' = dr_order_date r \<longrightarrow> r' = r)"
    and "delay_days r = Some d"
  shows "hd (rolling_scan [] (window_order rows)) =
           \<lparr>tr_order_date = dr_order_date r, tr_delay = Some d, tr_rolling = Some (of_int d)\<rparr>"
proof -
  have ne: "rows \<noteq> []" using assms(1) by auto
  have "window_order rows \<noteq> []" using ne by (metis set_empty set_window_order)
  then obtain h t where ht: "window_order rows = h # t" by (meson list.exhaust)
  have "h \<in> set rows \<and> (\<forall>y \<in> set rows. dr_order_date h \<le> dr_order_date y)"
    using hd_sort_key_least [OF ne, of dr_order_date] ht by (simp add: window_order_def)
  with assms(1,2) have "h = r" by (metis order_antisym)
  with ht assms(3) show ?thesis by simp
qed

text \<open>C10. The trend report has \<open>min 10 n\<close> rows for \<open>n\<close> rows of the CTE,
  latest order date first, and every row is the date and delay of a shipment of
  the CTE.\<close>

theorem delay_trend_shape:
  "length (delay_trend rows) = min 10 (length rows) \<and> sorted_desc tr_order_date (delay_trend rows) \<and>
   (\<forall>t \<in> set (delay_trend rows). \<exists>r \<in> set rows.
      tr_order_date t = dr_order_date r \<and> tr_delay t = delay_days r)"
  using rolling_scan_member delay_trend_member
  by (fastforce simp: delay_trend_def window_order_def)

end
