(* ===== verification/Analysis.thy ===== *)
theory Analysis
  imports Trend Generator
begin

text \<open>
  The whole demo (\<^verbatim>\<open>src/scripts/demo_sqlite.py\<close>): \<^verbatim>\<open>run_analysis\<close>
  (lines 97--186) runs the four queries, each over the common table expression
  \<^verbatim>\<open>Shipment_Delays\<close> of the same database, and the \<^verbatim>\<open>__main__\<close> block
  (lines 192--195) builds the database and analyses it. The printing is left out:
  \<open>analysis\<close> holds the rows each query fetches.
\<close>

record analysis =
  an_suppliers :: "supplier_stat list"
  an_warehouses :: "warehouse_rank_row list"
  an_products :: "product_stat list"
  an_trend :: "trend_row list"

definition run_analysis :: "db \<Rightarrow> analysis" where
  "run_analysis s =
     \<lparr>an_suppliers = top_suppliers (shipment_delays s),
      an_warehouses = warehouse_ranking (shipment_delays s),
      an_products = top_products (shipment_delays s),
      an_trend = delay_trend (shipment_delays s)\<rparr>"

definition main :: "analysis rand" where
  "main = do { s \<leftarrow> setup_database; State_Monad.return (run_analysis s) }"

section \<open>The demo's reports\<close>

lemma demo_rows_bounded:
  "\<forall>r \<in> set (shipment_delays (fst (run_state setup_database \<rho>))).
     \<exists>d. delay_days r = Some d \<and> -1 \<le> d \<and> d \<le> 15"
proof
  fix r
  assume "r \<in> set (shipment_delays (fst (run_state setup_database \<rho>)))"
  then obtain lt e where "delay_days r = Some e" "5 \<le> e \<and> e \<le> 15 \<or> -1 \<le> e \<and> e \<le> 2"
    using demo_delay_rows [of \<rho>] by blast
  then show "\<exists>d. delay_days r = Some d \<and> -1 \<le> d \<and> d \<le> 15" by auto
qed

lemma bounded_avg:
  assumes "\<forall>r \<in> set rows. \<exists>d. delay_days r = Some d \<and> -1 \<le> d \<and> d \<le> 15"
    and "g \<noteq> []" "set g \<subseteq> set rows"
  shows "\<exists>a. map_option sql_round2 (sql_avg (map delay_days g)) = Some a \<and> -1 \<le> a \<and> a \<le> 15"
proof -
  have "\<forall>r \<in> set g. \<exists>d. delay_days r = Some d \<and> -1 \<le> d \<and> d \<le> 15" using assms(1,3) by blast
  from rounded_avg_bounds [OF assms(2) this] obtain a
    where "map_option sql_round2 (sql_avg (map delay_days g)) = Some a" "of_int (-1) \<le> a" "a \<le> of_int 15"
    by blast
  then show ?thesis by (intro exI [of _ a]) simp
qed

lemma bounded_report:
  assumes "\<forall>r \<in> set rows. \<exists>d. delay_days r = Some d \<and> -1 \<le> d \<and> d \<le> 15"
    and "\<And>x. x \<in> set xs \<Longrightarrow>
      \<exists>g. g \<noteq> [] \<and> set g \<subseteq> set rows \<and> f x = map_option sql_round2 (sql_avg (map delay_days g))"
  shows "list_all (\<lambda>x. \<exists>a. f x = Some a \<and> -1 \<le> a \<and> a \<le> 15) xs"
  unfolding list_all_iff
proof
  fix x
  assume "x \<in> set xs"
  then obtain g where g: "g \<noteq> []" "set g \<subseteq> set rows"
      and x: "f x = map_option sql_round2 (sql_avg (map delay_days g))"
    using assms(2) by blast
  show "\<exists>a. f x = Some a \<and> -1 \<le> a \<and> a \<le> 15" unfolding x by (rule bounded_avg [OF assms(1) g])
qed

lemma bounded_trend:
  assumes "\<forall>r \<in> set rows. \<exists>d. delay_days r = Some d \<and> -1 \<le> d \<and> d \<le> 15"
  shows "list_all (\<lambda>t. \<exists>a. tr_rolling t = Some a \<and> -1 \<le> a \<and> a \<le> 15) (delay_trend rows)"
  unfolding list_all_iff
proof
  fix t
  assume "t \<in> set (delay_trend rows)"
  then have t: "t \<in> set (rolling_scan [] (window_order rows))" by (rule delay_trend_member)
  have "\<forall>r \<in> set (window_order rows). delay_days r \<noteq> None" using assms by auto
  then obtain a where a: "tr_rolling t = Some a" using rolling_scan_Some [OF _ t] by blast
  have "\<forall>r \<in> set (window_order rows). \<forall>d. delay_days r = Some d \<longrightarrow> -1 \<le> d \<and> d \<le> 15"
    using assms by fastforce
  then have "of_int (-1) \<le> a \<and> a \<le> of_int 15"
    using rolling_scan_bounds [of "[]" "-1" 15 "window_order rows" t a] t a by simp
  then show "\<exists>a. tr_rolling t = Some a \<and> -1 \<le> a \<and> a \<le> 15" using a by simp
qed

text \<open>C17. Whatever the random draws, every average the demo prints is a number
  (never NULL) between -1 and 15 days, in all four reports, and the trend report
  has its full 10 rows.\<close>

theorem demo_reports_bounded:
  "pred_state (\<lambda>R. length (an_trend R) = 10 \<and>
      list_all (\<lambda>x. \<exists>a. ss_avg_delay x = Some a \<and> -1 \<le> a \<and> a \<le> 15) (an_suppliers R) \<and>
      list_all (\<lambda>w. \<exists>a. wr_avg_delay w = Some a \<and> -1 \<le> a \<and> a \<le> 15) (an_warehouses R) \<and>
      list_all (\<lambda>p. \<exists>a. ps_avg_delay p = Some a \<and> -1 \<le> a \<and> a \<le> 15) (an_products R) \<and>
      list_all (\<lambda>t. \<exists>a. tr_rolling t = Some a \<and> -1 \<le> a \<and> a \<le> 15) (an_trend R)) main"
proof (rule pred_stateI)
  fix R \<rho> \<rho>'
  assume run: "run_state main \<rho> = (R, \<rho>')"
  let ?rows = "shipment_delays (fst (run_state setup_database \<rho>))"
  have R: "R = run_analysis (fst (run_state setup_database \<rho>))"
    using run by (simp add: main_def split: prod.splits)
  have b: "\<forall>r \<in> set ?rows. \<exists>d. delay_days r = Some d \<and> -1 \<le> d \<and> d \<le> 15"
    by (rule demo_rows_bounded)
  have n: "length ?rows = 50" using demo_delay_rows [of \<rho>] by blast
  show "length (an_trend R) = 10 \<and>
      list_all (\<lambda>x. \<exists>a. ss_avg_delay x = Some a \<and> -1 \<le> a \<and> a \<le> 15) (an_suppliers R) \<and>
      list_all (\<lambda>w. \<exists>a. wr_avg_delay w = Some a \<and> -1 \<le> a \<and> a \<le> 15) (an_warehouses R) \<and>
      list_all (\<lambda>p. \<exists>a. ps_avg_delay p = Some a \<and> -1 \<le> a \<and> a \<le> 15) (an_products R) \<and>
      list_all (\<lambda>t. \<exists>a. tr_rolling t = Some a \<and> -1 \<le> a \<and> a \<le> 15) (an_trend R)"
  proof -
    have "list_all (\<lambda>x. \<exists>a. ss_avg_delay x = Some a \<and> -1 \<le> a \<and> a \<le> 15) (top_suppliers ?rows)"
      by (rule bounded_report [OF b]) (rule top_suppliers_avg)
    moreover have "list_all (\<lambda>w. \<exists>a. wr_avg_delay w = Some a \<and> -1 \<le> a \<and> a \<le> 15)
        (warehouse_ranking ?rows)"
      by (rule bounded_report [OF b]) (rule warehouse_ranking_avg)
    moreover have "list_all (\<lambda>p. \<exists>a. ps_avg_delay p = Some a \<and> -1 \<le> a \<and> a \<le> 15) (top_products ?rows)"
      by (rule bounded_report [OF b]) (rule top_products_avg)
    ultimately show ?thesis
      unfolding R run_analysis_def analysis.simps using n bounded_trend [OF b] by simp
  qed
qed

text \<open>C23. An empty Shipments table is not an error: all four reports are empty
  lists.\<close>

theorem run_analysis_empty:
  assumes "shipments s = []"
  shows "run_analysis s = \<lparr>an_suppliers = [], an_warehouses = [], an_products = [], an_trend = []\<rparr>"
proof -
  have "shipment_delays s = []" using assms by (simp add: shipment_delays_def)
  then show ?thesis
    by (simp add: run_analysis_def top_suppliers_def supplier_groups_def warehouse_ranking_def
        rank_warehouses_def warehouse_groups_def top_products_def product_groups_def delay_trend_def
        window_order_def)
qed

end
