(* ===== verification/GenScript.thy ===== *)
theory GenScript
  imports Generator
begin

text \<open>
  \<^verbatim>\<open>generate_data()\<close> (\<^verbatim>\<open>src/scripts/generate_data.py\<close>): it writes an SQL script
  instead of a database. Ten suppliers, ten products and five warehouses become
  one \<^verbatim>\<open>INSERT\<close> statement each, then 150 random shipments, and the statements
  are joined with newlines. The text of a statement is the f-string of the source:
  integers printed by \<^verbatim>\<open>str\<close> (\<open>int_text\<close>), strings and dates pasted between
  single quotes without escaping (\<open>sql_str\<close>), dates printed by
  \<^verbatim>\<open>date.__str__\<close>, which is \<open>iso_date\<close>. The random draws reuse the
  generator of \<open>Generator\<close>. Writing the file is not modelled; the text written is
  the result of \<open>generate_data\<close>. \<open>split_lines\<close> reads the file back line by line,
  as the consumer of the script does.
\<close>

definition gd_suppliers :: "(string \<times> string \<times> int) list" where
  "gd_suppliers =
     [(''Global Tech Parts'', ''San Jose, CA'', 5),
      (''Precision Manufacturing'', ''Detroit, MI'', 10),
      (''Asia Logistics Hub'', ''Singapore'', 15),
      (''Euro Component Co'', ''Berlin, Germany'', 12),
      (''Coastal Supplies'', ''Seattle, WA'', 7),
      (''Northern Iron & Steel'', ''Chicago, IL'', 20),
      (''South Sea Electronics'', ''Shenzhen, China'', 25),
      (''Latin America Freight'', ''Mexico City'', 18),
      (''Mountain Raw Materials'', ''Denver, CO'', 14),
      (''Island Precision'', ''Tokyo, Japan'', 22)]"

definition gd_products :: "(string \<times> string) list" where
  "gd_products =
     [(''Microprocessor X1'', ''Electronics''),
      (''Industrial Grade Steel'', ''Raw Materials''),
      (''LCD Display Panel'', ''Electronics''),
      (''Aluminum Casing'', ''Components''),
      (''Lithium Battery Pack'', ''Components''),
      (''Hydraulic Valve'', ''Industrial''),
      (''Copper Wiring 500m'', ''Raw Materials''),
      (''Control Circuit Board'', ''Electronics''),
      (''High-Torque Motor'', ''Industrial''),
      (''Graphite Electrode'', ''Raw Materials'')]"

definition gd_warehouses :: "(string \<times> string) list" where
  "gd_warehouses =
     [(''East Coast Distribution Center'', ''Newark, NJ''),
      (''West Coast Hub'', ''Long Beach, CA''),
      (''Central Logistics Base'', ''Memphis, TN''),
      (''European Gateway'', ''Rotterdam, Netherlands''),
      (''Asia-Pacific Depot'', ''Hong Kong'')]"

section \<open>Statement text\<close>

text \<open>\<^verbatim>\<open>str(n)\<close> for an integer: decimal digits, no leading zeros, a minus sign
  when negative.\<close>

fun nat_text :: "nat \<Rightarrow> string" where
  "nat_text n = (if n < 10 then [digit_char n] else nat_text (n div 10) @ [digit_char (n mod 10)])"

declare nat_text.simps [simp del]

definition int_text :: "int \<Rightarrow> string" where
  "int_text i = (if i < 0 then ''-'' @ nat_text (nat (- i)) else nat_text (nat i))"

text \<open>\<^verbatim>\<open>'{x}'\<close> in an f-string: the text between two quote characters, unescaped.\<close>

definition sql_str :: "string \<Rightarrow> string" where
  "sql_str x = CHR 0x27 # x @ [CHR 0x27]"

definition supplier_sql :: "string \<times> string \<times> int \<Rightarrow> string" where
  "supplier_sql r = (case r of (name, loc, lt) \<Rightarrow>
     ''INSERT INTO Suppliers (name, location, lead_time_days) VALUES ('' @ sql_str name @ '', '' @
     sql_str loc @ '', '' @ int_text lt @ '');'')"

definition product_sql :: "string \<times> string \<Rightarrow> string" where
  "product_sql r = (case r of (name, cat) \<Rightarrow>
     ''INSERT INTO Products (name, category) VALUES ('' @ sql_str name @ '', '' @ sql_str cat @ '');'')"

definition warehouse_sql :: "string \<times> string \<Rightarrow> string" where
  "warehouse_sql r = (case r of (name, loc) \<Rightarrow>
     ''INSERT INTO Warehouses (name, location) VALUES ('' @ sql_str name @ '', '' @ sql_str loc @ '');'')"

definition shipment_sql :: "int \<Rightarrow> int \<Rightarrow> int \<Rightarrow> int \<Rightarrow> date \<Rightarrow> date \<Rightarrow> string" where
  "shipment_sql p s w q od dd =
     ''INSERT INTO Shipments (product_id, supplier_id, warehouse_id, quantity, order_date, delivery_date) '' @
     ''VALUES ('' @ int_text p @ '', '' @ int_text s @ '', '' @ int_text w @ '', '' @ int_text q @ '', '' @
     sql_str (iso_date od) @ '', '' @ sql_str (iso_date dd) @ '');''"

section \<open>The shipment loop and the script\<close>

text \<open>One iteration of \<^verbatim>\<open>for i in range(1, 151)\<close> (lines 56--77). In the
  delayed branch the delivery is \<open>lead + 5 .. lead + 30\<close> days later; otherwise
  \<open>lead - 2 .. lead + 3\<close>, raised to 1 when below 1.\<close>

definition script_shipment :: "string rand" where
  "script_shipment = do {
     p_id \<leftarrow> randint 1 (int (length gd_products));
     s_id \<leftarrow> randint 1 (int (length gd_suppliers));
     w_id \<leftarrow> randint 1 (int (length gd_warehouses));
     qty \<leftarrow> randint 100 5000;
     off \<leftarrow> randint 0 365;
     let order_date = add_days start_date (nat off);
     let avg_lead_time = snd (snd (gd_suppliers ! nat (s_id - 1)));
     x \<leftarrow> random_float;
     actual_days \<leftarrow>
       (if x < py_0_3 then do { e \<leftarrow> randint 5 30; State_Monad.return (avg_lead_time + e) }
        else do {
          e \<leftarrow> randint (-2) 3;
          let a = avg_lead_time + e;
          State_Monad.return (if a < 1 then 1 else a) });
     let delivery_date = add_days order_date (nat actual_days);
     State_Monad.return (shipment_sql p_id s_id w_id qty order_date delivery_date)
   }"

primrec script_loop :: "nat \<Rightarrow> string list rand" where
  "script_loop 0 = State_Monad.return []"
| "script_loop (Suc n) = do { st \<leftarrow> script_shipment; sts \<leftarrow> script_loop n; State_Monad.return (st # sts) }"

text \<open>\<^verbatim>\<open>"\n".join(sql_statements)\<close>.\<close>

fun join_lines :: "string list \<Rightarrow> string" where
  "join_lines [] = []"
| "join_lines [x] = x"
| "join_lines (x # y # ys) = x @ CHR 0x0A # join_lines (y # ys)"

definition generate_data :: "string rand" where
  "generate_data = do {
     sts \<leftarrow> script_loop 150;
     State_Monad.return (join_lines (map supplier_sql gd_suppliers @ map product_sql gd_products @
       map warehouse_sql gd_warehouses @ sts))
   }"

text \<open>Reading the script back, one statement per line.\<close>

fun split_lines :: "string \<Rightarrow> string list" where
  "split_lines [] = [[]]"
| "split_lines (c # cs) =
     (if c = CHR 0x0A then [] # split_lines cs
      else (case split_lines cs of l # ls \<Rightarrow> (c # l) # ls | [] \<Rightarrow> [[c]]))"

text \<open>What a shipment line of the script may be.\<close>

definition script_line_ok :: "string \<Rightarrow> bool" where
  "script_line_ok l \<longleftrightarrow> (\<exists>p s w q od dd. l = shipment_sql p s w q od dd \<and>
     1 \<le> p \<and> p \<le> 10 \<and> 1 \<le> s \<and> s \<le> 10 \<and> 1 \<le> w \<and> w \<le> 5 \<and> 100 \<le> q \<and> q \<le> 5000 \<and>
     valid_date od \<and> valid_date dd \<and> toordinal start_date \<le> toordinal od \<and>
     toordinal od \<le> toordinal start_date + 365 \<and> toordinal od + 1 \<le> toordinal dd)"

section \<open>Lines\<close>

lemma split_lines_no_nl: "CHR 0x0A \<notin> set x \<Longrightarrow> split_lines x = [x]"
  by (induction x) auto

lemma split_lines_nl:
  "CHR 0x0A \<notin> set x \<Longrightarrow> split_lines (x @ CHR 0x0A # rest) = x # split_lines rest"
  by (induction x) (auto split: list.splits)

lemma split_join_lines:
  "xs \<noteq> [] \<Longrightarrow> list_all (\<lambda>x. CHR 0x0A \<notin> set x) xs \<Longrightarrow> split_lines (join_lines xs) = xs"
  by (induction xs rule: join_lines.induct) (simp_all add: split_lines_no_nl split_lines_nl)

lemma nat_text_digits: "list_all is_digit (nat_text n)"
  by (induction n rule: nat_text.induct) (subst nat_text.simps, simp add: is_digit_digit_char)

lemma digits_value_nat_text: "digits_value (nat_text n) = int n"
proof (induction n rule: nat_text.induct)
  case (1 n)
  show ?case
  proof (cases "n < 10")
    case True
    then show ?thesis by (subst nat_text.simps) (simp add: digits_value_def digit_val_digit_char)
  next
    case False
    then have "digits_value (nat_text n) = int (n div 10) * 10 + int (n mod 10)"
      using "1.IH" by (subst nat_text.simps) (simp add: digits_value_append digit_val_digit_char)
    then show ?thesis by (metis div_mult_mod_eq of_nat_add of_nat_mult of_nat_numeral)
  qed
qed

lemma digits_no_nl: "list_all is_digit cs \<Longrightarrow> CHR 0x0A \<notin> set cs"
proof
  assume "list_all is_digit cs" "CHR 0x0A \<in> set cs"
  then have "is_digit (CHR 0x0A)" by (simp add: list_all_iff)
  then show False by (simp add: is_digit_def)
qed

lemma int_text_no_nl: "CHR 0x0A \<notin> set (int_text i)"
  using digits_no_nl [OF nat_text_digits] by (simp add: int_text_def)

lemma iso_date_no_nl: "CHR 0x0A \<notin> set (iso_date d)"
  using digits_no_nl [OF digits_fixed_digits] by (simp add: iso_date_def)

lemma shipment_sql_no_nl: "CHR 0x0A \<notin> set (shipment_sql p s w q od dd)"
  by (simp add: shipment_sql_def sql_str_def int_text_no_nl iso_date_no_nl)

lemma fixed_lines_no_nl:
  "list_all (\<lambda>x. CHR 0x0A \<notin> set x)
     (map supplier_sql gd_suppliers @ map product_sql gd_products @ map warehouse_sql gd_warehouses)"
  by (simp add: gd_suppliers_def gd_products_def gd_warehouses_def supplier_sql_def product_sql_def
      warehouse_sql_def sql_str_def int_text_no_nl)

section \<open>The shipment lines\<close>

lemma gd_lead_range:
  "1 \<le> s \<Longrightarrow> s \<le> 10 \<Longrightarrow>
     5 \<le> snd (snd (gd_suppliers ! nat (s - 1))) \<and> snd (snd (gd_suppliers ! nat (s - 1))) \<le> 25"
proof -
  assume "1 \<le> s" "s \<le> 10"
  then have "nat (s - 1) < length gd_suppliers" by (simp add: gd_suppliers_def)
  then have "gd_suppliers ! nat (s - 1) \<in> set gd_suppliers" by (rule nth_mem)
  moreover have "\<forall>r \<in> set gd_suppliers. 5 \<le> snd (snd r) \<and> snd (snd r) \<le> 25"
    by (simp add: gd_suppliers_def)
  ultimately show ?thesis by blast
qed

lemma gd_lead_nonneg: "1 \<le> s \<Longrightarrow> s \<le> 10 \<Longrightarrow> 0 \<le> snd (snd (gd_suppliers ! nat (s - 1)))"
  using gd_lead_range by fastforce

lemma gd_lengths [simp]:
  "length gd_suppliers = 10" "length gd_products = 10" "length gd_warehouses = 5"
  by (simp_all add: gd_suppliers_def gd_products_def gd_warehouses_def)

lemma actual_days_ok:
  "0 \<le> lead \<Longrightarrow> pred_state (\<lambda>a. 1 \<le> a \<and> a \<le> lead + 30)
     (if c then randint 5 30 \<bind> (\<lambda>e. State_Monad.return (lead + e))
      else randint (-2) 3 \<bind> (\<lambda>e. State_Monad.return (if lead + e < 1 then 1 else lead + e)))"
  by (cases c) (auto intro!: randint_bind_pred)

lemma script_leaf:
  assumes "1 \<le> p" "p \<le> 10" "1 \<le> s" "s \<le> 10" "1 \<le> w" "w \<le> 5" "100 \<le> q" "q \<le> 5000"
    and "0 \<le> off" "off \<le> 365" "1 \<le> a" "a \<le> snd (snd (gd_suppliers ! nat (s - 1))) + 30"
  shows "script_line_ok (shipment_sql p s w q (add_days start_date (nat off))
           (add_days (add_days start_date (nat off)) (nat a)))"
proof -
  have "a \<le> 55" using gd_lead_range [OF assms(3,4)] assms(12) by linarith
  then have v: "valid_date (add_days start_date (nat off))"
      "valid_date (add_days (add_days start_date (nat off)) (nat a))"
    using assms(10) valid_from_start valid_from_start2 by simp_all
  have o: "toordinal (add_days start_date (nat off)) = toordinal start_date + off"
    and d: "toordinal (add_days (add_days start_date (nat off)) (nat a)) =
      toordinal (add_days start_date (nat off)) + a"
    using toordinal_add_days [OF valid_start, of "nat off"] assms(9,11)
      toordinal_add_days [OF valid_add_days [OF valid_start], of "nat off" "nat a"] by simp_all
  show ?thesis
    unfolding script_line_ok_def using assms v o d
    by (intro exI [of _ p] exI [of _ s] exI [of _ w] exI [of _ q] exI [of _ "add_days start_date (nat off)"]
        exI [of _ "add_days (add_days start_date (nat off)) (nat a)"]) simp
qed

lemma script_shipment_ok: "pred_state script_line_ok script_shipment"
  unfolding script_shipment_def Let_def
  by (intro randint_bind_pred random_bind_pred pred_state_bind_conseq [OF actual_days_ok])
    (simp_all add: script_leaf gd_lead_nonneg)

lemma script_loop_ok: "pred_state (\<lambda>sts. length sts = n \<and> list_all script_line_ok sts) (script_loop n)"
proof (induction n)
  case 0
  then show ?case by simp
next
  case (Suc n)
  show ?case
    unfolding script_loop.simps
    by (rule pred_state_bind_conseq [OF script_shipment_ok] pred_state_bind_conseq [OF Suc.IH])+ simp
qed

lemma script_line_no_nl: "script_line_ok l \<Longrightarrow> CHR 0x0A \<notin> set l"
  by (auto simp: script_line_ok_def shipment_sql_no_nl)

lemma nat_text_Cons: "\<exists>c cs. nat_text n = c # cs \<and> is_digit c"
proof -
  have "nat_text n \<noteq> []" by (subst nat_text.simps) simp
  then show ?thesis using nat_text_digits [of n] by (cases "nat_text n") auto
qed

section \<open>Properties of the generated script\<close>

text \<open>C13. Whatever the random draws, the script read back line by line is one
  statement per line: the ten supplier, ten product and five warehouse inserts
  in the order of the source lists, then 150 shipment inserts whose keys are
  1-based positions in those lists, whose order date lies in the 366 days from
  2023-01-01, and whose delivery date is at least one day after the order date.\<close>

theorem generate_data_lines:
  "\<exists>sts. split_lines (fst (run_state generate_data \<rho>)) =
     map supplier_sql gd_suppliers @ map product_sql gd_products @ map warehouse_sql gd_warehouses @ sts \<and>
     length sts = 150 \<and> list_all script_line_ok sts"
proof -
  obtain sts \<rho>' where r: "run_state (script_loop 150) \<rho> = (sts, \<rho>')" by fastforce
  then have ok: "length sts = 150" "list_all script_line_ok sts"
    using pred_stateD [OF script_loop_ok r] by simp_all
  then have "list_all (\<lambda>x. CHR 0x0A \<notin> set x) sts"
    by (simp add: list_all_iff script_line_no_nl)
  then have "split_lines (join_lines (map supplier_sql gd_suppliers @ map product_sql gd_products @
      map warehouse_sql gd_warehouses @ sts)) =
      map supplier_sql gd_suppliers @ map product_sql gd_products @ map warehouse_sql gd_warehouses @ sts"
    using fixed_lines_no_nl by (intro split_join_lines) (simp_all add: gd_suppliers_def)
  then show ?thesis
    using r ok by (simp add: generate_data_def)
qed

end
