(* ===== verification/Printing.thy ===== *)
theory Printing
  imports Analysis GenScript
begin

text \<open>
  What \<^verbatim>\<open>run_analysis\<close> and the \<^verbatim>\<open>__main__\<close> block print
  (\<^verbatim>\<open>src/scripts/demo_sqlite.py\<close>, lines 100--102, 126--190 and 196). Each
  fetched column reaches Python as \<open>None\<close>, an \<open>int\<close>, a \<open>float\<close> or a
  \<open>str\<close> (\<open>py_value\<close>). An f-string field \<^verbatim>\<open>{x:<w}\<close> is
  \<^verbatim>\<open>format(x, '<w')\<close>: the text of \<open>x\<close> padded with spaces to width
  \<open>w\<close>, never cut (\<open>ljust\<close>); for \<open>None\<close> it raises \<^verbatim>\<open>TypeError\<close>
  (\<^verbatim>\<open>NoneType.__format__\<close> accepts only the empty format), while a plain field
  \<^verbatim>\<open>{x}\<close> prints \<^verbatim>\<open>None\<close>. A float from \<^verbatim>\<open>ROUND(..., 2)\<close> is the double
  nearest to \<open>k / 100\<close>, and Python's shortest round-trip repr prints it as the
  decimal \<open>k / 100\<close> with a trailing zero dropped (\<open>float_repr\<close>; all values here
  are far below \<open>10^16\<close>, where repr would switch to exponent notation). A
  rational has no signed zero: a negative average that rounds to zero prints
  \<^verbatim>\<open>0.0\<close> here where Python prints \<^verbatim>\<open>-0.0\<close>; the demo cannot meet it,
  a negative mean of at most 50 integer delays being at most -1/50.
  A run prints its lines in order until a field raises (\<open>run_prints\<close>).
\<close>

datatype py_value = PyNone | PyInt int | PyFloat rat | PyStr string

datatype py_error = TypeError

definition ljust :: "nat \<Rightarrow> string \<Rightarrow> string" where
  "ljust w s = s @ replicate (w - length s) CHR '' ''"

definition float_repr :: "rat \<Rightarrow> string" where
  "float_repr x =
     (let k = \<lfloor>x * 100\<rfloor>; a = nat \<bar>k\<bar>; f = a mod 100 in
      (if k < 0 then ''-'' else []) @ nat_text (a div 100) @ ''.'' @
      (if f mod 10 = 0 then [digit_char (f div 10)] else [digit_char (f div 10), digit_char (f mod 10)]))"

text \<open>\<^verbatim>\<open>str(x)\<close>, the text of a plain field \<^verbatim>\<open>{x}\<close>.\<close>

fun py_str :: "py_value \<Rightarrow> string" where
  "py_str PyNone = ''None''"
| "py_str (PyInt i) = int_text i"
| "py_str (PyFloat x) = float_repr x"
| "py_str (PyStr s) = s"

text \<open>\<^verbatim>\<open>format(x, '<w')\<close>.\<close>

fun format_ljust :: "nat \<Rightarrow> py_value \<Rightarrow> py_error + string" where
  "format_ljust w PyNone = Inl TypeError"
| "format_ljust w v = Inr (ljust w (py_str v))"

text \<open>The Python value of a fetched SQL column.\<close>

definition int_value :: "sql_int \<Rightarrow> py_value" where
  "int_value x = (case x of None \<Rightarrow> PyNone | Some i \<Rightarrow> PyInt i)"

definition real_value :: "rat option \<Rightarrow> py_value" where
  "real_value x = (case x of None \<Rightarrow> PyNone | Some r \<Rightarrow> PyFloat r)"

text \<open>An f-string: its pieces evaluated left to right, the first raise ending it.\<close>

fun fstring :: "(py_error + string) list \<Rightarrow> py_error + string" where
  "fstring [] = Inr []"
| "fstring (Inl e # ps) = Inl e"
| "fstring (Inr s # ps) = (case fstring ps of Inl e \<Rightarrow> Inl e | Inr t \<Rightarrow> Inr (s @ t))"

definition sep :: "py_error + string" where
  "sep = Inr '' | ''"

section \<open>The four tables\<close>

definition supplier_header :: string where
  "supplier_header = ljust 25 ''Supplier'' @ '' | '' @ ljust 6 ''Total'' @ '' | '' @
     ljust 8 ''Delayed'' @ '' | '' @ ljust 9 ''Avg Delay''"

definition supplier_line :: "supplier_stat \<Rightarrow> py_error + string" where
  "supplier_line r =
     fstring [format_ljust 25 (PyStr (ss_name r)), sep, format_ljust 6 (PyInt (int (total_shipments r))), sep,
       format_ljust 8 (PyInt (int (delayed_count r))), sep, format_ljust 9 (real_value (ss_avg_delay r))]"

definition warehouse_header :: string where
  "warehouse_header = ljust 35 ''Warehouse'' @ '' | '' @ ljust 6 ''Volume'' @ '' | '' @
     ljust 9 ''Avg Delay'' @ '' | '' @ ''Rank''"

definition warehouse_line :: "warehouse_rank_row \<Rightarrow> py_error + string" where
  "warehouse_line w =
     fstring [format_ljust 35 (PyStr (wr_name w)), sep, format_ljust 6 (PyInt (int (wr_volume w))), sep,
       format_ljust 9 (real_value (wr_avg_delay w)), sep, Inr (py_str (PyInt (int (wr_rank w))))]"

definition product_header :: string where
  "product_header = ljust 25 ''Product'' @ '' | '' @ ljust 9 ''Avg Delay'' @ '' | '' @ ''Severe Delays''"

definition product_line :: "product_stat \<Rightarrow> py_error + string" where
  "product_line p =
     fstring [format_ljust 25 (PyStr (ps_name p)), sep, format_ljust 9 (real_value (ps_avg_delay p)), sep,
       Inr (py_str (int_value (severe_delays p)))]"

definition trend_header :: string where
  "trend_header = ljust 12 ''Order Date'' @ '' | '' @ ljust 6 ''Delay'' @ '' | '' @ ''Rolling Avg''"

definition trend_line :: "trend_row \<Rightarrow> py_error + string" where
  "trend_line t =
     fstring [format_ljust 12 (PyStr (tr_order_date t)), sep, format_ljust 6 (int_value (tr_delay t)), sep,
       Inr (py_str (real_value (tr_rolling t)))]"

section \<open>The printed output\<close>

text \<open>The arguments of the \<^verbatim>\<open>print\<close> calls of \<^verbatim>\<open>run_analysis\<close>, in order.\<close>

definition analysis_prints :: "analysis \<Rightarrow> (py_error + string) list" where
  "analysis_prints R =
     [Inr (CHR 0x0A # replicate 60 (CHR ''='')), Inr ''SUPPLY CHAIN BOTTLENECK ANALYSIS (SQLite Demo)'',
      Inr (replicate 60 (CHR ''=''))] @
     [Inr (CHR 0x0A # ''[1] Top 5 Suppliers with Highest Average Delays:''), Inr supplier_header,
      Inr (replicate 60 (CHR ''-''))] @ map supplier_line (an_suppliers R) @
     [Inr (CHR 0x0A # ''[2] Warehouse Performance Ranking:''), Inr warehouse_header,
      Inr (replicate 60 (CHR ''-''))] @ map warehouse_line (an_warehouses R) @
     [Inr (CHR 0x0A # ''[3] Products Most Affected by Delays:''), Inr product_header,
      Inr (replicate 60 (CHR ''-''))] @ map product_line (an_products R) @
     [Inr (CHR 0x0A # ''[4] Recent Delivery Delay Trends (Rolling Avg of 5):''), Inr trend_header,
      Inr (replicate 35 (CHR ''-''))] @ map trend_line (an_trend R)"

text \<open>The lines printed before the first raise, and the raise if there is one.\<close>

fun run_prints :: "(py_error + string) list \<Rightarrow> string list \<times> py_error option" where
  "run_prints [] = ([], None)"
| "run_prints (Inl e # ps) = ([], Some e)"
| "run_prints (Inr s # ps) = (case run_prints ps of (out, err) \<Rightarrow> (s # out, err))"

definition run_analysis_output :: "db \<Rightarrow> string list \<times> py_error option" where
  "run_analysis_output s = run_prints (analysis_prints (run_analysis s))"

definition closing_line :: string where
  "closing_line = CHR 0x0A # ''Demo complete. Database saved to '' @ [CHR 0x27] @ ''supply_chain.db'' @
     [CHR 0x27] @ ''.''"

definition main_output :: "(string list \<times> py_error option) rand" where
  "main_output = do {
     s \<leftarrow> setup_database;
     State_Monad.return (case run_analysis_output s of
       (out, None) \<Rightarrow> (out @ [closing_line], None)
     | (out, Some e) \<Rightarrow> (out, Some e))
   }"

text \<open>The columns of the vertical bars of a line, counted from \<open>i\<close>.\<close>

fun bars_from :: "nat \<Rightarrow> string \<Rightarrow> nat list" where
  "bars_from i [] = []"
| "bars_from i (c # cs) = (if c = CHR ''|'' then [i] else []) @ bars_from (Suc i) cs"

definition bars :: "string \<Rightarrow> nat list" where
  "bars s = bars_from 0 s"


section \<open>Text pieces\<close>

lemma bars_from_append: "bars_from i (xs @ ys) = bars_from i xs @ bars_from (i + length xs) ys"
  by (induction xs arbitrary: i) simp_all

lemma digit_not_bar: "is_digit c \<Longrightarrow> c \<noteq> CHR ''|''"
  by (auto simp: is_digit_def)

lemma nat_text_no_bar: "CHR ''|'' \<notin> set (nat_text n)"
  using nat_text_digits [of n] digit_not_bar by (auto simp: list_all_iff)

lemma int_text_no_bar: "CHR ''|'' \<notin> set (int_text i)"
  by (simp add: int_text_def nat_text_no_bar)

lemma digit_char_no_bar: "k < 10 \<Longrightarrow> CHR ''|'' \<noteq> digit_char k"
  using digit_not_bar is_digit_digit_char by metis

lemma float_repr_no_bar: "CHR ''|'' \<notin> set (float_repr x)"
  by (simp add: float_repr_def Let_def nat_text_no_bar digit_char_no_bar)

lemma length_nat_text: "n < 10 ^ k \<Longrightarrow> 0 < k \<Longrightarrow> length (nat_text n) \<le> k"
proof (induction n arbitrary: k rule: nat_text.induct)
  case (1 n)
  show ?case
  proof (cases "n < 10")
    case True
    then show ?thesis using "1.prems" by (subst nat_text.simps) simp
  next
    case False
    obtain k' where k: "k = Suc k'" using "1.prems"(2) by (cases k) auto
    have "0 < k'"
    proof (rule ccontr)
      assume "\<not> 0 < k'"
      then have "n < 10" using "1.prems"(1) k by simp
      with False show False by simp
    qed
    have "n div 10 < 10 ^ k'" using "1.prems"(1) k(1) by (simp add: less_mult_imp_div_less mult.commute)
    then have "length (nat_text (n div 10)) \<le> k'" using "1.IH" False \<open>0 < k'\<close> by simp
    then show ?thesis using False k(1) by (subst nat_text.simps) simp
  qed
qed

lemma length_float_repr:
  assumes "-99 < x" "x < 100"
  shows "length (float_repr x) \<le> 6"
proof -
  let ?k = "\<lfloor>x * 100\<rfloor>"
  define a where "a = nat \<bar>?k\<bar>"
  have "-9900 \<le> ?k" "?k < 10000" using assms by (simp_all add: floor_less_iff le_floor_iff)
  then have "\<bar>?k\<bar> < 10000" unfolding abs_less_iff by linarith
  then have "a < 100 * 100" unfolding a_def by simp
  then have "a div 100 < 10 ^ 2" by (simp add: less_mult_imp_div_less)
  then have l: "length (nat_text (a div 100)) \<le> 2" by (rule length_nat_text) simp
  have "float_repr x = (if ?k < 0 then ''-'' else []) @ nat_text (a div 100) @ ''.'' @
      (if a mod 100 mod 10 = 0 then [digit_char (a mod 100 div 10)]
       else [digit_char (a mod 100 div 10), digit_char (a mod 100 mod 10)])"
    unfolding float_repr_def Let_def a_def ..
  then show ?thesis using l by simp
qed

section \<open>Where the printed values come from\<close>

lemma group_by_origin:
  "(k, g) \<in> set (group_by key rows) \<Longrightarrow>
     g \<noteq> [] \<and> set g \<subseteq> set rows \<and> k \<in> key ` set rows \<and> length g \<le> length rows"
  using group_by_member [of k g key rows] group_by_subset [of k g key rows] by simp

lemma length_nonnull_le: "length (nonnull xs) \<le> length xs"
  by (induction xs rule: nonnull.induct) auto

lemma top_suppliers_origin:
  assumes "x \<in> set (top_suppliers rows)"
  shows "ss_name x \<in> supplier_name ` set rows \<and> total_shipments x \<le> length rows \<and>
    delayed_count x \<le> length rows \<and>
    (\<exists>g. g \<noteq> [] \<and> set g \<subseteq> set rows \<and> ss_avg_delay x = map_option sql_round2 (sql_avg (map delay_days g)))"
proof -
  have "x \<in> set (supplier_groups rows)"
    using assms by (auto simp: top_suppliers_def dest: in_set_takeD)
  then obtain k g where kg: "(k, g) \<in> set (group_by supplier_name rows)" and x: "x = supplier_agg (k, g)"
    by (auto simp: supplier_groups_def)
  have "length (nonnull (map (\<lambda>r. sql_case (sql_gt (delay_days r) 0) (Some (1::int)) None) g)) \<le> length g"
    by (metis length_nonnull_le length_map)
  then show ?thesis using group_by_origin [OF kg]
    by (intro conjI exI [of _ g]) (auto simp: x supplier_agg_def sql_count_def)
qed

lemma warehouse_ranking_origin:
  assumes "w \<in> set (warehouse_ranking rows)"
  shows "wr_name w \<in> warehouse_name ` set rows \<and> wr_volume w \<le> length rows \<and>
    (\<exists>g. g \<noteq> [] \<and> set g \<subseteq> set rows \<and> wr_avg_delay w = map_option sql_round2 (sql_avg (map delay_days g)))"
proof -
  obtain v where v: "v \<in> set (warehouse_groups rows)"
      and w: "wr_name w = ws_name v" "wr_volume w = volume v" "wr_avg_delay w = ws_avg_delay v"
    using assms by (auto simp: warehouse_ranking_def rank_warehouses_def)
  then obtain k g where kg: "(k, g) \<in> set (group_by warehouse_name rows)" and "v = warehouse_agg (k, g)"
    by (auto simp: warehouse_groups_def)
  then show ?thesis using group_by_origin [OF kg] w
    by (intro conjI exI [of _ g]) (auto simp: warehouse_agg_def Let_def)
qed

lemma top_products_origin:
  assumes "p \<in> set (top_products rows)"
  shows "ps_name p \<in> product_name ` set rows \<and>
    (\<exists>g. g \<noteq> [] \<and> set g \<subseteq> set rows \<and> ps_avg_delay p = map_option sql_round2 (sql_avg (map delay_days g)))"
proof -
  have "p \<in> set (product_groups rows)"
    using assms by (auto simp: top_products_def dest: in_set_takeD)
  then obtain k g where kg: "(k, g) \<in> set (group_by product_name rows)" and x: "p = product_agg (k, g)"
    by (auto simp: product_groups_def)
  then show ?thesis using group_by_origin [OF kg]
    by (intro conjI exI [of _ g]) (auto simp: x product_agg_def)
qed

lemma delay_trend_origin:
  "t \<in> set (delay_trend rows) \<Longrightarrow> \<exists>r \<in> set rows. tr_order_date t = dr_order_date r \<and> tr_delay t = delay_days r"
  using delay_trend_member rolling_scan_member by fastforce

section \<open>The lines of the tables\<close>

lemma bars_from_none: "CHR ''|'' \<notin> set s \<Longrightarrow> bars_from i s = []"
  by (induction s arbitrary: i) auto

lemma bars_from_ljust:
  "CHR ''|'' \<notin> set s \<Longrightarrow> bars_from i (ljust w s @ rest) = bars_from (i + max w (length s)) rest"
  by (simp add: ljust_def bars_from_append bars_from_none max_def)

lemma bars_from_ljust_end: "CHR ''|'' \<notin> set s \<Longrightarrow> bars_from i (ljust w s) = []"
  by (simp add: ljust_def bars_from_append bars_from_none)

lemma no_bar_literal: "CHR ''|'' \<notin> set ''Supplier''" "CHR ''|'' \<notin> set ''Total''"
  "CHR ''|'' \<notin> set ''Delayed''" "CHR ''|'' \<notin> set ''Avg Delay''" "CHR ''|'' \<notin> set ''Warehouse''"
  "CHR ''|'' \<notin> set ''Volume''" "CHR ''|'' \<notin> set ''Product''" "CHR ''|'' \<notin> set ''Severe Delays''"
  "CHR ''|'' \<notin> set ''Order Date''" "CHR ''|'' \<notin> set ''Delay''" "CHR ''|'' \<notin> set ''Rolling Avg''"
  by simp_all

lemmas bars_rules = bars_def bars_from_ljust bars_from_ljust_end bars_from_none no_bar_literal int_text_no_bar
  float_repr_no_bar

lemma supplier_line_Some:
  "ss_avg_delay x = Some a \<Longrightarrow> supplier_line x =
     Inr (ljust 25 (ss_name x) @ '' | '' @ ljust 6 (int_text (int (total_shipments x))) @ '' | '' @
          ljust 8 (int_text (int (delayed_count x))) @ '' | '' @ ljust 9 (float_repr a))"
  by (simp add: supplier_line_def sep_def real_value_def)

lemma warehouse_line_Some:
  "wr_avg_delay w = Some a \<Longrightarrow> warehouse_line w =
     Inr (ljust 35 (wr_name w) @ '' | '' @ ljust 6 (int_text (int (wr_volume w))) @ '' | '' @
          ljust 9 (float_repr a) @ '' | '' @ int_text (int (wr_rank w)))"
  by (simp add: warehouse_line_def sep_def real_value_def)

lemma product_line_Some:
  "ps_avg_delay p = Some a \<Longrightarrow> product_line p =
     Inr (ljust 25 (ps_name p) @ '' | '' @ ljust 9 (float_repr a) @ '' | '' @ py_str (int_value (severe_delays p)))"
  by (simp add: product_line_def sep_def real_value_def)

lemma trend_line_Some:
  "tr_delay t = Some d \<Longrightarrow> trend_line t =
     Inr (ljust 12 (tr_order_date t) @ '' | '' @ ljust 6 (int_text d) @ '' | '' @ py_str (real_value (tr_rolling t)))"
  by (simp add: trend_line_def sep_def int_value_def)

lemma line_None:
  "ss_avg_delay x = None \<Longrightarrow> supplier_line x = Inl TypeError"
  "wr_avg_delay w = None \<Longrightarrow> warehouse_line w = Inl TypeError"
  "ps_avg_delay p = None \<Longrightarrow> product_line p = Inl TypeError"
  "tr_delay t = None \<Longrightarrow> trend_line t = Inl TypeError"
  by (simp_all add: supplier_line_def warehouse_line_def product_line_def trend_line_def sep_def
      real_value_def int_value_def)

lemma py_str_no_bar_value: "CHR ''|'' \<notin> set (py_str (int_value x))" "CHR ''|'' \<notin> set (py_str (real_value y))"
  by (simp_all add: int_value_def real_value_def int_text_no_bar float_repr_no_bar split: option.splits)

lemma length_int_text: "- (10 ^ 5) < i \<Longrightarrow> i < 10 ^ 6 \<Longrightarrow> length (int_text i) \<le> 6"
proof (cases "i < 0")
  case True
  assume "- (10 ^ 5) < i"
  then have "nat (- i) < 10 ^ 5" using True by simp
  then have "length (nat_text (nat (- i))) \<le> 5" by (rule length_nat_text) simp
  then show ?thesis using True by (simp add: int_text_def)
next
  case False
  assume "i < 10 ^ 6"
  then have "nat i < 10 ^ 6" using False by simp
  then have "length (nat_text (nat i)) \<le> 6" by (rule length_nat_text) simp
  then show ?thesis using False by (simp add: int_text_def)
qed

lemma supplier_line_aligned:
  assumes "CHR ''|'' \<notin> set (ss_name x)" "length (ss_name x) \<le> 25" "total_shipments x < 10 ^ 6"
    and "delayed_count x < 10 ^ 6" "ss_avg_delay x = Some a"
  shows "\<exists>l. supplier_line x = Inr l \<and> bars l = bars supplier_header"
proof -
  have "length (int_text (int (total_shipments x))) \<le> 6" "length (int_text (int (delayed_count x))) \<le> 6"
    using assms(3,4) by (simp_all add: length_int_text)
  then show ?thesis using assms(1,2,5) by (simp add: supplier_line_Some supplier_header_def bars_rules)
qed

lemma warehouse_line_aligned:
  assumes "CHR ''|'' \<notin> set (wr_name w)" "length (wr_name w) \<le> 35" "wr_volume w < 10 ^ 6"
    and "wr_avg_delay w = Some a" "-99 < a" "a < 100"
  shows "\<exists>l. warehouse_line w = Inr l \<and> bars l = bars warehouse_header"
proof -
  have "length (int_text (int (wr_volume w))) \<le> 6" "length (float_repr a) \<le> 6"
    using assms(3,5,6) by (simp_all add: length_int_text length_float_repr)
  then show ?thesis using assms(1,2,4) by (simp add: warehouse_line_Some warehouse_header_def bars_rules)
qed

lemma product_line_aligned:
  assumes "CHR ''|'' \<notin> set (ps_name p)" "length (ps_name p) \<le> 25"
    and "ps_avg_delay p = Some a" "-99 < a" "a < 100"
  shows "\<exists>l. product_line p = Inr l \<and> bars l = bars product_header"
proof -
  have "length (float_repr a) \<le> 6" using assms(4,5) by (rule length_float_repr)
  then show ?thesis using assms(1-3) py_str_no_bar_value
    by (simp add: product_line_Some product_header_def bars_rules)
qed

lemma trend_line_aligned:
  assumes "CHR ''|'' \<notin> set (tr_order_date t)" "length (tr_order_date t) \<le> 12"
    and "tr_delay t = Some d" "- (10 ^ 5) < d" "d < 10 ^ 6"
  shows "\<exists>l. trend_line t = Inr l \<and> bars l = bars trend_header"
proof -
  have "length (int_text d) \<le> 6" using assms(4,5) by (rule length_int_text)
  then show ?thesis using assms(1-3) py_str_no_bar_value
    by (simp add: trend_line_Some trend_header_def bars_rules)
qed

section \<open>The demo's rows print\<close>

lemma join_origin:
  assumes "r \<in> set (shipment_delays s)"
  shows "(\<exists>sh \<in> set (shipments s). dr_order_date r = order_date sh) \<and>
    supplier_name r \<in> sup_name ` set (suppliers s) \<and> product_name r \<in> prod_name ` set (products s) \<and>
    warehouse_name r \<in> wh_name ` set (warehouses s)"
  using assms by (auto simp: shipment_delays_def join_shipment_def mk_delay_row_def Let_def)

lemma insert_names:
  "map sup_name (suppliers (insert_supplier s (n, l, t))) = map sup_name (suppliers s) @ [n]"
  "products (insert_supplier s (n, l, t)) = products s" "warehouses (insert_supplier s (n, l, t)) = warehouses s"
  "map prod_name (products (insert_product s (n, c))) = map prod_name (products s) @ [n]"
  "suppliers (insert_product s (n, c)) = suppliers s" "warehouses (insert_product s (n, c)) = warehouses s"
  "map wh_name (warehouses (insert_warehouse s (n, l))) = map wh_name (warehouses s) @ [n]"
  "suppliers (insert_warehouse s (n, l)) = suppliers s" "products (insert_warehouse s (n, l)) = products s"
  by (simp_all add: insert_supplier_def insert_product_def insert_warehouse_def Let_def)

lemma executemany_supplier_names:
  "map sup_name (suppliers (executemany insert_supplier s xs)) = map sup_name (suppliers s) @ map fst xs \<and>
   products (executemany insert_supplier s xs) = products s \<and> warehouses (executemany insert_supplier s xs) = warehouses s"
  unfolding executemany_def
proof (induction xs arbitrary: s)
  case (Cons x xs)
  obtain n l t where "x = (n, l, t)" by (cases x) auto
  with Cons show ?case by (simp add: insert_names)
qed simp

lemma executemany_product_names:
  "map prod_name (products (executemany insert_product s ys)) = map prod_name (products s) @ map fst ys \<and>
   suppliers (executemany insert_product s ys) = suppliers s \<and> warehouses (executemany insert_product s ys) = warehouses s"
  unfolding executemany_def
proof (induction ys arbitrary: s)
  case (Cons y ys)
  obtain n c where "y = (n, c)" by (cases y) auto
  with Cons show ?case by (simp add: insert_names)
qed simp

lemma executemany_warehouse_names:
  "map wh_name (warehouses (executemany insert_warehouse s zs)) = map wh_name (warehouses s) @ map fst zs \<and>
   suppliers (executemany insert_warehouse s zs) = suppliers s \<and> products (executemany insert_warehouse s zs) = products s"
  unfolding executemany_def
proof (induction zs arbitrary: s)
  case (Cons z zs)
  obtain n l where "z = (n, l)" by (cases z) auto
  with Cons show ?case by (simp add: insert_names)
qed simp

lemma base_db_names:
  "map sup_name (suppliers base_db) = map fst demo_suppliers"
  "map prod_name (products base_db) = map fst demo_products"
  "map wh_name (warehouses base_db) = map fst demo_warehouses"
  by (simp_all add: base_db_def executemany_supplier_names executemany_product_names
      executemany_warehouse_names empty_db_def)

lemma base_db_names_fit:
  "\<forall>n \<in> sup_name ` set (suppliers base_db). CHR ''|'' \<notin> set n \<and> length n \<le> 25"
  "\<forall>n \<in> prod_name ` set (products base_db). CHR ''|'' \<notin> set n \<and> length n \<le> 25"
  "\<forall>n \<in> wh_name ` set (warehouses base_db). CHR ''|'' \<notin> set n \<and> length n \<le> 35"
  unfolding set_map [symmetric] base_db_names
  by (simp_all add: demo_suppliers_def demo_products_def demo_warehouses_def)

lemma iso_date_no_bar: "CHR ''|'' \<notin> set (iso_date d)"
  using digits_fixed_digits [of 4 "nat (year d)"] digits_fixed_digits [of 2 "nat (month d)"]
    digits_fixed_digits [of 2 "nat (day d)"] digit_not_bar
  by (auto simp: iso_date_def list_all_iff)

lemma length_iso_date: "length (iso_date d) = 10"
  by (simp add: iso_date_def)

text \<open>Every row of the demo's CTE has names and an order date that fit their
  columns, and a delay between -1 and 15.\<close>

lemma demo_rows_printable:
  assumes "r \<in> set (shipment_delays (fst (run_state setup_database \<rho>)))"
  shows "CHR ''|'' \<notin> set (supplier_name r) \<and> length (supplier_name r) \<le> 25 \<and>
    CHR ''|'' \<notin> set (product_name r) \<and> length (product_name r) \<le> 25 \<and>
    CHR ''|'' \<notin> set (warehouse_name r) \<and> length (warehouse_name r) \<le> 35 \<and>
    CHR ''|'' \<notin> set (dr_order_date r) \<and> length (dr_order_date r) \<le> 12"
proof -
  obtain vs where vs: "list_all demo_values_ok vs"
      "fst (run_state setup_database \<rho>) = fold (\<lambda>v s. insert_shipment s v) vs base_db"
    using setup_database_run by blast
  let ?s = "fold (\<lambda>v s. insert_shipment s v) vs base_db"
  have r: "r \<in> set (shipment_delays ?s)" using assms vs(2) by simp
  obtain sh where sh: "sh \<in> set (shipments ?s)" "dr_order_date r = order_date sh"
    using join_origin [OF r] by blast
  obtain k p su w q od dd where v: "demo_values_ok (p, su, w, q, od, dd)" and "order_date sh = od"
    using demo_shipments_ok [OF vs(1) sh(1)] by auto
  then obtain d where "dr_order_date r = iso_date d" using sh(2) unfolding demo_values_ok_def by auto
  then have "CHR ''|'' \<notin> set (dr_order_date r) \<and> length (dr_order_date r) \<le> 12"
    by (simp add: iso_date_no_bar length_iso_date)
  moreover have "supplier_name r \<in> sup_name ` set (suppliers base_db)"
      "product_name r \<in> prod_name ` set (products base_db)" "warehouse_name r \<in> wh_name ` set (warehouses base_db)"
    using join_origin [OF r] by simp_all
  ultimately show ?thesis using base_db_names_fit by blast
qed

lemma demo_lines_aligned:
  assumes R: "R = run_analysis (fst (run_state setup_database \<rho>))"
  shows "list_all (\<lambda>x. \<exists>l. supplier_line x = Inr l \<and> bars l = bars supplier_header) (an_suppliers R) \<and>
    list_all (\<lambda>w. \<exists>l. warehouse_line w = Inr l \<and> bars l = bars warehouse_header) (an_warehouses R) \<and>
    list_all (\<lambda>p. \<exists>l. product_line p = Inr l \<and> bars l = bars product_header) (an_products R) \<and>
    list_all (\<lambda>t. \<exists>l. trend_line t = Inr l \<and> bars l = bars trend_header) (an_trend R)"
proof -
  let ?rows = "shipment_delays (fst (run_state setup_database \<rho>))"
  have b: "\<forall>r \<in> set ?rows. \<exists>d. delay_days r = Some d \<and> -1 \<le> d \<and> d \<le> 15"
    by (rule demo_rows_bounded)
  have n: "length ?rows = 50" using demo_delay_rows [of \<rho>] by blast
  have pr: "\<And>r. r \<in> set ?rows \<Longrightarrow> CHR ''|'' \<notin> set (supplier_name r) \<and> length (supplier_name r) \<le> 25 \<and>
    CHR ''|'' \<notin> set (product_name r) \<and> length (product_name r) \<le> 25 \<and>
    CHR ''|'' \<notin> set (warehouse_name r) \<and> length (warehouse_name r) \<le> 35 \<and>
    CHR ''|'' \<notin> set (dr_order_date r) \<and> length (dr_order_date r) \<le> 12"
    by (rule demo_rows_printable)
  have s: "\<exists>l. supplier_line x = Inr l \<and> bars l = bars supplier_header" if x: "x \<in> set (top_suppliers ?rows)" for x
  proof -
    obtain g where o: "ss_name x \<in> supplier_name ` set ?rows" "total_shipments x \<le> 50" "delayed_count x \<le> 50"
        "g \<noteq> []" "set g \<subseteq> set ?rows" "ss_avg_delay x = map_option sql_round2 (sql_avg (map delay_days g))"
      using top_suppliers_origin [OF x] n by auto
    obtain a where "ss_avg_delay x = Some a" using bounded_avg [OF b o(4,5)] o(6) by auto
    then show ?thesis using o(1-3) pr by (intro supplier_line_aligned) auto
  qed
  have w: "\<exists>l. warehouse_line w = Inr l \<and> bars l = bars warehouse_header" if w: "w \<in> set (warehouse_ranking ?rows)" for w
  proof -
    obtain g where o: "wr_name w \<in> warehouse_name ` set ?rows" "wr_volume w \<le> 50"
        "g \<noteq> []" "set g \<subseteq> set ?rows" "wr_avg_delay w = map_option sql_round2 (sql_avg (map delay_days g))"
      using warehouse_ranking_origin [OF w] n by auto
    obtain a where "wr_avg_delay w = Some a" "-1 \<le> a" "a \<le> 15" using bounded_avg [OF b o(3,4)] o(5) by auto
    then show ?thesis using o(1,2) pr by (intro warehouse_line_aligned) auto
  qed
  have p: "\<exists>l. product_line p = Inr l \<and> bars l = bars product_header" if p: "p \<in> set (top_products ?rows)" for p
  proof -
    obtain g where o: "ps_name p \<in> product_name ` set ?rows"
        "g \<noteq> []" "set g \<subseteq> set ?rows" "ps_avg_delay p = map_option sql_round2 (sql_avg (map delay_days g))"
      using top_products_origin [OF p] by auto
    obtain a where "ps_avg_delay p = Some a" "-1 \<le> a" "a \<le> 15" using bounded_avg [OF b o(2,3)] o(4) by auto
    then show ?thesis using o(1) pr by (intro product_line_aligned) auto
  qed
  have t: "\<exists>l. trend_line t = Inr l \<and> bars l = bars trend_header" if t: "t \<in> set (delay_trend ?rows)" for t
  proof -
    obtain r where r: "r \<in> set ?rows" "tr_order_date t = dr_order_date r" "tr_delay t = delay_days r"
      using delay_trend_origin [OF t] by blast
    obtain d where "delay_days r = Some d" "-1 \<le> d" "d \<le> 15" using b r(1) by blast
    then show ?thesis using r pr [OF r(1)] by (intro trend_line_aligned) auto
  qed
  show ?thesis using s w p t unfolding R run_analysis_def list_all_iff by simp
qed

section \<open>Raising\<close>

lemma run_prints_Inr: "\<forall>p \<in> set ps. \<exists>s. p = Inr s \<Longrightarrow> run_prints ps = (map projr ps, None)"
  by (induction ps rule: run_prints.induct) auto

lemma run_prints_error: "snd (run_prints ps) \<noteq> None \<longleftrightarrow> (\<exists>e. Inl e \<in> set ps)"
  by (induction ps rule: run_prints.induct) (auto split: prod.splits)

lemma line_Inl:
  "(\<exists>e. supplier_line x = Inl e) \<longleftrightarrow> ss_avg_delay x = None"
  "(\<exists>e. warehouse_line w = Inl e) \<longleftrightarrow> wr_avg_delay w = None"
  "(\<exists>e. product_line p = Inl e) \<longleftrightarrow> ps_avg_delay p = None"
  "(\<exists>e. trend_line t = Inl e) \<longleftrightarrow> tr_delay t = None"
  by (cases "ss_avg_delay x"; cases "wr_avg_delay w"; cases "ps_avg_delay p"; cases "tr_delay t";
      simp add: line_None supplier_line_Some warehouse_line_Some product_line_Some trend_line_Some)+

lemma analysis_prints_Inl:
  "(\<exists>e. Inl e \<in> set (analysis_prints R)) \<longleftrightarrow>
     (\<exists>x \<in> set (an_suppliers R). \<exists>e. supplier_line x = Inl e) \<or>
     (\<exists>w \<in> set (an_warehouses R). \<exists>e. warehouse_line w = Inl e) \<or>
     (\<exists>p \<in> set (an_products R). \<exists>e. product_line p = Inl e) \<or>
     (\<exists>t \<in> set (an_trend R). \<exists>e. trend_line t = Inl e)"
  unfolding analysis_prints_def by (simp add: image_iff) (blast intro: sym)

section \<open>Properties of the printed report\<close>

text \<open>C25. \<^verbatim>\<open>run_analysis\<close> raises \<^verbatim>\<open>TypeError\<close> exactly when one of the
  fetched rows has NULL in a column printed with a width: the average delay of a
  supplier, warehouse or product, or the delay of one of the ten latest shipments
  (a shipment still in transit, whose \<^verbatim>\<open>delivery_date\<close> is NULL).\<close>

theorem run_analysis_output_error:
  "snd (run_analysis_output s) = Some TypeError \<longleftrightarrow>
     (\<exists>x \<in> set (top_suppliers (shipment_delays s)). ss_avg_delay x = None) \<or>
     (\<exists>w \<in> set (warehouse_ranking (shipment_delays s)). wr_avg_delay w = None) \<or>
     (\<exists>p \<in> set (top_products (shipment_delays s)). ps_avg_delay p = None) \<or>
     (\<exists>t \<in> set (delay_trend (shipment_delays s)). tr_delay t = None)"
proof -
  have e: "snd (run_analysis_output s) = Some TypeError \<longleftrightarrow> snd (run_analysis_output s) \<noteq> None"
  proof (cases "snd (run_analysis_output s)")
    case (Some e)
    then show ?thesis by (cases e) simp
  qed simp
  show ?thesis unfolding e unfolding run_analysis_output_def run_prints_error analysis_prints_Inl line_Inl
    by (simp add: run_analysis_def)
qed

text \<open>C26. Where the bars of a supplier line fall: each field is padded to its
  width and never cut, so a bar moves right by as much as an earlier field overflows
  its width.\<close>

theorem supplier_line_columns:
  assumes "CHR ''|'' \<notin> set (ss_name x)" "ss_avg_delay x = Some a"
  shows "\<exists>l. supplier_line x = Inr l \<and>
    bars l = (let n = max 25 (length (ss_name x)); t = max 6 (length (int_text (int (total_shipments x))));
                  d = max 8 (length (int_text (int (delayed_count x)))) in [n + 1, n + t + 4, n + t + d + 7])"
  using assms by (simp add: supplier_line_Some bars_rules Let_def)

text \<open>C27. Whatever the random draws, the demo prints its four tables without
  raising and ends with its closing line.\<close>

theorem demo_output_no_error:
  "pred_state (\<lambda>(out, err). err = None \<and> last out = closing_line) main_output"
proof (rule pred_stateI)
  fix res \<rho> \<rho>'
  assume run: "run_state main_output \<rho> = (res, \<rho>')"
  let ?R = "run_analysis (fst (run_state setup_database \<rho>))"
  have "\<forall>p \<in> set (analysis_prints ?R). \<exists>s. p = Inr s"
    using demo_lines_aligned [OF refl, of \<rho>] by (auto simp: analysis_prints_def list_all_iff)
  then have "run_analysis_output (fst (run_state setup_database \<rho>)) = (map projr (analysis_prints ?R), None)"
    unfolding run_analysis_output_def by (rule run_prints_Inr)
  then show "case res of (out, err) \<Rightarrow> err = None \<and> last out = closing_line"
    using run by (auto simp: main_output_def split: prod.splits)
qed

text \<open>C28. Whatever the random draws, every row printed by the demo has its bars in
  exactly the columns of its table's header.\<close>

theorem demo_tables_aligned:
  "pred_state (\<lambda>R.
     list_all (\<lambda>x. \<exists>l. supplier_line x = Inr l \<and> bars l = bars supplier_header) (an_suppliers R) \<and>
     list_all (\<lambda>w. \<exists>l. warehouse_line w = Inr l \<and> bars l = bars warehouse_header) (an_warehouses R) \<and>
     list_all (\<lambda>p. \<exists>l. product_line p = Inr l \<and> bars l = bars product_header) (an_products R) \<and>
     list_all (\<lambda>t. \<exists>l. trend_line t = Inr l \<and> bars l = bars trend_header) (an_trend R)) main"
proof (rule pred_stateI)
  fix R \<rho> \<rho>'
  assume "run_state main \<rho> = (R, \<rho>')"
  then have "R = run_analysis (fst (run_state setup_database \<rho>))"
    by (simp add: main_def split: prod.splits)
  then show "list_all (\<lambda>x. \<exists>l. supplier_line x = Inr l \<and> bars l = bars supplier_header) (an_suppliers R) \<and>
     list_all (\<lambda>w. \<exists>l. warehouse_line w = Inr l \<and> bars l = bars warehouse_header) (an_warehouses R) \<and>
     list_all (\<lambda>p. \<exists>l. product_line p = Inr l \<and> bars l = bars product_header) (an_products R) \<and>
     list_all (\<lambda>t. \<exists>l. trend_line t = Inr l \<and> bars l = bars trend_header) (an_trend R)"
    by (rule demo_lines_aligned)
qed

end
