(* ===== verification/Spec2Isabelle.thy ===== *)
theory Spec2Isabelle
  imports DemoPy Printing
begin

text \<open>
  \<^bold>\<open>Supply-chain bottleneck analysis: a verified model.\<close>

  The repository has two Python scripts. \<^verbatim>\<open>src/scripts/demo_sqlite.py\<close> builds an
  SQLite database (\<^verbatim>\<open>setup_database\<close>: four tables, fixed suppliers, products and
  warehouses, 50 random shipments) and runs four analyses over it
  (\<^verbatim>\<open>run_analysis\<close>): all of them read the common table expression
  \<^verbatim>\<open>Shipment_Delays\<close>, which joins each shipment with its product, supplier and
  warehouse and derives \<^verbatim>\<open>actual_lead_time\<close> and \<^verbatim>\<open>delay_days\<close> from the
  dates with \<^verbatim>\<open>julianday\<close>. \<^verbatim>\<open>src/scripts/generate_data.py\<close> writes the same
  kind of data as SQL text. Python writes dates as \<^verbatim>\<open>YYYY-MM-DD\<close> text and
  SQLite reads them back, so the delay arithmetic crosses two calendar
  implementations.

  \<^bold>\<open>Theories.\<close>
  \<^item> \<open>Prelude\<close>: SQL values (NULL as \<open>None\<close>, ordered below every value as
    SQLite orders it), \<^verbatim>\<open>CAST AS INTEGER\<close>, \<^verbatim>\<open>ROUND(x, 2)\<close>, CASE and
    three-valued comparison, the aggregates COUNT, SUM and AVG (which skip NULLs),
    C's truncating division, GROUP BY (groups in ascending key order) and ORDER BY
    DESC as a stable insertion sort together with its contract \<open>order_by_desc\<close>
    (a sorted permutation), so that results can be stated for every order SQL admits.
  \<^item> \<open>Dates\<close>: Python's \<^verbatim>\<open>date\<close> (\<open>toordinal\<close>, \<open>next_day\<close>,
    \<open>add_days\<close> for \<^verbatim>\<open>+ timedelta(days=k)\<close>), the \<^verbatim>\<open>%Y-%m-%d\<close> text
    (\<open>iso_date\<close>), SQLite's date parser (\<open>parse_yyyy_mm_dd\<close>, \<open>get_digits\<close>)
    and day-number formula (\<open>compute_jdn\<close>, C division written out), and
    \<^verbatim>\<open>julianday\<close>. Proved: the ordinal moves by one per \<open>next_day\<close>; the
    text Python writes parses back to its date; SQLite's day number is Python's ordinal
    plus 1722949 for every date of years 1 to 9999, so differences of
    \<^verbatim>\<open>julianday\<close> are exact day counts.
  \<^item> \<open>Store\<close>: the four tables as lists of row records, the database record with
    the AUTOINCREMENT sequences, \<^verbatim>\<open>INSERT\<close>/\<^verbatim>\<open>executemany\<close> as state passing.
    Proved: keys are the 1-based positions of the rows.
  \<^item> \<open>Delays\<close>: the CTE \<^verbatim>\<open>Shipment_Delays\<close> as a nested-loop inner join
    (\<open>join_shipment\<close>, \<open>shipment_delays\<close>) and its select list
    (\<open>mk_delay_row\<close>). Proved: a shipment whose keys resolve gives exactly one
    row, one with a dangling key gives none (it is dropped without any error),
    and the row's delay is the exact day count minus the lead time.
  \<^item> \<open>Reports\<close>: the supplier ranking (\<open>top_suppliers\<close>), the warehouse ranking
    with \<^verbatim>\<open>RANK()\<close> (\<open>warehouse_ranking\<close>) and the product impact report
    (\<open>top_products\<close>). Proved: length bounds and descending order, the values of
    each column, independence of the tie order SQL leaves open, and each warehouse
    row's volume, rounded average and \<^verbatim>\<open>RANK()\<close> counted on the unrounded
    averages of the other warehouses.
  \<^item> \<open>Trend\<close>: the rolling average of Analysis 4 (\<open>delay_trend\<close>) as the single
    scan SQLite performs (\<open>rolling_scan\<close>, a window of the last four delays), proved
    equal to the frame definition \<^verbatim>\<open>ROWS BETWEEN 4 PRECEDING AND CURRENT ROW\<close>
    (\<open>rolling_ref\<close>, a lemma); the first row and the shape of the report.
  \<^item> \<open>Generator\<close>: the data of \<^verbatim>\<open>setup_database\<close>: the fixed rows
    (\<open>base_db\<close>) and the 50-shipment loop (\<open>gen_shipment\<close>, \<open>gen_loop\<close>,
    \<open>setup_database\<close>) as HOL-Library's \<open>State_Monad\<close> over an infinite stream
    of random draws. Each \<^verbatim>\<open>randint\<close> or \<^verbatim>\<open>random()\<close> consumes one draw;
    every value of the documented range is reachable, so a theorem for every stream
    is a theorem for every run. Proved with Hoare-style rules on \<open>pred_state\<close>:
    the database is referentially sound, and composed with \<open>Delays\<close> and \<open>Dates\<close>,
    every one of the 50 shipments has its CTE row with a delay of -1..2 or 5..15.
  \<^item> \<open>GenScript\<close>: \<^verbatim>\<open>generate_data.py\<close>: the statement text of the f-strings
    (\<open>supplier_sql\<close>, \<open>shipment_sql\<close>, \<open>int_text\<close>, \<open>sql_str\<close>), the
    150-shipment loop over the same stream model and the newline join. Proved: the
    script read back by lines is the 25 fixed inserts then 150 shipment inserts with
    positional keys and delivery after order. Names are quoted without escaping,
    which the fixed names never need (a finding, not a property).
  \<^item> \<open>Analysis\<close>: \<^verbatim>\<open>run_analysis\<close> (the four queries over one CTE) and the
    \<^verbatim>\<open>__main__\<close> block (\<open>main\<close>: build, then analyse). Proved for every
    stream of draws: every average of the four reports is a number between -1 and
    15 days and the trend has 10 rows; an empty database gives four empty reports;
    a group whose delays are all NULL is reported with a NULL average (\<open>Reports\<close>).
  \<^item> \<open>PyRandom\<close>: the primitives of CPython's \<^verbatim>\<open>random\<close> the scripts call, on
    an arbitrary stream of 32-bit twister outputs (\<open>32 word stream\<close>):
    \<^verbatim>\<open>getrandbits\<close> (\<open>drop_bit\<close>), \<^verbatim>\<open>_randbelow\<close> as a
    \<^theory_text>\<open>partial_function (option)\<close> (\<open>randbelow_loop\<close>), \<^verbatim>\<open>randrange\<close> and
    \<^verbatim>\<open>randint\<close> with \<^verbatim>\<open>ValueError\<close>, and \<^verbatim>\<open>random()\<close>. Proved: the loop
    returns the first acceptable output and diverges exactly when there is none
    (fixpoint induction); \<open>n < 2^k \<le> 2n\<close> for \<open>k = bit_length n\<close>; CPython's
    \<^verbatim>\<open>randint\<close> and \<^verbatim>\<open>random()\<close> return only values the abstract draws of
    \<open>Generator\<close> return.
  \<^item> \<open>DemoPy\<close>: the shipment loop of \<^verbatim>\<open>setup_database\<close> run on \<open>PyRandom\<close>
    (\<open>gen_shipment_py\<close>, \<open>gen_loop_py\<close>, \<open>setup_database_py\<close>), a computation
    that may diverge (\<open>None\<close>), raise (\<open>Inl\<close>) or return. Four judgements closed
    under sequencing carry the proofs: the loop returns on every stream whose top bit
    is clear infinitely often (liveness), diverges only if from some point one range's
    rejection loop rejects every output (termination), never raises, and every
    database it builds is one \<open>setup_database\<close> builds from a finite list of draws
    (refinement, a lemma linking the two models), so the \<open>Generator\<close> and
    \<open>Analysis\<close> results hold of the real script.
  \<^item> \<open>Printing\<close>: the \<^verbatim>\<open>print\<close> calls of \<^verbatim>\<open>run_analysis\<close> and \<^verbatim>\<open>__main__\<close>:
    Python values of the fetched columns (\<open>py_value\<close>), \<^verbatim>\<open>str\<close> (\<open>py_str\<close>,
    \<open>float_repr\<close>), the f-string field \<^verbatim>\<open>{x:<w}\<close> (\<open>format_ljust\<close>, which
    raises \<^verbatim>\<open>TypeError\<close> on \<open>None\<close>), the four headers and row lines, and the
    whole output as the lines printed before the first raise (\<open>run_prints\<close>,
    \<open>run_analysis_output\<close>, \<open>main_output\<close>). Proved: the output raises exactly when
    a NULL reaches a padded field (a shipment in transit among the ten latest orders
    does); where each bar of a supplier line falls; and, composed with \<open>Generator\<close>,
    \<open>Delays\<close> and \<open>Reports\<close>, for every stream the demo prints without raising and
    every row's bars sit under its header's.
  \<^item> \<open>Store\<close> also holds a \<open>datatype\<close> of the INSERT statements with its step
    function \<open>exec_op\<close> and the inductive predicate \<open>reachable\<close>; the key
    invariant is proved by rule induction.

  \<^bold>\<open>Bounds and loops.\<close> Every loop of the scripts has a fixed count (the 50 and
  150 shipments, \<^verbatim>\<open>executemany\<close> over a list, \<open>add_days\<close> one day at a time), so
  each is structural recursion and needs no fuel. The one loop that may run forever is
  CPython's rejection loop in \<^verbatim>\<open>_randbelow\<close>; it is a partial function whose
  non-termination is the value \<open>None\<close>, and its return is proved as such. Dates are proved valid (year at
  most 9999) wherever the loops build them, so \<^verbatim>\<open>+ timedelta\<close> never raises
  \<^verbatim>\<open>OverflowError\<close> there; \<open>add_timedelta\<close> models the raise for other inputs.

  \<^bold>\<open>Not modelled.\<close> The file write and the closing \<^verbatim>\<open>print\<close> of
  \<^verbatim>\<open>generate_data.py\<close> (the text written is \<open>generate_data\<close>), the connection,
  \<^verbatim>\<open>commit\<close> and \<^verbatim>\<open>close\<close>; Python's float repr beyond two decimals (every
  float printed is a \<^verbatim>\<open>ROUND(..., 2)\<close> result) and the sign of a negative
  average that rounds to zero (SQLite and Python print \<^verbatim>\<open>-0.0\<close>, the rational
  model \<^verbatim>\<open>0.0\<close>; the demo never meets it, since a negative mean of at
  most 50 integer delays is at most -1/50);
  the Mersenne Twister's state, seeding and twist (its outputs are an arbitrary
  stream of 32-bit words, so every result holds for every seed; \<open>Generator\<close> and
  \<open>GenScript\<close> use an abstract one-draw-per-call stream, which \<open>DemoPy\<close>
  proves the real generator refines for \<^verbatim>\<open>setup_database\<close>); SQLite's floating point
  (values are exact rationals: every \<^verbatim>\<open>julianday\<close> difference of two dates is
  an integer and exact in a double, averages and rounding are modelled exactly); a
  time of day inside date text (the programs never write one).

  \<^bold>\<open>Root theory.\<close> The definitions below are sample inputs; the theorems are the
  witnesses that apply each property with hypotheses at a concrete input; the
  witness of the warehouse rows shows two warehouses that both print 0.29 ranked 1
  and 2, since \<^verbatim>\<open>RANK()\<close> orders by the unrounded average.
\<close>

definition example_db :: db where
  "example_db =
     \<lparr>suppliers = [\<lparr>supplier_id = 1, sup_name = ''Asia Logistics Hub'', sup_location = Some ''Singapore'',
                     lead_time_days = Some 15\<rparr>],
      products = [\<lparr>product_id = 1, prod_name = ''LCD Display Panel'', category = Some ''Electronics''\<rparr>],
      warehouses = [\<lparr>warehouse_id = 1, wh_name = ''West Coast Hub'', wh_location = Some ''Long Beach, CA''\<rparr>],
      shipments = [\<lparr>shipment_id = 1, sh_product_id = Some 1, sh_supplier_id = Some 1,
                     sh_warehouse_id = Some 1, quantity = 500, order_date = ''2023-01-01'',
                     delivery_date = Some ''2023-01-20''\<rparr>],
      seq_sup = 1, seq_prod = 1, seq_wh = 1, seq_ship = 1\<rparr>"

definition jan :: "int \<Rightarrow> date" where
  "jan k = \<lparr>year = 2023, month = 1, day = k\<rparr>"

definition drow :: "int \<Rightarrow> string \<Rightarrow> string \<Rightarrow> string \<Rightarrow> string \<Rightarrow> sql_int \<Rightarrow> delay_row" where
  "drow i p su w od d =
     \<lparr>dr_shipment_id = i, product_name = p, supplier_name = su, warehouse_name = w,
      dr_order_date = od, dr_delivery_date = None, promised_lead_time = None,
      actual_lead_time = None, delay_days = d\<rparr>"

text \<open>Eight CTE rows: seven suppliers (C and G tie), three warehouses (W2 and W3 tie),
  three products, one NULL delay.\<close>

definition sample_rows :: "delay_row list" where
  "sample_rows =
     [drow 1 ''P1'' ''A'' ''W1'' ''2023-01-01'' (Some 1), drow 2 ''P1'' ''B'' ''W1'' ''2023-01-02'' (Some 2),
      drow 3 ''P2'' ''C'' ''W2'' ''2023-01-03'' (Some 3), drow 4 ''P2'' ''D'' ''W2'' ''2023-01-04'' (Some 4),
      drow 5 ''P3'' ''E'' ''W3'' ''2023-01-05'' (Some 7), drow 6 ''P3'' ''F'' ''W3'' ''2023-01-06'' (Some 0),
      drow 7 ''P3'' ''A'' ''W3'' ''2023-01-07'' None, drow 8 ''P1'' ''G'' ''W1'' ''2023-01-08'' (Some 3)]"

definition stat :: "string \<Rightarrow> nat \<Rightarrow> nat \<Rightarrow> rat \<Rightarrow> supplier_stat" where
  "stat n t k a = \<lparr>ss_name = n, total_shipments = t, delayed_count = k, ss_avg_delay = Some a\<rparr>"

text \<open>The supplier groups in the order ORDER BY may also produce: G before C.\<close>

definition swapped_suppliers :: "supplier_stat list" where
  "swapped_suppliers =
     (let zs = sort_desc ss_avg_delay (supplier_groups sample_rows) in zs[2 := zs ! 3, 3 := zs ! 2])"

text \<open>The example database with a second shipment whose supplier key 9 names no row.\<close>

definition dangling_db :: db where
  "dangling_db =
     example_db\<lparr>shipments := shipments example_db @
       [\<lparr>shipment_id = 2, sh_product_id = Some 1, sh_supplier_id = Some 9, sh_warehouse_id = Some 1,
         quantity = 10, order_date = ''2023-01-02'', delivery_date = Some ''2023-01-05''\<rparr>]\<rparr>"

text \<open>Two warehouses whose averages, 5/17 and 2/7, both round to 0.29.\<close>

definition rank_rows :: "delay_row list" where
  "rank_rows =
     map (\<lambda>d. drow 1 ''P'' ''S'' ''WA'' ''2023-01-01'' (Some d)) [1, 1, 0, 0, 0, 0, 0] @
     map (\<lambda>d. drow 2 ''P'' ''S'' ''WB'' ''2023-01-01'' (Some d)) (replicate 5 1 @ replicate 12 0)"

text \<open>Supplier A's only shipment is in transit (NULL delay).\<close>

definition null_rows :: "delay_row list" where
  "null_rows = [drow 1 ''P'' ''A'' ''W'' ''2023-01-01'' None, drow 2 ''P'' ''B'' ''W'' ''2023-01-02'' (Some 3)]"

text \<open>The fixed tables and one shipment still in transit, ordered on the first day.\<close>

definition transit_db :: db where
  "transit_db = base_db\<lparr>shipments := [\<lparr>shipment_id = 1, sh_product_id = Some 1, sh_supplier_id = Some 1,
     sh_warehouse_id = Some 1, quantity = 100, order_date = ''2023-01-01'', delivery_date = None\<rparr>]\<rparr>"

text \<open>A supplier row as the first query fetches it.\<close>

definition sample_supplier :: supplier_stat where
  "sample_supplier = \<lparr>ss_name = ''Global Tech Parts'', total_shipments = 12, delayed_count = 3,
     ss_avg_delay = Some (7 / 2)\<rparr>"

section \<open>Witnesses\<close>

lemma valid_jan: "1 \<le> k \<Longrightarrow> k \<le> 31 \<Longrightarrow> valid_date (jan k)"
  by (simp add: jan_def valid_date_def valid_ymd_def days_in_month_def days_in_month_tbl_def)

lemma jan_days: "toordinal (jan 20) - toordinal (jan 1) = 19"
  by (simp add: jan_def toordinal_def days_before_month_def days_before_month_tbl_def)

text \<open>The spec's example: lead time 15, ordered 2023-01-01, delivered 2023-01-20:
  actual lead time 19, delay 4.\<close>

theorem delay_days_exact_witness:
  "\<exists>r \<in> set (shipment_delays example_db). dr_shipment_id r = 1 \<and>
     supplier_name r = ''Asia Logistics Hub'' \<and> actual_lead_time r = Some 19 \<and> delay_days r = Some 4"
proof -
  let ?s = example_db
  let ?sh = "hd (shipments example_db)"
  let ?u = "hd (suppliers example_db)"
  have ku: "keys_unique ?s"
    by (simp add: example_db_def keys_unique_def key_unique_def)
  have sh: "?sh \<in> set (shipments ?s)" and u: "?u \<in> set (suppliers ?s)"
    by (simp_all add: example_db_def)
  have r: "refs_ok ?s ?sh"
    by (simp add: example_db_def refs_ok_def resolves_def)
  have su: "sh_supplier_id ?sh = Some (supplier_id ?u)" and lt: "lead_time_days ?u = Some 15"
    by (simp_all add: example_db_def)
  have od: "order_date ?sh = iso_date (jan 1)" and dd: "delivery_date ?sh = Some (iso_date (jan 20))"
    by (simp add: example_db_def jan_def; code_simp)+
  show ?thesis
    using Delays.delay_days_exact [OF ku sh r u su lt valid_jan [of 1] valid_jan [of 20] od dd]
    by (simp add: jan_days example_db_def)
qed


lemma top_suppliers_sample:
  "top_suppliers sample_rows =
     [stat ''E'' 1 1 7, stat ''D'' 1 1 4, stat ''C'' 1 1 3, stat ''G'' 1 1 3, stat ''B'' 1 1 2]"
  by code_simp

lemma supplier_groups_sample:
  "supplier_groups sample_rows =
     [stat ''A'' 2 1 1, stat ''B'' 1 1 2, stat ''C'' 1 1 3, stat ''D'' 1 1 4, stat ''E'' 1 1 7,
      stat ''F'' 1 0 0, stat ''G'' 1 1 3]"
  by code_simp

theorem top_suppliers_shape_witness:
  "length (top_suppliers sample_rows) = 5 \<and> sorted_desc ss_avg_delay (top_suppliers sample_rows) \<and>
   1 \<le> total_shipments (stat ''B'' 1 1 2)"
proof -
  have m: "stat ''B'' 1 1 2 \<in> set (top_suppliers sample_rows)"
    by (simp add: top_suppliers_sample)
  have "length (top_suppliers sample_rows) = 5"
    by (simp add: top_suppliers_sample)
  with m Reports.top_suppliers_shape [of sample_rows] show ?thesis by blast
qed

lemma sorted_suppliers_sample:
  "sort_desc ss_avg_delay (supplier_groups sample_rows) =
     [stat ''E'' 1 1 7, stat ''D'' 1 1 4, stat ''C'' 1 1 3, stat ''G'' 1 1 3, stat ''B'' 1 1 2,
      stat ''A'' 2 1 1, stat ''F'' 1 0 0]"
  by (simp add: supplier_groups_sample stat_def)

theorem top_suppliers_order_independent_witness:
  "swapped_suppliers \<noteq> sort_desc ss_avg_delay (supplier_groups sample_rows) \<and>
   map ss_avg_delay (take 5 swapped_suppliers) = map ss_avg_delay (top_suppliers sample_rows)"
proof -
  let ?zs = "sort_desc ss_avg_delay (supplier_groups sample_rows)"
  have sw: "swapped_suppliers =
     [stat ''E'' 1 1 7, stat ''D'' 1 1 4, stat ''G'' 1 1 3, stat ''C'' 1 1 3, stat ''B'' 1 1 2,
      stat ''A'' 2 1 1, stat ''F'' 1 0 0]"
    by (simp add: swapped_suppliers_def sorted_suppliers_sample)
  have "mset swapped_suppliers = mset ?zs"
    unfolding swapped_suppliers_def Let_def by (rule mset_swap) (simp_all add: sorted_suppliers_sample)
  moreover have "sorted_desc ss_avg_delay swapped_suppliers"
    by (simp add: sw sorted_desc_def stat_def)
  ultimately have h: "order_by_desc ss_avg_delay (supplier_groups sample_rows) swapped_suppliers"
    by (simp add: order_by_desc_def)
  have "swapped_suppliers \<noteq> ?zs"
    by (simp add: sw sorted_suppliers_sample stat_def)
  with Reports.top_suppliers_order_independent [OF h] show ?thesis by simp
qed

theorem top_suppliers_dominate_witness:
  "stat ''F'' 1 0 0 \<notin> set (top_suppliers sample_rows) \<and>
   ss_avg_delay (stat ''F'' 1 0 0) \<le> ss_avg_delay (stat ''E'' 1 1 7)"
proof -
  have y: "stat ''F'' 1 0 0 \<in> set (supplier_groups sample_rows)"
    by (simp add: supplier_groups_sample)
  have n: "stat ''F'' 1 0 0 \<notin> set (top_suppliers sample_rows)"
    by (simp add: top_suppliers_sample stat_def)
  have x: "stat ''E'' 1 1 7 \<in> set (top_suppliers sample_rows)"
    by (simp add: top_suppliers_sample)
  from n Reports.top_suppliers_dominate [OF y n x] show ?thesis by simp
qed

theorem supplier_stat_values_witness:
  "stat ''A'' 2 1 1 \<notin> set (top_suppliers sample_rows) \<and>
   total_shipments (stat ''B'' 1 1 2) = length (filter (\<lambda>r. supplier_name r = ''B'') sample_rows) \<and>
   delayed_count (stat ''B'' 1 1 2) =
     length (filter (\<lambda>r. supplier_name r = ''B'' \<and> (\<exists>d. delay_days r = Some d \<and> 0 < d)) sample_rows)"
proof -
  have x: "stat ''B'' 1 1 2 \<in> set (top_suppliers sample_rows)"
    by (simp add: top_suppliers_sample)
  have "stat ''A'' 2 1 1 \<notin> set (top_suppliers sample_rows)"
    by (simp add: top_suppliers_sample stat_def)
  with Reports.supplier_stat_values [OF x] show ?thesis
    by (simp add: stat_def)
qed

theorem warehouse_ranks_sorted_witness:
  "warehouse_ranking sample_rows \<noteq> [] \<and> wr_rank (hd (warehouse_ranking sample_rows)) = 1 \<and>
   sorted (map wr_rank (warehouse_ranking sample_rows))"
proof -
  have "warehouse_ranking sample_rows \<noteq> []" by code_simp
  with Reports.warehouse_ranks_sorted [of sample_rows] show ?thesis by simp
qed

theorem top_products_values_witness:
  "length (top_products sample_rows) = 3 \<and> sorted_desc ps_avg_delay (top_products sample_rows) \<and>
   severe_delays (hd (top_products sample_rows)) =
     Some (int (length (filter (\<lambda>r. product_name r = ''P2'' \<and> (\<exists>d. delay_days r = Some d \<and> 5 < d))
       sample_rows)))"
proof -
  have l: "length (top_products sample_rows) = 3" by code_simp
  have h: "hd (top_products sample_rows) \<in> set (top_products sample_rows)"
    using l by (intro hd_in_set) auto
  have n: "ps_name (hd (top_products sample_rows)) = ''P2''" by code_simp
  from l h n Reports.top_products_values [of sample_rows] show ?thesis by auto
qed

lemma sample_first_earliest:
  "\<forall>r' \<in> set sample_rows. dr_order_date (hd sample_rows) \<le> dr_order_date r' \<and>
     (dr_order_date r' = dr_order_date (hd sample_rows) \<longrightarrow> r' = hd sample_rows)"
  by code_simp

theorem trend_first_row_witness:
  "hd (rolling_scan [] (window_order sample_rows)) =
     \<lparr>tr_order_date = ''2023-01-01'', tr_delay = Some 1, tr_rolling = Some 1\<rparr>"
  using Trend.trend_first_row [of "hd sample_rows" sample_rows 1] sample_first_earliest
  by (simp add: sample_rows_def drow_def)

theorem delay_trend_shape_witness:
  "length (delay_trend sample_rows) = 8 \<and> sorted_desc tr_order_date (delay_trend sample_rows)"
  using Trend.delay_trend_shape [of sample_rows] by (simp add: sample_rows_def)

theorem dangling_shipment_dropped_witness:
  "length (shipment_delays dangling_db) < length (shipments dangling_db)"
proof -
  let ?sh = "last (shipments dangling_db)"
  have "keys_unique dangling_db"
    by (simp add: dangling_db_def example_db_def keys_unique_def key_unique_def)
  moreover have "distinct (map shipment_id (shipments dangling_db))"
    by (simp add: dangling_db_def example_db_def)
  moreover have "?sh \<in> set (shipments dangling_db)"
    by (simp add: dangling_db_def example_db_def)
  moreover have "\<not> refs_ok dangling_db ?sh"
    by (simp add: dangling_db_def example_db_def refs_ok_def resolves_def)
  ultimately show ?thesis using Delays.dangling_shipment_dropped by blast
qed

theorem julianday_diff_witness:
  "the (julianday (Some (iso_date (jan 20)))) - the (julianday (Some (iso_date (jan 1)))) = 19"
  using Dates.julianday_diff [OF valid_jan [of 1] valid_jan [of 20]] jan_days by simp

theorem reachable_keys_positional_witness: "keys_positional base_db"
proof -
  have "reachable base_db"
    unfolding base_db_def
    by (rule reachable_executemany [of InsWarehouse], simp, rule reachable_executemany [of InsProduct], simp,
        rule reachable_executemany [of InsSupplier], simp, rule reachable.created)
  then show ?thesis by (rule Store.reachable_keys_positional)
qed

theorem shipment_delays_ids_witness: "map dr_shipment_id (shipment_delays dangling_db) = [1]"
proof -
  have "keys_unique dangling_db"
    by (simp add: dangling_db_def example_db_def keys_unique_def key_unique_def)
  then show ?thesis
    using Delays.shipment_delays_ids [of dangling_db]
    by (simp add: dangling_db_def example_db_def refs_ok_def resolves_def)
qed

lemma randbelow_zero_stream: "randbelow 5 (sconst 0) = Some (0, sconst 0)"
  unfolding randbelow_def by (subst randbelow_loop_unfold) (simp add: bits_of_def)

lemma bit_length_5: "bit_length 5 = 3"
  by code_simp

lemma msb_clear_often_zero: "msb_clear_often (sconst 0)"
  by (auto simp: msb_clear_often_def)

lemma setup_database_py_all_ones: "setup_database_py (sconst (- 1)) = None"
proof -
  have "bits_of 3 (- 1 :: 32 word) = 7" by code_simp
  then have "randbelow 5 (sconst (- 1)) = None"
    using randbelow_diverges_iff [of 5 "sconst (- 1)"] bit_length_5 by simp
  then have g: "gen_shipment_py (sconst (- 1)) = None"
    by (simp add: gen_shipment_py_def py_bind_def randint_py_def randrange_py_def)
  have e: "setup_database_py = py_bind gen_shipment_py (\<lambda>v. gen_loop_py 49 (insert_shipment base_db v))"
    by (simp add: setup_database_py_def numeral_eq_Suc)
  show ?thesis unfolding e py_bind_def g by simp
qed

theorem setup_database_py_returns_witness: "\<exists>d \<rho>'. setup_database_py (sconst 0) = Some (Inr (d, \<rho>'))"
  using DemoPy.setup_database_py_returns [OF msb_clear_often_zero] .

theorem setup_database_py_diverges_witness:
  "\<exists>i. \<exists>n \<in> {5, 3, 1901, 181, 11, 4}. \<forall>j \<ge> i. n \<le> bits_of (bit_length n) (sconst (- 1) !! j)"
  using DemoPy.setup_database_py_diverges [OF setup_database_py_all_ones] .

theorem run_analysis_empty_witness:
  "run_analysis base_db = \<lparr>an_suppliers = [], an_warehouses = [], an_products = [], an_trend = []\<rparr>"
  using Analysis.run_analysis_empty [of base_db] base_db_tables(4) by simp

theorem null_group_kept_witness:
  "\<exists>x \<in> set (supplier_groups null_rows). ss_name x = ''A'' \<and> 1 \<le> total_shipments x \<and> ss_avg_delay x = None"
  using Reports.null_group_kept [of "hd null_rows" null_rows] by (simp add: null_rows_def drow_def)


lemma transit_trend_null: "\<exists>t \<in> set (delay_trend (shipment_delays transit_db)). tr_delay t = None"
  by code_simp

theorem run_analysis_output_error_witness: "snd (run_analysis_output transit_db) = Some TypeError"
  using Printing.run_analysis_output_error [of transit_db] transit_trend_null by blast

lemma sample_supplier_texts: "int_text 12 = ''12''" "int_text 3 = ''3''"
  by code_simp+

theorem supplier_line_columns_witness:
  "\<exists>l. supplier_line sample_supplier = Inr l \<and> bars l = [26, 35, 46]"
  using Printing.supplier_line_columns [of sample_supplier "7 / 2"]
  by (simp add: sample_supplier_def sample_supplier_texts Let_def)


theorem warehouse_row_values_witness:
  "let w = warehouse_ranking rank_rows ! 1 in
     wr_name w = ''WA'' \<and> wr_avg_delay w = Some (29 / 100) \<and> wr_rank w = 2 \<and>
     wr_rank w = Suc (card {k \<in> warehouse_name ` set rank_rows.
       sql_avg (map delay_days (filter (\<lambda>r. warehouse_name r = wr_name w) rank_rows)) <
       sql_avg (map delay_days (filter (\<lambda>r. warehouse_name r = k) rank_rows))})"
proof -
  have l: "length (warehouse_ranking rank_rows) = 2" by code_simp
  then have m: "warehouse_ranking rank_rows ! 1 \<in> set (warehouse_ranking rank_rows)" by simp
  have n: "wr_name (warehouse_ranking rank_rows ! 1) = ''WA''"
    and a: "wr_avg_delay (warehouse_ranking rank_rows ! 1) = Some (29 / 100)"
    and r: "wr_rank (warehouse_ranking rank_rows ! 1) = 2" by code_simp+
  show ?thesis using Reports.warehouse_row_values [OF m] by (simp only: Let_def n a r)
qed

end
